(* ===== verification/Prelude.thy ===== *)
theory Prelude
  imports Main
begin

text \<open>
  What every component of the development shares: the result type of a fallible Go
  function, the collections of facts the component proofs draw on, and the lemmas on
  lists the string, path and table components need.

  A Go function \<open>func f(...) (T, error)\<close> is a function into \<open>'e + 'a\<close>: \<open>Inl e\<close> is
  the error return, \<open>Inr v\<close> the value returned with a nil error. A function that
  returns only an error has the unit result \<open>Inr ()\<close> for nil.
\<close>

named_theorems path_simps
  "rewrite rules for cleaned slash-separated paths"

named_theorems charset_intros
  "facts bounding the characters a rendered string can hold"

type_synonym 'e check = "'e + unit"

abbreviation (input) ok :: "'e check" where
  "ok \<equiv> Inr ()"

definition is_ok :: "'e + 'a \<Rightarrow> bool" where
  "is_ok r = (case r of Inl _ \<Rightarrow> False | Inr _ \<Rightarrow> True)"

lemma is_ok_simps [simp]:
  "is_ok (Inr v) = True"
  "is_ok (Inl e) = False"
  by (simp_all add: is_ok_def)

lemma is_okE:
  assumes "is_ok r"
  obtains v where "r = Inr v"
  using assms by (cases r) auto

lemma is_ok_unit_iff: "is_ok (r :: 'e check) \<longleftrightarrow> r = ok"
  by (cases r) auto

text \<open>The sequencing of Go's \<open>if err != nil { return err }\<close>.\<close>

definition bindr :: "'e + 'a \<Rightarrow> ('a \<Rightarrow> 'e + 'b) \<Rightarrow> 'e + 'b" where
  "bindr r f = (case r of Inl e \<Rightarrow> Inl e | Inr v \<Rightarrow> f v)"

lemma bindr_simps [simp]:
  "bindr (Inl e) f = Inl e"
  "bindr (Inr v) f = f v"
  by (simp_all add: bindr_def)

lemma bindr_eq_Inr_iff: "bindr r f = Inr w \<longleftrightarrow> (\<exists>v. r = Inr v \<and> f v = Inr w)"
  by (cases r) simp_all

lemma bindr_cong [fundef_cong]:
  "\<lbrakk>r = r'; \<And>v. r' = Inr v \<Longrightarrow> f v = f' v\<rbrakk> \<Longrightarrow> bindr r f = bindr r' f'"
  by (cases r') simp_all

text \<open>Run a check on every element, stopping at the first failure (a Go \<open>for range\<close>
  whose body returns on error).\<close>

fun check_all :: "('a \<Rightarrow> 'e check) \<Rightarrow> 'a list \<Rightarrow> 'e check" where
  "check_all f [] = ok"
| "check_all f (x # xs) = (case f x of Inl e \<Rightarrow> Inl e | Inr _ \<Rightarrow> check_all f xs)"

lemma check_all_ok_iff: "check_all f xs = ok \<longleftrightarrow> (\<forall>x \<in> set xs. f x = ok)"
  by (induction xs) (auto split: sum.splits)

lemma check_all_first_error:
  "check_all f xs = Inl e \<Longrightarrow> \<exists>ys x zs. xs = ys @ x # zs \<and> f x = Inl e \<and> (\<forall>y \<in> set ys. f y = ok)"
proof (induction xs)
  case Nil
  then show ?case by simp
next
  case (Cons x xs)
  show ?case
  proof (cases "f x")
    case (Inl e')
    with Cons.prems have "f x = Inl e" by simp
    then show ?thesis by (metis append_Nil empty_iff list.set(1))
  next
    case (Inr u)
    with Cons.prems have "check_all f xs = Inl e" by simp
    from Cons.IH [OF this] obtain ys y zs
      where "xs = ys @ y # zs" "f y = Inl e" "\<forall>z \<in> set ys. f z = ok" by blast
    with Inr show ?thesis
      by (intro exI [of _ "x # ys"] exI [of _ y] exI [of _ zs]) auto
  qed
qed

text \<open>Element removal by index, as \<open>slices.Delete(list, i, i+1)\<close> does for an index in
  range.\<close>

definition delete_nth :: "'a list \<Rightarrow> nat \<Rightarrow> 'a list" where
  "delete_nth xs i = take i xs @ drop (Suc i) xs"

lemma length_delete_nth: "i < length xs \<Longrightarrow> length (delete_nth xs i) = length xs - 1"
  by (simp add: delete_nth_def)

lemma set_delete_nth: "set (delete_nth xs i) \<subseteq> set xs"
  unfolding delete_nth_def using set_take_subset [of i xs] set_drop_subset [of "Suc i" xs] by auto

lemma delete_nth_Cons_0 [simp]: "delete_nth (x # xs) 0 = xs"
  by (simp add: delete_nth_def)

lemma delete_nth_Cons_Suc [simp]: "delete_nth (x # xs) (Suc i) = x # delete_nth xs i"
  by (simp add: delete_nth_def)

lemma delete_nth_insert: "i \<le> length xs \<Longrightarrow> delete_nth (take i xs @ x # drop i xs) i = xs"
  by (simp add: delete_nth_def)

lemma nth_delete_nth:
  "i < length xs \<Longrightarrow> j < length xs - 1 \<Longrightarrow>
   delete_nth xs i ! j = (if j < i then xs ! j else xs ! Suc j)"
  by (auto simp: delete_nth_def nth_append)

text \<open>The first index whose element satisfies a predicate, as the Go loops that return
  from inside \<open>for i, x := range xs\<close> compute it.\<close>

fun find_index :: "('a \<Rightarrow> bool) \<Rightarrow> 'a list \<Rightarrow> nat option" where
  "find_index P [] = None"
| "find_index P (x # xs) = (if P x then Some 0 else map_option Suc (find_index P xs))"

lemma find_index_None_iff: "find_index P xs = None \<longleftrightarrow> (\<forall>x \<in> set xs. \<not> P x)"
  by (induction xs) auto

lemma find_index_Some:
  "find_index P xs = Some i \<Longrightarrow> i < length xs \<and> P (xs ! i) \<and> (\<forall>j < i. \<not> P (xs ! j))"
proof (induction xs arbitrary: i)
  case Nil
  then show ?case by simp
next
  case (Cons x xs)
  show ?case
  proof (cases "P x")
    case True
    with Cons.prems show ?thesis by auto
  next
    case False
    with Cons.prems obtain k where "find_index P xs = Some k" "i = Suc k" by auto
    with Cons.IH [of k] False show ?thesis by (auto simp: nth_Cons less_Suc_eq_0_disj)
  qed
qed

lemma takeWhile_all_iff: "takeWhile P xs = xs \<longleftrightarrow> (\<forall>x \<in> set xs. P x)"
  by (metis takeWhile_eq_all_conv)

lemma dropWhile_Nil_iff: "dropWhile P xs = [] \<longleftrightarrow> (\<forall>x \<in> set xs. P x)"
  by (simp add: dropWhile_eq_Nil_conv)

section \<open>Machine integers\<close>

text \<open>Go's \<open>int64\<close> (and \<open>int\<close>, \<open>time.Duration\<close> on the 64-bit targets): arithmetic is done on
  \<open>int\<close> and brought back into range by \<open>wrap64\<close>.\<close>

definition wrap64 :: "int \<Rightarrow> int" where
  "wrap64 i = (i + 2 ^ 63) mod 2 ^ 64 - 2 ^ 63"

definition in_int64 :: "int \<Rightarrow> bool" where
  "in_int64 i = (- (2 ^ 63) \<le> i \<and> i < 2 ^ 63)"

lemma wrap64_id: "in_int64 i \<Longrightarrow> wrap64 i = i"
  by (simp add: wrap64_def in_int64_def)

lemma in_int64_wrap64: "in_int64 (wrap64 i)"
proof -
  have "0 \<le> (i + 2 ^ 63) mod 2 ^ 64" "(i + 2 ^ 63) mod 2 ^ 64 < (2 :: int) ^ 64" by simp_all
  then show ?thesis by (simp add: wrap64_def in_int64_def)
qed

text \<open>Durations are in nanoseconds, as in Go's \<open>time\<close> package.\<close>

abbreviation Millisecond :: int where "Millisecond \<equiv> 1000000"
abbreviation Second :: int where "Second \<equiv> 1000000000"
abbreviation Minute :: int where "Minute \<equiv> 60000000000"
abbreviation Hour :: int where "Hour \<equiv> 3600000000000"

section \<open>Runs of a deterministic component\<close>

text \<open>The state a component is in after a list of events, and the invariant rule for it.\<close>

fun run :: "('s \<Rightarrow> 'e \<Rightarrow> 's) \<Rightarrow> 's \<Rightarrow> 'e list \<Rightarrow> 's" where
  "run step s [] = s"
| "run step s (e # es) = run step (step s e) es"

lemma run_append: "run step s (es @ fs) = run step (run step s es) fs"
  by (induction es arbitrary: s) auto

lemma run_invariant:
  assumes "I s" "\<And>s e. I s \<Longrightarrow> e \<in> set es \<Longrightarrow> I (step s e)"
  shows "I (run step s es)"
  using assms by (induction es arbitrary: s) auto

end
