(* ===== verification/GoStrings.thy ===== *)
theory GoStrings
  imports Prelude
begin

text \<open>
  The parts of Go's \<open>strings\<close> and \<open>strconv\<close> packages the program calls. A Go string
  is a byte sequence and is modelled as \<open>string\<close>, one \<open>char\<close> per byte; a literal
  outside ASCII is written with its UTF-8 bytes.
\<close>

section \<open>Prefixes, suffixes and search\<close>

definition HasPrefix :: "string \<Rightarrow> string \<Rightarrow> bool" where
  "HasPrefix s p = (take (length p) s = p)"

definition HasSuffix :: "string \<Rightarrow> string \<Rightarrow> bool" where
  "HasSuffix s p = (length p \<le> length s \<and> drop (length s - length p) s = p)"

definition TrimPrefix :: "string \<Rightarrow> string \<Rightarrow> string" where
  "TrimPrefix s p = (if HasPrefix s p then drop (length p) s else s)"

definition TrimSuffix :: "string \<Rightarrow> string \<Rightarrow> string" where
  "TrimSuffix s p = (if HasSuffix s p then take (length s - length p) s else s)"

definition CutPrefix :: "string \<Rightarrow> string \<Rightarrow> string option" where
  "CutPrefix s p = (if HasPrefix s p then Some (drop (length p) s) else None)"

definition CutSuffix :: "string \<Rightarrow> string \<Rightarrow> string option" where
  "CutSuffix s p = (if HasSuffix s p then Some (take (length s - length p) s) else None)"

fun Contains :: "string \<Rightarrow> string \<Rightarrow> bool" where
  "Contains [] p = (p = [])"
| "Contains (c # s) p = (HasPrefix (c # s) p \<or> Contains s p)"

lemma HasPrefix_iff: "HasPrefix s p \<longleftrightarrow> (\<exists>t. s = p @ t)"
  unfolding HasPrefix_def by (metis append_eq_conv_conj append_take_drop_id)

lemma HasPrefix_append [simp]: "HasPrefix (p @ t) p"
  by (simp add: HasPrefix_def)

lemma HasPrefix_Nil [simp]: "HasPrefix s []"
  by (simp add: HasPrefix_def)

lemma HasPrefix_Cons_Cons [simp]: "HasPrefix (x # s) (y # p) \<longleftrightarrow> x = y \<and> HasPrefix s p"
  by (auto simp: HasPrefix_def)

lemma HasPrefix_Nil_Cons [simp]: "HasPrefix [] (y # p) \<longleftrightarrow> False"
  by (simp add: HasPrefix_def)

lemma HasSuffix_iff: "HasSuffix s p \<longleftrightarrow> (\<exists>t. s = t @ p)"
proof
  assume "HasSuffix s p"
  then have "s = take (length s - length p) s @ p"
    by (metis HasSuffix_def append_take_drop_id)
  then show "\<exists>t. s = t @ p" by blast
next
  assume "\<exists>t. s = t @ p"
  then show "HasSuffix s p" by (auto simp: HasSuffix_def)
qed

lemma HasSuffix_append [simp]: "HasSuffix (t @ p) p"
  by (auto simp: HasSuffix_iff)

lemma CutPrefix_eq_Some_iff: "CutPrefix s p = Some t \<longleftrightarrow> s = p @ t"
  by (auto simp: CutPrefix_def HasPrefix_iff)

lemma CutSuffix_eq_Some_iff: "CutSuffix s p = Some t \<longleftrightarrow> s = t @ p"
  by (auto simp: CutSuffix_def HasSuffix_iff)

lemma TrimPrefix_append [simp]: "TrimPrefix (p @ s) p = s"
  by (simp add: TrimPrefix_def)

lemma Contains_iff: "Contains s p \<longleftrightarrow> (\<exists>a b. s = a @ p @ b)"
proof (induction s)
  case Nil
  then show ?case by simp
next
  case (Cons c s)
  have "(\<exists>a b. c # s = a @ p @ b) \<longleftrightarrow> HasPrefix (c # s) p \<or> (\<exists>a b. s = a @ p @ b)"
    unfolding HasPrefix_iff by (metis append_Cons append_Nil append_eq_Cons_conv)
  with Cons.IH show ?case by simp
qed

lemma Contains_single [simp]: "Contains s [c] \<longleftrightarrow> c \<in> set s"
  by (induction s) auto

section \<open>Splitting at and joining with a separator\<close>

fun split_on :: "char \<Rightarrow> string \<Rightarrow> string list" where
  "split_on c [] = [[]]"
| "split_on c (x # xs) =
     (if x = c then [] # split_on c xs
      else (case split_on c xs of [] \<Rightarrow> [[x]] | y # ys \<Rightarrow> (x # y) # ys))"

fun join_with :: "string \<Rightarrow> string list \<Rightarrow> string" where
  "join_with sep [] = []"
| "join_with sep [x] = x"
| "join_with sep (x # y # r) = x @ sep @ join_with sep (y # r)"

definition Cut :: "string \<Rightarrow> char \<Rightarrow> (string \<times> string) option" where
  "Cut s c = (if c \<in> set s
     then Some (takeWhile (\<lambda>x. x \<noteq> c) s, tl (dropWhile (\<lambda>x. x \<noteq> c) s)) else None)"

lemma split_on_not_Nil [simp]: "split_on c s \<noteq> []"
  by (induction s) (auto split: list.splits)

lemma split_on_no_sep: "x \<in> set (split_on c s) \<Longrightarrow> c \<notin> set x"
  by (induction s arbitrary: x) (auto split: list.splits if_splits)

lemma set_split_on: "x \<in> set (split_on c s) \<Longrightarrow> set x \<subseteq> set s"
proof (induction s arbitrary: x)
  case Nil
  then show ?case by simp
next
  case (Cons a s)
  obtain y ys where s: "split_on c s = y # ys" by (meson neq_Nil_conv split_on_not_Nil)
  with Cons.IH have "set y \<subseteq> set s" "\<And>z. z \<in> set ys \<Longrightarrow> set z \<subseteq> set s" by auto
  with Cons.prems s show ?case by (auto split: if_splits)
qed

lemma join_with_Cons: "xs \<noteq> [] \<Longrightarrow> join_with sep (x # xs) = x @ sep @ join_with sep xs"
  by (cases xs) simp_all

lemma join_with_Cons_head: "join_with sep ((c # y) # ys) = c # join_with sep (y # ys)"
  by (cases ys) simp_all

lemma join_split_on [simp]: "join_with [c] (split_on c s) = s"
  by (induction s) (auto simp: join_with_Cons join_with_Cons_head split: list.splits)

lemma split_on_id [simp]: "c \<notin> set s \<Longrightarrow> split_on c s = [s]"
  by (induction s) auto

lemma split_on_append_sep: "split_on c (a @ c # s) = split_on c a @ split_on c s"
  by (induction a) (auto split: list.splits)

lemma split_on_join:
  "xs \<noteq> [] \<Longrightarrow> \<forall>x \<in> set xs. c \<notin> set x \<Longrightarrow> split_on c (join_with [c] xs) = xs"
proof (induction xs)
  case Nil
  then show ?case by simp
next
  case (Cons x xs)
  then show ?case by (cases "xs = []") (simp_all add: join_with_Cons split_on_append_sep)
qed

lemma set_join_with: "set (join_with sep xs) \<subseteq> set sep \<union> \<Union> (set ` set xs)"
  by (induction xs rule: join_with.induct [of _ sep, case_names nil one more]) auto

lemma join_with_append:
  "xs \<noteq> [] \<Longrightarrow> ys \<noteq> [] \<Longrightarrow> join_with sep (xs @ ys) = join_with sep xs @ sep @ join_with sep ys"
proof (induction xs)
  case Nil
  then show ?case by simp
next
  case (Cons x xs)
  then show ?case by (cases "xs = []") (simp_all add: join_with_Cons)
qed

lemma Cut_eq_Some_iff: "Cut s c = Some (a, b) \<longleftrightarrow> s = a @ c # b \<and> c \<notin> set a"
proof
  assume "Cut s c = Some (a, b)"
  then have c: "c \<in> set s" and a: "a = takeWhile (\<lambda>x. x \<noteq> c) s"
    and b: "b = tl (dropWhile (\<lambda>x. x \<noteq> c) s)"
    by (auto simp: Cut_def split: if_splits)
  from c have "dropWhile (\<lambda>x. x \<noteq> c) s = c # b"
    unfolding b by (induction s) auto
  then have "s = a @ c # b" unfolding a by (metis takeWhile_dropWhile_id)
  moreover have "c \<notin> set a" unfolding a by (metis (mono_tags, lifting) set_takeWhileD)
  ultimately show "s = a @ c # b \<and> c \<notin> set a" ..
next
  assume s: "s = a @ c # b \<and> c \<notin> set a"
  then have "takeWhile (\<lambda>x. x \<noteq> c) s = a" "dropWhile (\<lambda>x. x \<noteq> c) s = c # b"
    by (auto simp: takeWhile_append dropWhile_append)
  with s show "Cut s c = Some (a, b)" by (simp add: Cut_def)
qed

section \<open>White space\<close>

text \<open>The UTF-8 encodings of the runes \<open>unicode.IsSpace\<close> accepts. None of them starts
  with a continuation byte, so looking for an encoding at each byte position finds the
  same runes as decoding the string from the left (or, reversed, from the right).\<close>

definition space_seqs :: "string list" where
  "space_seqs =
     [[CHR 0x09], [CHR 0x0A], [CHR 0x0B], [CHR 0x0C], [CHR 0x0D], [CHR 0x20],
      [CHR 0xC2, CHR 0x85], [CHR 0xC2, CHR 0xA0], [CHR 0xE1, CHR 0x9A, CHR 0x80],
      [CHR 0xE2, CHR 0x80, CHR 0x80], [CHR 0xE2, CHR 0x80, CHR 0x81],
      [CHR 0xE2, CHR 0x80, CHR 0x82], [CHR 0xE2, CHR 0x80, CHR 0x83],
      [CHR 0xE2, CHR 0x80, CHR 0x84], [CHR 0xE2, CHR 0x80, CHR 0x85],
      [CHR 0xE2, CHR 0x80, CHR 0x86], [CHR 0xE2, CHR 0x80, CHR 0x87],
      [CHR 0xE2, CHR 0x80, CHR 0x88], [CHR 0xE2, CHR 0x80, CHR 0x89],
      [CHR 0xE2, CHR 0x80, CHR 0x8A], [CHR 0xE2, CHR 0x80, CHR 0xA8],
      [CHR 0xE2, CHR 0x80, CHR 0xA9], [CHR 0xE2, CHR 0x80, CHR 0xAF],
      [CHR 0xE2, CHR 0x81, CHR 0x9F], [CHR 0xE3, CHR 0x80, CHR 0x80]]"

definition seq_len :: "string list \<Rightarrow> string \<Rightarrow> nat" where
  "seq_len seqs s = (case find (HasPrefix s) seqs of None \<Rightarrow> 0 | Some p \<Rightarrow> length p)"

lemma seq_len_le: "seq_len seqs s \<le> length s"
  by (auto simp: seq_len_def find_Some_iff HasPrefix_iff split: option.splits)

function trim_head :: "string list \<Rightarrow> string \<Rightarrow> string" where
  "trim_head seqs s = (let n = seq_len seqs s in if n = 0 then s else trim_head seqs (drop n s))"
  by pat_completeness auto
termination
proof (relation "measure (length \<circ> snd)")
  show "wf (measure (length \<circ> snd))" by simp
next
  fix seqs s n
  assume "n = seq_len seqs s" "n \<noteq> 0"
  with seq_len_le [of seqs s] show "((seqs, drop n s), seqs, s) \<in> measure (length \<circ> snd)" by auto
qed

declare trim_head.simps [simp del]

definition TrimSpace :: "string \<Rightarrow> string" where
  "TrimSpace s = rev (trim_head (map rev space_seqs) (rev (trim_head space_seqs s)))"

lemma trim_head_suffix: "\<exists>t. s = t @ trim_head seqs s"
proof (induction seqs s rule: trim_head.induct)
  case (1 seqs s)
  show ?case
  proof (cases "seq_len seqs s = 0")
    case True
    then show ?thesis by (subst trim_head.simps) simp
  next
    case False
    then obtain t where "drop (seq_len seqs s) s = t @ trim_head seqs (drop (seq_len seqs s) s)"
      using 1 by blast
    then have "s = (take (seq_len seqs s) s @ t) @ trim_head seqs (drop (seq_len seqs s) s)"
      by (metis append.assoc append_take_drop_id)
    moreover have "trim_head seqs s = trim_head seqs (drop (seq_len seqs s) s)"
      using False by (subst trim_head.simps) simp
    ultimately show ?thesis by metis
  qed
qed

lemma set_TrimSpace: "set (TrimSpace s) \<subseteq> set s"
proof -
  obtain t u where "s = t @ trim_head space_seqs s"
    and "rev (trim_head space_seqs s) = u @ trim_head (map rev space_seqs) (rev (trim_head space_seqs s))"
    using trim_head_suffix by metis
  then show ?thesis unfolding TrimSpace_def by (metis Un_iff set_append set_rev subsetI)
qed

lemma trim_head_done: "seq_len seqs (trim_head seqs s) = 0"
proof (induction seqs s rule: trim_head.induct)
  case (1 seqs s)
  then show ?case by (subst trim_head.simps) (simp add: Let_def)
qed

lemma seq_len_0_iff: "[] \<notin> set seqs \<Longrightarrow> seq_len seqs s = 0 \<longleftrightarrow> (\<forall>p \<in> set seqs. \<not> HasPrefix s p)"
  by (auto simp: seq_len_def find_None_iff find_Some_iff split: option.splits) (metis nth_mem)

lemma TrimSpace_idem [simp]: "TrimSpace (TrimSpace s) = TrimSpace s"
proof -
  define v where "v = trim_head space_seqs s"
  define u where "u = TrimSpace s"
  have u: "rev u = trim_head (map rev space_seqs) (rev v)" by (simp add: u_def v_def TrimSpace_def)
  then obtain t where "v = u @ t" using trim_head_suffix [of "rev v" "map rev space_seqs"] by (metis rev_append rev_rev_ident)
  moreover have ne: "[] \<notin> set space_seqs" by (simp add: space_seqs_def)
  moreover have "seq_len space_seqs v = 0" unfolding v_def by (rule trim_head_done)
  ultimately have "seq_len space_seqs u = 0" by (auto simp: seq_len_0_iff HasPrefix_iff)
  then have "trim_head space_seqs u = u" by (subst trim_head.simps) simp
  moreover have "trim_head (map rev space_seqs) (rev u) = rev u"
    using trim_head_done [of "map rev space_seqs" "rev v"] u by (subst trim_head.simps) simp
  ultimately show ?thesis by (simp add: u_def [symmetric] TrimSpace_def [of u])
qed

function fields_from :: "string \<Rightarrow> string \<Rightarrow> string list" where
  "fields_from cur [] = (if cur = [] then [] else [rev cur])"
| "fields_from cur (c # s) =
     (let n = seq_len space_seqs (c # s) in
      if n = 0 then fields_from (c # cur) s
      else (if cur = [] then [] else [rev cur]) @ fields_from [] (drop n (c # s)))"
  by pat_completeness auto
termination by (relation "measure (length \<circ> snd)") auto

definition Fields :: "string \<Rightarrow> string list" where
  "Fields s = fields_from [] s"

section \<open>Decimal numbers\<close>

definition is_digit :: "char \<Rightarrow> bool" where
  "is_digit c = (48 \<le> (of_char c :: nat) \<and> (of_char c :: nat) \<le> 57)"

definition digit_val :: "char \<Rightarrow> nat" where
  "digit_val c = of_char c - 48"

datatype atoi = AtoiOk int | AtoiSyntax | AtoiRange int

text \<open>\<open>strconv.ParseUint(s, 10, 64)\<close> past its empty-string check: the range error is
  raised at the digit that overflows, before a later byte is looked at.\<close>

fun parse_uint :: "int \<Rightarrow> string \<Rightarrow> atoi" where
  "parse_uint n [] = AtoiOk n"
| "parse_uint n (c # s) =
     (if \<not> is_digit c then AtoiSyntax
      else let m = 10 * n + int (digit_val c) in
           if m \<ge> 2 ^ 64 then AtoiRange (2 ^ 64 - 1) else parse_uint m s)"

definition Atoi :: "string \<Rightarrow> atoi" where
  "Atoi s =
     (let neg = (s \<noteq> [] \<and> hd s = CHR ''-'');
          ds = (if s \<noteq> [] \<and> (hd s = CHR ''-'' \<or> hd s = CHR ''+'') then tl s else s) in
      if ds = [] then AtoiSyntax
      else (case parse_uint 0 ds of
              AtoiSyntax \<Rightarrow> AtoiSyntax
            | AtoiRange _ \<Rightarrow> AtoiRange (if neg then - (2 ^ 63) else 2 ^ 63 - 1)
            | AtoiOk n \<Rightarrow>
                if neg then (if n > 2 ^ 63 then AtoiRange (- (2 ^ 63)) else AtoiOk (- n))
                else (if n \<ge> 2 ^ 63 then AtoiRange (2 ^ 63 - 1) else AtoiOk n)))"

text \<open>The value \<open>n\<close> of \<open>n, _ := strconv.Atoi(s)\<close>.\<close>

fun atoi_value :: "atoi \<Rightarrow> int" where
  "atoi_value (AtoiOk n) = n"
| "atoi_value AtoiSyntax = 0"
| "atoi_value (AtoiRange n) = n"

definition digit_char :: "nat \<Rightarrow> char" where
  "digit_char d = char_of (48 + d)"

fun nat_dec :: "nat \<Rightarrow> string" where
  "nat_dec n = (if n < 10 then [digit_char n] else nat_dec (n div 10) @ [digit_char (n mod 10)])"

declare nat_dec.simps [simp del]

definition Itoa :: "int \<Rightarrow> string" where
  "Itoa i = (if i < 0 then CHR ''-'' # nat_dec (nat (- i)) else nat_dec (nat i))"

lemma digit_char_props [simp]:
  assumes "d < 10"
  shows "is_digit (digit_char d)" "digit_val (digit_char d) = d"
  using assms by (simp_all add: is_digit_def digit_val_def digit_char_def)

lemma nat_dec_not_Nil [simp]: "nat_dec n \<noteq> []"
  by (subst nat_dec.simps) simp

lemma nat_dec_digits: "list_all is_digit (nat_dec n)"
  by (induction n rule: nat_dec.induct) (subst nat_dec.simps, auto)

lemma parse_uint_append:
  "parse_uint n (s @ t) =
     (case parse_uint n s of AtoiOk m \<Rightarrow> parse_uint m t | r \<Rightarrow> r)"
  by (induction n s rule: parse_uint.induct) (auto simp: Let_def)

lemma parse_uint_nat_dec: "n < 2 ^ 64 \<Longrightarrow> parse_uint 0 (nat_dec n) = AtoiOk (int n)"
proof (induction n rule: nat_dec.induct)
  case (1 n)
  show ?case
  proof (cases "n < 10")
    case True
    then show ?thesis by (subst nat_dec.simps) (simp add: Let_def)
  next
    case False
    with 1 have "parse_uint 0 (nat_dec (n div 10)) = AtoiOk (int (n div 10))" by simp
    moreover have "10 * int (n div 10) + int (n mod 10) = int n"
      by (metis mult_div_mod_eq of_nat_add of_nat_mult of_nat_numeral)
    moreover have "int n < 2 ^ 64" using 1(2) by simp
    ultimately show ?thesis using False
      by (subst nat_dec.simps) (simp add: parse_uint_append Let_def)
  qed
qed

lemma is_digit_hd_nat_dec: "hd (nat_dec n) \<noteq> CHR ''-''" "hd (nat_dec n) \<noteq> CHR ''+''"
proof -
  have "is_digit (hd (nat_dec n))"
    using nat_dec_digits [of n] by (metis hd_in_set list.pred_set nat_dec_not_Nil)
  moreover have "\<not> is_digit (CHR ''-'')" "\<not> is_digit (CHR ''+'')"
    by (simp_all add: is_digit_def)
  ultimately show "hd (nat_dec n) \<noteq> CHR ''-''" "hd (nat_dec n) \<noteq> CHR ''+''" by metis+
qed

lemma Atoi_Itoa:
  assumes "- (2 ^ 63) \<le> i" "i < 2 ^ 63"
  shows "Atoi (Itoa i) = AtoiOk i"
proof (cases "i < 0")
  case True
  with assms have "nat (- i) < 2 ^ 64" by simp
  with True assms show ?thesis by (simp add: Atoi_def Itoa_def Let_def parse_uint_nat_dec)
next
  case False
  with assms have "nat i < 2 ^ 64" by simp
  with False assms show ?thesis
    by (simp add: Atoi_def Itoa_def Let_def parse_uint_nat_dec is_digit_hd_nat_dec)
qed

lemma parse_uint_bounds:
  "parse_uint n s = AtoiOk m \<Longrightarrow> 0 \<le> n \<Longrightarrow> n < 2 ^ 64 \<Longrightarrow> 0 \<le> m \<and> m < 2 ^ 64 \<and> list_all is_digit s"
  by (induction n s rule: parse_uint.induct) (auto simp: Let_def split: if_splits)

lemma Atoi_bounds:
  assumes "Atoi s = AtoiOk i"
  shows "- (2 ^ 63) \<le> i \<and> i < 2 ^ 63"
  using assms unfolding Atoi_def Let_def
  by (auto split: if_splits atoi.splits dest!: parse_uint_bounds)

section \<open>UTF-8\<close>

definition byte_in :: "nat \<Rightarrow> nat \<Rightarrow> char \<Rightarrow> bool" where
  "byte_in lo hi c = (lo \<le> (of_char c :: nat) \<and> (of_char c :: nat) \<le> hi)"

text \<open>The length of the valid encoding at the head of a string, or 0 when the first byte
  starts none (\<open>utf8.DecodeRune\<close> then consumes one byte as U+FFFD).\<close>

fun utf8_len :: "string \<Rightarrow> nat" where
  "utf8_len (a # b # c # d # s) =
     (if byte_in 0x00 0x7F a then 1
      else if byte_in 0xC2 0xDF a \<and> byte_in 0x80 0xBF b then 2
      else if ((byte_in 0xE0 0xE0 a \<and> byte_in 0xA0 0xBF b) \<or>
               ((byte_in 0xE1 0xEC a \<or> byte_in 0xEE 0xEF a) \<and> byte_in 0x80 0xBF b) \<or>
               (byte_in 0xED 0xED a \<and> byte_in 0x80 0x9F b)) \<and> byte_in 0x80 0xBF c then 3
      else if ((byte_in 0xF0 0xF0 a \<and> byte_in 0x90 0xBF b) \<or>
               (byte_in 0xF1 0xF3 a \<and> byte_in 0x80 0xBF b) \<or>
               (byte_in 0xF4 0xF4 a \<and> byte_in 0x80 0x8F b)) \<and>
              byte_in 0x80 0xBF c \<and> byte_in 0x80 0xBF d then 4
      else 0)"
| "utf8_len [a, b, c] =
     (if byte_in 0x00 0x7F a then 1
      else if byte_in 0xC2 0xDF a \<and> byte_in 0x80 0xBF b then 2
      else if ((byte_in 0xE0 0xE0 a \<and> byte_in 0xA0 0xBF b) \<or>
               ((byte_in 0xE1 0xEC a \<or> byte_in 0xEE 0xEF a) \<and> byte_in 0x80 0xBF b) \<or>
               (byte_in 0xED 0xED a \<and> byte_in 0x80 0x9F b)) \<and> byte_in 0x80 0xBF c then 3
      else 0)"
| "utf8_len [a, b] =
     (if byte_in 0x00 0x7F a then 1
      else if byte_in 0xC2 0xDF a \<and> byte_in 0x80 0xBF b then 2 else 0)"
| "utf8_len [a] = (if byte_in 0x00 0x7F a then 1 else 0)"
| "utf8_len [] = 0"

lemma utf8_len_le: "utf8_len s \<le> length s"
  by (cases s rule: utf8_len.cases) auto

lemma drop_utf8_shorter: "s \<noteq> [] \<Longrightarrow> utf8_len s \<noteq> 0 \<Longrightarrow> length s - utf8_len s < length s"
  by (meson diff_less length_greater_0_conv neq0_conv)

function utf8_valid :: "string \<Rightarrow> bool" where
  "utf8_valid s =
     (if s = [] then True else if utf8_len s = 0 then False else utf8_valid (drop (utf8_len s) s))"
  by pat_completeness auto
termination by (relation "measure length") (simp_all add: drop_utf8_shorter)

declare utf8_valid.simps [simp del]

text \<open>What \<open>encoding/json\<close> makes of a string on its way through the wire: every byte that is
  not part of a valid encoding arrives as U+FFFD.\<close>

function json_string :: "string \<Rightarrow> string" where
  "json_string s =
     (if s = [] then []
      else if utf8_len s = 0 then [CHR 0xEF, CHR 0xBF, CHR 0xBD] @ json_string (tl s)
      else take (utf8_len s) s @ json_string (drop (utf8_len s) s))"
  by pat_completeness auto
termination by (relation "measure length") (simp_all add: drop_utf8_shorter)

declare json_string.simps [simp del]

lemma json_string_valid: "utf8_valid s \<Longrightarrow> json_string s = s"
proof (induction s rule: utf8_valid.induct)
  case (1 s)
  show ?case
  proof (cases "s = []")
    case True
    then show ?thesis by (simp add: json_string.simps)
  next
    case False
    with 1(2) have "utf8_len s \<noteq> 0" "utf8_valid (drop (utf8_len s) s)"
      by (simp_all add: utf8_valid.simps [of s] split: if_splits)
    with False 1(1) show ?thesis by (subst json_string.simps) simp
  qed
qed

text \<open>The encodings of the control runes (\<open>unicode.IsControl\<close>): C0, DEL and C1.\<close>

definition control_at :: "string \<Rightarrow> bool" where
  "control_at s =
     (case s of
        [] \<Rightarrow> False
      | c # r \<Rightarrow> byte_in 0x00 0x1F c \<or> c = CHR 0x7F \<or>
          (c = CHR 0xC2 \<and> (case r of [] \<Rightarrow> False | d # _ \<Rightarrow> byte_in 0x80 0x9F d)))"

fun contains_control :: "string \<Rightarrow> bool" where
  "contains_control [] = False"
| "contains_control (c # s) = (control_at (c # s) \<or> contains_control s)"

lemma not_control_bytes:
  "\<not> contains_control s \<Longrightarrow> c \<in> set s \<Longrightarrow> \<not> byte_in 0x00 0x1F c \<and> c \<noteq> CHR 0x7F"
  by (induction s) (auto simp: control_at_def)

end
