(* ===== verification/GoPath.thy ===== *)
theory GoPath
  imports GoStrings
begin

text \<open>
  Go's \<open>path/filepath\<close> on Unix: \<open>Clean\<close>, \<open>IsAbs\<close>, \<open>Dir\<close>, \<open>Base\<close>, \<open>Join\<close> and
  \<open>Rel\<close>, with the facts that describe them on clean absolute paths. A clean absolute
  path is \<open>abs_path cs\<close> for a list \<open>cs\<close> of proper components (\<open>comp_ok\<close>): not empty,
  no slash, neither "." nor "..".
\<close>

section \<open>The functions\<close>

definition path_comps :: "string \<Rightarrow> string list" where
  "path_comps p = filter (\<lambda>c. c \<noteq> [] \<and> c \<noteq> ''.'') (split_on (CHR ''/'') p)"

text \<open>One element of \<open>Clean\<close>'s loop; the stack is the output so far, last element first.\<close>

definition clean_step :: "bool \<Rightarrow> string list \<Rightarrow> string \<Rightarrow> string list" where
  "clean_step rooted st c =
     (if c = ''..''
      then (case st of
              [] \<Rightarrow> if rooted then [] else [''..'']
            | x # xs \<Rightarrow> if x = ''..'' then ''..'' # x # xs else xs)
      else c # st)"

definition IsAbs :: "string \<Rightarrow> bool" where
  "IsAbs p = HasPrefix p ''/''"

definition Clean :: "string \<Rightarrow> string" where
  "Clean p =
     (if p = [] then ''.''
      else let out = rev (foldl (clean_step (IsAbs p)) [] (path_comps p)) in
           if IsAbs p then CHR ''/'' # join_with ''/'' out
           else if out = [] then ''.'' else join_with ''/'' out)"

definition upto_slash :: "string \<Rightarrow> string" where
  "upto_slash p = rev (dropWhile (\<lambda>c. c \<noteq> CHR ''/'') (rev p))"

definition Dir :: "string \<Rightarrow> string" where
  "Dir p = Clean (upto_slash p)"

definition Base :: "string \<Rightarrow> string" where
  "Base p =
     (if p = [] then ''.''
      else let q = dropWhile (\<lambda>c. c = CHR ''/'') (rev p);
               b = rev (takeWhile (\<lambda>c. c \<noteq> CHR ''/'') q) in
           if b = [] then ''/'' else b)"

definition Join :: "string list \<Rightarrow> string" where
  "Join elems =
     (case dropWhile (\<lambda>e. e = []) elems of [] \<Rightarrow> [] | es \<Rightarrow> Clean (join_with ''/'' es))"

fun strip_common :: "'a list \<Rightarrow> 'a list \<Rightarrow> 'a list \<times> 'a list" where
  "strip_common (x # xs) (y # ys) = (if x = y then strip_common xs ys else (x # xs, y # ys))"
| "strip_common xs ys = (xs, ys)"

text \<open>\<open>Rel\<close> on two absolute paths, the only way the program calls it. A cleaned absolute
  path has no ".." element, so the error branch of \<open>Rel\<close> is the one for a relative
  argument.\<close>

definition Rel :: "string \<Rightarrow> string \<Rightarrow> string option" where
  "Rel basepath targpath =
     (let b = Clean basepath; t = Clean targpath in
      if t = b then Some ''.''
      else if IsAbs b \<noteq> IsAbs t then None
      else case strip_common (path_comps b) (path_comps t) of
             (br, tr) \<Rightarrow>
               if br \<noteq> [] \<and> hd br = ''..'' then None
               else Some (join_with ''/'' (replicate (length br) ''..'' @ tr)))"

section \<open>Clean absolute paths\<close>

definition comp_ok :: "string \<Rightarrow> bool" where
  "comp_ok c = (c \<noteq> [] \<and> c \<noteq> ''.'' \<and> c \<noteq> ''..'' \<and> CHR ''/'' \<notin> set c)"

definition abs_path :: "string list \<Rightarrow> string" where
  "abs_path cs = CHR ''/'' # join_with ''/'' cs"

definition clean_abs :: "string \<Rightarrow> bool" where
  "clean_abs p = (\<exists>cs. p = abs_path cs \<and> list_all comp_ok cs)"

lemma comp_ok_simps [simp]: "\<not> comp_ok []" "\<not> comp_ok ''.''" "\<not> comp_ok ''..''"
  by (simp_all add: comp_ok_def)

lemma IsAbs_Cons [simp]: "IsAbs (c # s) \<longleftrightarrow> c = CHR ''/''"
  by (simp add: IsAbs_def)

lemma IsAbs_Nil [simp]: "\<not> IsAbs []"
  by (simp add: IsAbs_def)

lemma IsAbs_append [simp]: "p \<noteq> [] \<Longrightarrow> IsAbs (p @ q) = IsAbs p"
  by (cases p) simp_all

lemma IsAbs_abs_path [simp]: "IsAbs (abs_path cs)"
  by (simp add: abs_path_def)

lemma abs_path_not_Nil [simp]: "abs_path cs \<noteq> []"
  by (simp add: abs_path_def)

lemma path_comps_append_slash:
  "path_comps (a @ CHR ''/'' # b) = path_comps a @ path_comps b"
  by (simp add: path_comps_def split_on_append_sep)

lemma path_comps_slash [simp]: "path_comps (CHR ''/'' # b) = path_comps b"
  using path_comps_append_slash [of "[]" b] by (simp add: path_comps_def)

lemma path_comps_Nil [simp]: "path_comps [] = []"
  by (simp add: path_comps_def)

lemma path_comps_join:
  assumes "list_all comp_ok cs"
  shows "path_comps (join_with ''/'' cs) = cs"
proof (cases "cs = []")
  case False
  with assms have "split_on (CHR ''/'') (join_with ''/'' cs) = cs"
    by (intro split_on_join) (auto simp: list_all_iff comp_ok_def)
  then have "path_comps (join_with ''/'' cs) = filter (\<lambda>c. c \<noteq> [] \<and> c \<noteq> ''.'') cs"
    by (simp add: path_comps_def)
  also have "\<dots> = cs" using assms by (auto simp: list_all_iff comp_ok_def filter_id_conv)
  finally show ?thesis .
qed simp

lemma path_comps_abs_path [path_simps]: "list_all comp_ok cs \<Longrightarrow> path_comps (abs_path cs) = cs"
  by (simp add: abs_path_def path_comps_join)

lemma abs_path_inj:
  "list_all comp_ok cs \<Longrightarrow> list_all comp_ok ds \<Longrightarrow> abs_path cs = abs_path ds \<longleftrightarrow> cs = ds"
  by (metis path_comps_abs_path)

lemma path_comps_mem: "c \<in> set (path_comps p) \<Longrightarrow> c \<noteq> [] \<and> c \<noteq> ''.'' \<and> CHR ''/'' \<notin> set c"
  by (auto simp: path_comps_def dest: split_on_no_sep)

lemma foldl_clean_step_ok:
  "list_all comp_ok cs \<Longrightarrow> foldl (clean_step r) st cs = rev cs @ st"
  by (induction cs arbitrary: st) (auto simp: clean_step_def comp_ok_def)

lemma Clean_comps:
  assumes "q \<noteq> []" "list_all comp_ok (path_comps q)"
  shows "Clean q = (if IsAbs q then abs_path (path_comps q)
                    else if path_comps q = [] then ''.'' else join_with ''/'' (path_comps q))"
  using assms by (simp add: Clean_def foldl_clean_step_ok abs_path_def)

lemma Clean_abs_path [path_simps]: "list_all comp_ok cs \<Longrightarrow> Clean (abs_path cs) = abs_path cs"
  by (simp add: Clean_comps path_comps_abs_path)

lemma foldl_clean_step_rooted:
  "\<lbrakk>\<forall>c \<in> set cs. c \<noteq> [] \<and> c \<noteq> ''.'' \<and> CHR ''/'' \<notin> set c; list_all comp_ok st\<rbrakk> \<Longrightarrow>
   list_all comp_ok (foldl (clean_step True) st cs)"
proof (induction cs arbitrary: st)
  case Nil
  then show ?case by simp
next
  case (Cons c cs)
  have "list_all comp_ok (clean_step True st c)"
  proof (cases "c = ''..''")
    case True
    with Cons.prems(2) show ?thesis by (cases st) (auto simp: clean_step_def)
  next
    case False
    then have "comp_ok c" using Cons.prems(1) by (simp add: comp_ok_def)
    with False Cons.prems(2) show ?thesis by (simp add: clean_step_def)
  qed
  with Cons show ?case by simp
qed

lemma clean_abs_Clean: "IsAbs p \<Longrightarrow> clean_abs (Clean p)"
proof -
  assume p: "IsAbs p"
  let ?out = "rev (foldl (clean_step True) [] (path_comps p))"
  have "list_all comp_ok ?out"
    using foldl_clean_step_rooted [of "path_comps p" "[]"] path_comps_mem
    by (simp add: list.pred_set)
  moreover have "Clean p = abs_path ?out"
    using p by (auto simp: Clean_def abs_path_def)
  ultimately show ?thesis by (auto simp: clean_abs_def)
qed

lemma clean_abs_iff: "clean_abs p \<longleftrightarrow> IsAbs p \<and> Clean p = p"
  by (metis Clean_abs_path IsAbs_abs_path clean_abs_Clean clean_abs_def)

lemma join_snoc: "cs \<noteq> [] \<Longrightarrow> join_with sep (cs @ [c]) = join_with sep cs @ sep @ c"
  by (simp add: join_with_append)

lemma abs_path_snoc: "abs_path (cs @ [c]) = abs_path cs @ (if cs = [] then [] else ''/'') @ c"
  by (simp add: abs_path_def join_snoc)

section \<open>Dir, Base, Join and Rel on clean absolute paths\<close>

lemma upto_slash_append: "CHR ''/'' \<notin> set c \<Longrightarrow> upto_slash (p @ CHR ''/'' # c) = p @ ''/''"
  by (auto simp: upto_slash_def dropWhile_append)

lemma abs_path_snoc_split:
  obtains p where "abs_path (cs @ [c]) = p @ CHR ''/'' # c"
    "path_comps p = path_comps (abs_path cs)" "p = [] \<or> IsAbs p"
proof (cases "cs = []")
  case True
  then show ?thesis using that [of "[]"] by (simp add: abs_path_def)
next
  case False
  then show ?thesis using that [of "abs_path cs"] by (simp add: abs_path_snoc)
qed

lemma Dir_abs_path [path_simps]:
  assumes "list_all comp_ok (cs @ [c])"
  shows "Dir (abs_path (cs @ [c])) = abs_path cs"
proof -
  from assms have c: "CHR ''/'' \<notin> set c" and cs: "list_all comp_ok cs"
    by (auto simp: comp_ok_def)
  obtain p where p: "abs_path (cs @ [c]) = p @ CHR ''/'' # c"
    "path_comps p = path_comps (abs_path cs)" "p = [] \<or> IsAbs p"
    by (rule abs_path_snoc_split)
  have "path_comps (p @ ''/'') = cs"
    using p(2) cs by (simp add: path_comps_append_slash path_comps_abs_path)
  moreover have "IsAbs (p @ ''/'')" using p(3) by (cases p) auto
  ultimately have "Clean (p @ ''/'') = abs_path cs" using cs by (simp add: Clean_comps)
  then show ?thesis using p(1) c by (simp add: Dir_def upto_slash_append)
qed

lemma Dir_root [path_simps]: "Dir (abs_path []) = abs_path []"
  by (simp add: Dir_def upto_slash_def abs_path_def Clean_def)

lemma Base_append:
  assumes "c \<noteq> []" "CHR ''/'' \<notin> set c"
  shows "Base (p @ CHR ''/'' # c) = c"
proof -
  obtain x xs where c: "rev c = x # xs" using assms by (cases "rev c") auto
  with assms(2) have x: "x \<noteq> CHR ''/''" by (metis list.set_intros(1) set_rev)
  have "dropWhile (\<lambda>k. k = CHR ''/'') (rev (p @ CHR ''/'' # c)) = rev c @ CHR ''/'' # rev p"
    using c x by simp
  moreover have "takeWhile (\<lambda>k. k \<noteq> CHR ''/'') (rev c @ CHR ''/'' # rev p) = rev c"
    using assms(2) by (auto simp: takeWhile_append)
  ultimately show ?thesis using assms(1) by (simp add: Base_def Let_def)
qed

lemma Base_abs_path [path_simps]:
  assumes "list_all comp_ok (cs @ [c])"
  shows "Base (abs_path (cs @ [c])) = c"
proof -
  obtain p where p: "abs_path (cs @ [c]) = p @ CHR ''/'' # c" by (rule abs_path_snoc_split)
  from assms have "c \<noteq> []" "CHR ''/'' \<notin> set c" by (auto simp: comp_ok_def)
  then show ?thesis unfolding p by (rule Base_append)
qed

lemma Join_rest [path_simps]:
  assumes "list_all comp_ok (c # cs)"
  shows "Join [c, join_with ''/'' cs] = join_with ''/'' (c # cs)"
proof -
  from assms have c: "c \<noteq> []" "list_all comp_ok cs" "comp_ok c" "\<not> IsAbs c"
    by (auto simp: comp_ok_def IsAbs_def HasPrefix_iff)
  have "path_comps (c @ CHR ''/'' # join_with ''/'' cs) = c # cs"
    using path_comps_join [of "[c]"] c by (simp add: path_comps_append_slash path_comps_join)
  with c assms show ?thesis by (simp add: Join_def Clean_comps)
qed

lemma Join_abs [path_simps]:
  assumes "list_all comp_ok cs" "list_all comp_ok ds"
  shows "Join [abs_path cs, join_with ''/'' ds] = abs_path (cs @ ds)"
  using assms
  by (simp add: Join_def Clean_comps path_comps_append_slash path_comps_join path_comps_abs_path)

lemma strip_common_append: "strip_common bs (bs @ ts) = ([], ts)"
proof (induction bs)
  case Nil
  then show ?case by (cases ts) simp_all
qed simp

lemma Rel_abs_path [path_simps]:
  assumes "list_all comp_ok bs" "list_all comp_ok ts"
  shows "Rel (abs_path bs) (abs_path (bs @ ts)) = Some (if ts = [] then ''.'' else join_with ''/'' ts)"
proof -
  have bt: "list_all comp_ok (bs @ ts)" using assms by simp
  have eq: "abs_path (bs @ ts) = abs_path bs \<longleftrightarrow> ts = []"
    using abs_path_inj [OF bt assms(1)] by simp
  show ?thesis
    unfolding Rel_def Let_def Clean_abs_path [OF bt] Clean_abs_path [OF assms(1)]
      path_comps_abs_path [OF bt] path_comps_abs_path [OF assms(1)] eq strip_common_append
    by simp
qed

text \<open>A clean absolute path that has a directory with a trailing slash as a string prefix
  lies strictly below that directory.\<close>

lemma abs_path_prefix_dir:
  assumes cs: "list_all comp_ok cs" and ds: "list_all comp_ok ds"
    and pre: "HasPrefix (abs_path cs) (abs_path ds @ ''/'')"
  shows "\<exists>es. es \<noteq> [] \<and> cs = ds @ es"
proof -
  from pre obtain t where t: "abs_path cs = abs_path ds @ CHR ''/'' # t"
    by (auto simp: HasPrefix_iff)
  then have "path_comps (abs_path cs) = path_comps (abs_path ds) @ path_comps t"
    by (simp add: path_comps_append_slash)
  with cs ds have csd: "cs = ds @ path_comps t" by (simp add: path_comps_abs_path)
  have "path_comps t \<noteq> []"
  proof
    assume "path_comps t = []"
    with csd have "cs = ds" by simp
    with t show False by simp
  qed
  with csd show ?thesis by blast
qed

section \<open>Dir climbs towards a fixed point\<close>

text \<open>Loops that replace a path by its \<open>Dir\<close> until it no longer changes end: \<open>Dir\<close>
  shortens every path it changes, apart from the step to ".", which \<open>dir_rank\<close> puts last.\<close>

definition weight :: "string list \<Rightarrow> nat" where
  "weight ws = sum_list (map (\<lambda>c. Suc (length c)) ws)"

definition dir_rank :: "string \<Rightarrow> nat" where
  "dir_rank d = (if d = ''.'' then 0 else if d = [] then 1 else Suc (length d))"

lemma weight_simps [simp]: "weight [] = 0" "weight (c # ws) = Suc (length c) + weight ws"
  "weight (xs @ ys) = weight xs + weight ys" "weight (rev ws) = weight ws"
  by (simp_all add: weight_def rev_map [symmetric] sum_list_rev)

lemma weight_split_on: "weight (split_on c s) = Suc (length s)"
  by (induction s) (auto split: list.splits)

lemma weight_filter_le: "weight (filter P ws) \<le> weight ws"
  by (induction ws) auto

lemma weight_path_comps: "weight (path_comps p) \<le> Suc (length p)"
  unfolding path_comps_def using weight_filter_le weight_split_on by metis

lemma weight_clean_step: "weight (clean_step r st c) \<le> weight st + Suc (length c)"
  by (auto simp: clean_step_def split: list.splits)

lemma weight_foldl_clean_step: "weight (foldl (clean_step r) st cs) \<le> weight st + weight cs"
proof (induction cs arbitrary: st)
  case (Cons c cs)
  from Cons.IH [of "clean_step r st c"] weight_clean_step [of r st c] show ?case by simp
qed simp

lemma length_join_slash: "ws \<noteq> [] \<Longrightarrow> Suc (length (join_with ''/'' ws)) = weight ws"
proof (induction ws)
  case (Cons c ws)
  then show ?case by (cases "ws = []") (simp_all add: join_with_Cons)
qed simp

lemma length_Clean_slash:
  assumes "e \<noteq> []" "Clean (e @ ''/'') \<noteq> ''.''"
  shows "length (Clean (e @ ''/'')) \<le> length e"
proof -
  let ?out = "rev (foldl (clean_step (IsAbs (e @ ''/''))) [] (path_comps (e @ ''/'')))"
  have pc: "path_comps (e @ ''/'') = path_comps e"
    by (simp add: path_comps_append_slash)
  have w: "weight ?out \<le> weight (path_comps e)"
    using weight_foldl_clean_step [of _ "[]" "path_comps e"] by (simp add: pc)
  show ?thesis
  proof (cases "IsAbs e")
    case True
    then obtain e' where e: "e = CHR ''/'' # e'" by (cases e) auto
    have "Clean (e @ ''/'') = CHR ''/'' # join_with ''/'' ?out"
      using True assms(1) by (simp add: Clean_def Let_def)
    moreover have "weight (path_comps e) \<le> length e"
      using weight_path_comps [of e'] by (simp add: e)
    ultimately show ?thesis
      using w length_join_slash [of ?out] e by (cases "?out = []") auto
  next
    case False
    then have "Clean (e @ ''/'') = join_with ''/'' ?out" "?out \<noteq> []"
      using assms by (auto simp: Clean_def Let_def split: if_splits)
    with w weight_path_comps [of e] length_join_slash [of ?out] show ?thesis by simp
  qed
qed

lemma upto_slash_cases:
  obtains "upto_slash d = []" | e where "upto_slash d = e @ ''/''" "length e < length d"
proof (cases "dropWhile (\<lambda>c. c \<noteq> CHR ''/'') (rev d)")
  case Nil
  then show ?thesis using that(1) by (simp add: upto_slash_def)
next
  case (Cons x xs)
  then have "x = CHR ''/''" using hd_dropWhile [of "\<lambda>c. c \<noteq> CHR ''/''" "rev d"] by fastforce
  with Cons have "upto_slash d = rev xs @ ''/''" by (simp add: upto_slash_def)
  moreover have "length (rev xs) < length d"
    using Cons length_dropWhile_le [of "\<lambda>c. c \<noteq> CHR ''/''" "rev d"] by simp
  ultimately show ?thesis by (rule that(2))
qed

lemma Dir_rank: "Dir d \<noteq> d \<Longrightarrow> dir_rank (Dir d) < dir_rank d"
proof (cases d rule: upto_slash_cases)
  case 1
  moreover assume "Dir d \<noteq> d"
  ultimately show ?thesis by (auto simp: Dir_def Clean_def dir_rank_def)
next
  case (2 e)
  assume ne: "Dir d \<noteq> d"
  have d: "d \<noteq> []" "d \<noteq> ''.''"
    using 2 by (auto simp: upto_slash_def)
  show ?thesis
  proof (cases "e = []")
    case True
    then have dir: "Dir d = ''/''" using 2 by (simp add: Dir_def Clean_def path_comps_def)
    have "length d \<noteq> 1"
    proof
      assume "length d = 1"
      then obtain a where "d = [a]" by (auto simp: length_Suc_conv)
      with 2 True have "d = ''/''" by (auto simp: upto_slash_def split: if_splits)
      with ne dir show False by simp
    qed
    with dir d show ?thesis by (cases d) (simp_all add: dir_rank_def)
  next
    case False
    then have "Dir d = ''.'' \<or> length (Dir d) < length d"
      using 2 length_Clean_slash [of e] unfolding Dir_def by fastforce
    with d show ?thesis by (auto simp: dir_rank_def)
  qed
qed

end
