(* ===== verification/AgentRules.thy ===== *)
theory AgentRules
  imports GoPath
begin

text \<open>
  The path rules of the privileged agent (\<open>internal/agent/operations.go\<close>): symlink
  resolution of the existing prefix, the write and read rule tables, matching a path
  against a table, and opening the directory a rule confines access to.

  The file system is a parameter. \<open>es\<close> is what \<open>filepath.EvalSymlinks\<close> answers at the
  moment of the call: \<open>Some q\<close> with the resolved path, or \<open>None\<close> when the path does not
  exist. \<open>es_ok es\<close> is its documented contract on clean absolute paths: the result is
  again clean and absolute.

  The locale \<open>rule_table\<close> is the interface between the tables and the handlers that use
  them: a table of well-formed rules confines every path it admits to the directory of
  one of its rules. It is interpreted on both tables of the program.
\<close>

section \<open>Resolving the existing prefix of a path\<close>

type_synonym symlinks = "string \<Rightarrow> string option"

definition es_ok :: "symlinks \<Rightarrow> bool" where
  "es_ok es = (\<forall>p q. clean_abs p \<longrightarrow> es p = Some q \<longrightarrow> clean_abs q)"

function resolve_loop :: "symlinks \<Rightarrow> string \<Rightarrow> string \<Rightarrow> string \<Rightarrow> string" where
  "resolve_loop es path dir rest =
     (case es dir of
        Some resolved \<Rightarrow> Join [resolved, rest]
      | None \<Rightarrow>
          (if Dir dir = dir then path
           else resolve_loop es path (Dir dir) (Join [Base dir, rest])))"
  by pat_completeness auto
termination
  by (relation "measure (\<lambda>(es, path, dir, rest). dir_rank dir)") (simp_all add: Dir_rank)

declare resolve_loop.simps [simp del]

definition resolveExistingPrefix :: "symlinks \<Rightarrow> string \<Rightarrow> string" where
  "resolveExistingPrefix es path = resolve_loop es path path []"

section \<open>The rule tables\<close>

datatype pathRuleKind = dirPrefix | exactFile | filenamePrefix

record pathRule =
  pattern :: string
  kind :: pathRuleKind

definition dhcp6cScript :: string where
  "dhcp6cScript = ''/etc/wide-dhcpv6/dhcp6c-script''"

definition MkcertCARoot :: string where
  "MkcertCARoot = ''/var/lib/lankeeper-mkcert''"

abbreviation rule :: "string \<Rightarrow> pathRuleKind \<Rightarrow> pathRule" where
  "rule p k \<equiv> \<lparr>pattern = p, kind = k\<rparr>"

definition allowedWriteRules :: "pathRule list" where
  "allowedWriteRules =
    [rule ''/etc/ppp/options'' exactFile,
     rule ''/etc/ppp/peers/wan'' exactFile,
     rule ''/etc/ppp/chap-secrets'' exactFile,
     rule ''/etc/ppp/pap-secrets'' exactFile,
     rule ''/etc/openvpn/'' dirPrefix,
     rule ''/etc/nftables.conf'' exactFile,
     rule ''/etc/unbound/'' dirPrefix,
     rule ''/etc/dnsmasq.conf'' exactFile,
     rule ''/etc/dnsmasq.d/lankeeper-ipv6-ra.conf'' exactFile,
     rule ''/etc/wireguard/'' dirPrefix,
     rule ''/etc/samba/'' dirPrefix,
     rule ''/etc/chrony/'' dirPrefix,
     rule ''/etc/rsyslog.d/'' dirPrefix,
     rule ''/etc/lankeeper/'' dirPrefix,
     rule ''/etc/default/grub.d/lankeeper.cfg'' exactFile,
     rule ''/etc/wide-dhcpv6/dhcp6c.conf'' exactFile,
     rule dhcp6cScript exactFile,
     rule ''/etc/wide-dhcpv6/lankeeper-dhcp6c.env'' exactFile,
     rule ''/etc/dnscrypt-proxy/'' dirPrefix,
     rule ''/etc/fstab'' exactFile,
     rule ''/etc/pppoe-server-options'' exactFile,
     rule ''/var/lib/lankeeper/'' dirPrefix,
     rule ''/var/log/'' dirPrefix,
     rule ''/var/backups/lankeeper-pre-update-'' filenamePrefix,
     rule MkcertCARoot exactFile,
     rule (MkcertCARoot @ ''/staged.crt'') exactFile,
     rule (MkcertCARoot @ ''/staged.key'') exactFile]"

definition allowedReadRules :: "pathRule list" where
  "allowedReadRules =
    [rule ''/etc/ppp/'' dirPrefix,
     rule ''/etc/openvpn/'' dirPrefix,
     rule ''/etc/wireguard/'' dirPrefix,
     rule ''/etc/lankeeper/'' dirPrefix,
     rule ''/etc/unbound/'' dirPrefix,
     rule ''/etc/dnsmasq.conf'' exactFile,
     rule ''/etc/dnsmasq.d/'' dirPrefix,
     rule ''/etc/samba/'' dirPrefix,
     rule ''/etc/chrony/'' dirPrefix,
     rule ''/etc/rsyslog.d/'' dirPrefix,
     rule ''/etc/wide-dhcpv6/'' dirPrefix,
     rule ''/etc/dnscrypt-proxy/'' dirPrefix,
     rule ''/etc/fstab'' exactFile,
     rule ''/var/lib/lankeeper/'' dirPrefix,
     rule ''/var/log/'' dirPrefix,
     rule ''/var/run/'' dirPrefix,
     rule (MkcertCARoot @ ''/staged.crt'') exactFile,
     rule (MkcertCARoot @ ''/staged.key'') exactFile,
     rule (MkcertCARoot @ ''/rootCA.pem'') exactFile,
     rule ''/proc/mdstat'' exactFile]"

definition resolveRule :: "symlinks \<Rightarrow> pathRule \<Rightarrow> pathRule" where
  "resolveRule es r =
     (case kind r of
        dirPrefix \<Rightarrow> r\<lparr>pattern := resolveExistingPrefix es (TrimSuffix (pattern r) ''/'') @ ''/''\<rparr>
      | exactFile \<Rightarrow> r\<lparr>pattern := resolveExistingPrefix es (pattern r)\<rparr>
      | filenamePrefix \<Rightarrow>
          r\<lparr>pattern := Join [resolveExistingPrefix es (Dir (pattern r)), Base (pattern r)]\<rparr>)"

definition resolveRulePatterns :: "symlinks \<Rightarrow> pathRule list \<Rightarrow> pathRule list" where
  "resolveRulePatterns es rules = map (resolveRule es) rules"

section \<open>Matching and opening\<close>

definition admits :: "pathRule \<Rightarrow> string \<Rightarrow> bool" where
  "admits r p = (if kind r = exactFile then p = pattern r else HasPrefix p (pattern r))"

definition rule_base :: "pathRule \<Rightarrow> string" where
  "rule_base r = (if kind r = dirPrefix then TrimSuffix (pattern r) ''/'' else Dir (pattern r))"

definition ruleMatch :: "symlinks \<Rightarrow> string \<Rightarrow> pathRule list \<Rightarrow> (string \<times> string) option" where
  "ruleMatch es path rules =
     (if \<not> IsAbs path \<or> path \<noteq> Clean path then None
      else let resolved = resolveExistingPrefix es path in
           case find (\<lambda>r. admits r resolved) rules of
             None \<Rightarrow> None
           | Some r \<Rightarrow> Some (resolved, rule_base r))"

definition checkPathRules :: "symlinks \<Rightarrow> string \<Rightarrow> pathRule list \<Rightarrow> bool" where
  "checkPathRules es path rules = (ruleMatch es path rules \<noteq> None)"

datatype open_error =
    PathRefused string string
  | RelFailed
  | CreateFailed string
  | OpenFailed string

text \<open>What the operating system answers to \<open>openBeneath\<close>: whether creating the base
  directory and opening it as an \<open>os.Root\<close> succeed.\<close>

record root_env =
  re_symlinks :: symlinks
  re_mkdir_all :: "string \<Rightarrow> bool"
  re_open_root :: "string \<Rightarrow> bool"

definition openBeneath ::
  "'m root_env_scheme \<Rightarrow> string \<Rightarrow> pathRule list \<Rightarrow> string \<Rightarrow> open_error + string \<times> string" where
  "openBeneath env path rules refusal =
     (case ruleMatch (re_symlinks env) path rules of
        None \<Rightarrow> Inl (PathRefused refusal path)
      | Some (resolved, base) \<Rightarrow>
          (case Rel base resolved of
             None \<Rightarrow> Inl RelFailed
           | Some rel \<Rightarrow>
               if \<not> re_mkdir_all env base then Inl (CreateFailed base)
               else if \<not> re_open_root env base then Inl (OpenFailed base)
               else Inr (base, rel)))"

section \<open>Resolution keeps paths clean\<close>

lemma es_okD: "es_ok es \<Longrightarrow> clean_abs p \<Longrightarrow> es p = Some q \<Longrightarrow> clean_abs q"
  by (auto simp: es_ok_def)

lemma clean_absI [intro]: "list_all comp_ok cs \<Longrightarrow> clean_abs (abs_path cs)"
  by (auto simp: clean_abs_def)

lemma clean_absE:
  assumes "clean_abs p"
  obtains cs where "p = abs_path cs" "list_all comp_ok cs"
  using assms by (auto simp: clean_abs_def)

lemma resolve_loop_found [simp]:
  "es dir = Some q \<Longrightarrow> resolve_loop es path dir rest = Join [q, rest]"
  by (subst resolve_loop.simps) simp

lemma resolve_loop_up:
  assumes "es (abs_path (ds @ [d])) = None" "list_all comp_ok (ds @ d # rs)"
  shows "resolve_loop es path (abs_path (ds @ [d])) (join_with ''/'' rs) =
         resolve_loop es path (abs_path ds) (join_with ''/'' (d # rs))"
proof -
  from assms(2) have dd: "list_all comp_ok (ds @ [d])" "list_all comp_ok ds" "list_all comp_ok (d # rs)"
    by auto
  have "Dir (abs_path (ds @ [d])) \<noteq> abs_path (ds @ [d])"
    using dd by (simp add: Dir_abs_path abs_path_inj)
  then show ?thesis
    using assms(1) dd(1,3) by (subst resolve_loop.simps) (simp add: Dir_abs_path Base_abs_path Join_rest)
qed

lemma resolve_loop_root:
  "es (abs_path []) = None \<Longrightarrow> resolve_loop es path (abs_path []) rest = path"
  by (subst resolve_loop.simps) (simp add: Dir_root)

lemma resolve_loop_clean:
  assumes "es_ok es" "clean_abs path"
  shows "list_all comp_ok (ds @ rs) \<Longrightarrow>
         clean_abs (resolve_loop es path (abs_path ds) (join_with ''/'' rs))"
proof (induction ds arbitrary: rs rule: rev_induct)
  case Nil
  show ?case
  proof (cases "es (abs_path [])")
    case None
    then show ?thesis using assms(2) by (simp add: resolve_loop_root)
  next
    case (Some q)
    then obtain qs where q: "q = abs_path qs" "list_all comp_ok qs"
      using es_okD [OF assms(1) clean_absI [of "[]"]] by (auto elim: clean_absE)
    then have "resolve_loop es path (abs_path []) (join_with ''/'' rs) = abs_path (qs @ rs)"
      using Some Nil by (simp add: Join_abs)
    then show ?thesis using q Nil by auto
  qed
next
  case (snoc d ds)
  then have ok: "list_all comp_ok (ds @ [d])" by simp
  show ?case
  proof (cases "es (abs_path (ds @ [d]))")
    case None
    then have "resolve_loop es path (abs_path (ds @ [d])) (join_with ''/'' rs) =
               resolve_loop es path (abs_path ds) (join_with ''/'' (d # rs))"
      using snoc.prems by (intro resolve_loop_up) simp_all
    with snoc.IH [of "d # rs"] snoc.prems show ?thesis by simp
  next
    case (Some q)
    then obtain qs where q: "q = abs_path qs" "list_all comp_ok qs"
      using es_okD [OF assms(1) clean_absI [OF ok]] by (metis clean_absE)
    then have "resolve_loop es path (abs_path (ds @ [d])) (join_with ''/'' rs) = abs_path (qs @ rs)"
      using Some snoc.prems by (simp add: Join_abs)
    then show ?thesis using q snoc.prems by auto
  qed
qed

lemma resolveExistingPrefix_clean:
  assumes "es_ok es" "clean_abs path"
  shows "clean_abs (resolveExistingPrefix es path)"
proof -
  obtain cs where cs: "path = abs_path cs" "list_all comp_ok cs"
    using assms(2) by (rule clean_absE)
  then show ?thesis
    using resolve_loop_clean [OF assms, of cs "[]"] by (simp add: resolveExistingPrefix_def)
qed

lemma resolve_loop_longest:
  assumes "list_all comp_ok (ds @ rs @ us)" "es (abs_path ds) = Some (abs_path qs)"
    "list_all comp_ok qs" "\<And>k. 0 < k \<Longrightarrow> k \<le> length rs \<Longrightarrow> es (abs_path (ds @ take k rs)) = None"
  shows "resolve_loop es path (abs_path (ds @ rs)) (join_with ''/'' us) = abs_path (qs @ rs @ us)"
  using assms
proof (induction rs arbitrary: us rule: rev_induct)
  case Nil
  then show ?case by (simp add: Join_abs)
next
  case (snoc r rs)
  have "es (abs_path ((ds @ rs) @ [r])) = None"
    using snoc.prems(4) [of "Suc (length rs)"] by simp
  then have "resolve_loop es path (abs_path ((ds @ rs) @ [r])) (join_with ''/'' us) =
             resolve_loop es path (abs_path (ds @ rs)) (join_with ''/'' (r # us))"
    using snoc.prems(1) by (intro resolve_loop_up) simp_all
  also have "\<dots> = abs_path (qs @ rs @ r # us)"
  proof (rule snoc.IH)
    show "es (abs_path (ds @ take k rs)) = None" if "0 < k" "k \<le> length rs" for k
      using snoc.prems(4) [of k] that by simp
  qed (use snoc.prems in simp_all)
  finally show ?case by simp
qed

section \<open>Well-formed tables confine what they admit\<close>

definition rule_wf :: "pathRule \<Rightarrow> bool" where
  "rule_wf r =
     (case kind r of
        dirPrefix \<Rightarrow> HasSuffix (pattern r) ''/'' \<and>
          (let d = TrimSuffix (pattern r) ''/'' in IsAbs d \<and> Clean d = d)
      | exactFile \<Rightarrow> IsAbs (pattern r) \<and> Clean (pattern r) = pattern r
      | filenamePrefix \<Rightarrow> IsAbs (pattern r) \<and> Clean (pattern r) = pattern r \<and> pattern r \<noteq> ''/'')"

lemma TrimSuffix_append [simp]: "TrimSuffix (s @ p) p = s"
  by (simp add: TrimSuffix_def)

lemma rule_wf_cases:
  assumes "rule_wf r"
  obtains (Dir) ds where "kind r = dirPrefix" "pattern r = abs_path ds @ ''/''" "list_all comp_ok ds"
    | (File) ds where "kind r = exactFile" "pattern r = abs_path ds" "list_all comp_ok ds"
    | (Name) ds f where "kind r = filenamePrefix" "pattern r = abs_path (ds @ [f])"
        "list_all comp_ok (ds @ [f])"
proof (cases "kind r")
  case dirPrefix
  with assms obtain d where "pattern r = d @ ''/''" "clean_abs d"
    by (auto simp: rule_wf_def HasSuffix_iff clean_abs_iff Let_def)
  then show ?thesis using dirPrefix that(1) by (auto elim: clean_absE)
next
  case exactFile
  with assms have "clean_abs (pattern r)" by (simp add: rule_wf_def clean_abs_iff)
  then show ?thesis using exactFile that(2) by (auto elim: clean_absE)
next
  case filenamePrefix
  with assms have "clean_abs (pattern r)" "pattern r \<noteq> ''/''" by (simp_all add: rule_wf_def clean_abs_iff)
  then obtain cs where cs: "pattern r = abs_path cs" "list_all comp_ok cs"
    by (auto elim: clean_absE)
  with \<open>pattern r \<noteq> ''/''\<close> have "cs \<noteq> []" by (auto simp: abs_path_def)
  then obtain ds f where "cs = ds @ [f]" by (metis rev_exhaust)
  then show ?thesis using cs filenamePrefix that(3) by simp
qed

lemma abs_path_eq_root: "list_all comp_ok cs \<Longrightarrow> abs_path cs = ''/'' \<longleftrightarrow> cs = []"
  using abs_path_inj [of cs "[]"] by (simp add: abs_path_def)

lemma rule_wf_dirI:
  "kind r = dirPrefix \<Longrightarrow> pattern r = abs_path ds @ ''/'' \<Longrightarrow> list_all comp_ok ds \<Longrightarrow> rule_wf r"
  by (simp add: rule_wf_def Clean_abs_path)

lemma rule_wf_fileI:
  "kind r = exactFile \<Longrightarrow> pattern r = abs_path ds \<Longrightarrow> list_all comp_ok ds \<Longrightarrow> rule_wf r"
  by (simp add: rule_wf_def Clean_abs_path)

lemma rule_wf_nameI:
  "kind r = filenamePrefix \<Longrightarrow> pattern r = abs_path (ds @ [f]) \<Longrightarrow> list_all comp_ok (ds @ [f]) \<Longrightarrow>
   rule_wf r"
  by (simp add: rule_wf_def Clean_abs_path abs_path_eq_root)

lemmas rule_wf_intros = rule_wf_dirI rule_wf_fileI rule_wf_nameI

lemma resolveRule_wf:
  assumes "es_ok es" "rule_wf r"
  shows "rule_wf (resolveRule es r)"
  using assms(2)
proof (cases rule: rule_wf_cases)
  case (Dir ds)
  then obtain qs where "resolveExistingPrefix es (abs_path ds) = abs_path qs" "list_all comp_ok qs"
    using resolveExistingPrefix_clean [OF assms(1) clean_absI] by (metis clean_absE)
  with Dir show ?thesis by (intro rule_wf_dirI [of _ qs]) (simp_all add: resolveRule_def)
next
  case (File ds)
  then obtain qs where "resolveExistingPrefix es (abs_path ds) = abs_path qs" "list_all comp_ok qs"
    using resolveExistingPrefix_clean [OF assms(1) clean_absI] by (metis clean_absE)
  with File show ?thesis by (intro rule_wf_fileI [of _ qs]) (simp_all add: resolveRule_def)
next
  case (Name ds f)
  then have ds: "list_all comp_ok ds" "list_all comp_ok [f]" by simp_all
  then obtain qs where qs: "resolveExistingPrefix es (abs_path ds) = abs_path qs" "list_all comp_ok qs"
    using resolveExistingPrefix_clean [OF assms(1) clean_absI] by (metis clean_absE)
  have "Join [abs_path qs, f] = abs_path (qs @ [f])"
    using Join_abs [OF qs(2) ds(2)] by simp
  with Name ds qs show ?thesis
    by (intro rule_wf_nameI [of _ qs f])
       (simp_all add: resolveRule_def Dir_abs_path Base_abs_path)
qed

lemma resolveRulePatterns_wf:
  "es_ok es \<Longrightarrow> list_all rule_wf rules \<Longrightarrow> list_all rule_wf (resolveRulePatterns es rules)"
  by (auto simp: resolveRulePatterns_def list_all_iff resolveRule_wf)

lemma abs_path_prefix_name:
  assumes cs: "list_all comp_ok cs" and ds: "list_all comp_ok (ds @ [f])"
    and pre: "HasPrefix (abs_path cs) (abs_path (ds @ [f]))"
  shows "\<exists>es. cs = ds @ es"
proof -
  obtain p where p: "abs_path (ds @ [f]) = p @ CHR ''/'' # f" "path_comps p = path_comps (abs_path ds)"
    by (rule abs_path_snoc_split)
  from pre obtain t where "abs_path cs = p @ CHR ''/'' # (f @ t)"
    by (auto simp: HasPrefix_iff p)
  then have "path_comps (abs_path cs) = path_comps p @ path_comps (f @ t)"
    by (simp add: path_comps_append_slash)
  with cs ds p(2) show ?thesis by (auto simp: path_comps_abs_path)
qed

lemma admits_confined:
  assumes "rule_wf r" "list_all comp_ok cs" "admits r (abs_path cs)"
  shows "\<exists>ds es. rule_base r = abs_path ds \<and> cs = ds @ es"
  using assms(1)
proof (cases rule: rule_wf_cases)
  case (Dir ds)
  then have "\<exists>es. es \<noteq> [] \<and> cs = ds @ es"
    using assms by (intro abs_path_prefix_dir) (simp_all add: admits_def)
  with Dir show ?thesis by (auto simp: rule_base_def)
next
  case (File ds)
  with assms have "cs = ds" by (simp add: admits_def abs_path_inj)
  with File show ?thesis
    by (cases ds rule: rev_cases) (auto simp: rule_base_def Dir_root Dir_abs_path)
next
  case (Name ds f)
  then have "\<exists>es. cs = ds @ es"
    using assms by (intro abs_path_prefix_name) (simp_all add: admits_def)
  with Name show ?thesis by (auto simp: rule_base_def Dir_abs_path)
qed

text \<open>The place an \<open>os.Root\<close> operation acts on: a directory and a path relative to it with
  no ".." element.\<close>

definition beneath :: "string \<Rightarrow> string \<Rightarrow> string \<Rightarrow> bool" where
  "beneath root rel target =
     (\<exists>ds es. list_all comp_ok (ds @ es) \<and> root = abs_path ds \<and> target = abs_path (ds @ es) \<and>
        rel = (if es = [] then ''.'' else join_with ''/'' es))"

locale rule_table =
  fixes rules :: "pathRule list"
  assumes rules_wf: "list_all rule_wf rules"
begin

lemma ruleMatch_confined:
  assumes "es_ok es0" "es_ok es"
    and "ruleMatch es path (resolveRulePatterns es0 rules) = Some (resolved, base)"
  shows "resolved = resolveExistingPrefix es path \<and>
         (\<exists>r \<in> set rules. base = rule_base (resolveRule es0 r) \<and> admits (resolveRule es0 r) resolved) \<and>
         (\<exists>rel. Rel base resolved = Some rel \<and> beneath base rel resolved)"
proof -
  let ?rs = "resolveRulePatterns es0 rules"
  from assms(3) obtain r where path: "clean_abs path"
    and res: "resolved = resolveExistingPrefix es path"
    and r: "find (\<lambda>r. admits r resolved) ?rs = Some r" "base = rule_base r"
    by (auto simp: ruleMatch_def clean_abs_iff Let_def split: if_splits option.splits)
  from r(1) have adm: "r \<in> set ?rs" "admits r resolved"
    by (auto simp: find_Some_iff)
  have wf: "rule_wf r"
    using resolveRulePatterns_wf [OF assms(1) rules_wf] adm(1) by (auto simp: list_all_iff)
  obtain cs where cs: "resolved = abs_path cs" "list_all comp_ok cs"
    using resolveExistingPrefix_clean [OF assms(2) path] res by (auto elim: clean_absE)
  obtain ds es' where d: "rule_base r = abs_path ds" "cs = ds @ es'"
    using admits_confined [OF wf cs(2)] adm(2) cs(1) by auto
  have "Rel base resolved = Some (if es' = [] then ''.'' else join_with ''/'' es')"
    using cs d r(2) by (simp add: Rel_abs_path)
  moreover have "beneath base (if es' = [] then ''.'' else join_with ''/'' es') resolved"
    unfolding beneath_def using cs d r(2) by auto
  ultimately have "\<exists>rel. Rel base resolved = Some rel \<and> beneath base rel resolved" by blast
  with adm r(2) res show ?thesis by (auto simp: resolveRulePatterns_def)
qed

lemma openBeneath_confined:
  assumes "es_ok es0" "es_ok (re_symlinks env)"
    and "openBeneath env path (resolveRulePatterns es0 rules) refusal = Inr (root, rel)"
  shows "beneath root rel (resolveExistingPrefix (re_symlinks env) path) \<and>
         (\<exists>r \<in> set rules. root = rule_base (resolveRule es0 r) \<and>
            admits (resolveRule es0 r) (resolveExistingPrefix (re_symlinks env) path))"
proof -
  from assms(3) obtain resolved where
    m: "ruleMatch (re_symlinks env) path (resolveRulePatterns es0 rules) = Some (resolved, root)"
    and rel: "Rel root resolved = Some rel"
    by (auto simp: openBeneath_def split: option.splits if_splits prod.splits)
  from ruleMatch_confined [OF assms(1,2) m] rel show ?thesis by auto
qed

lemma openBeneath_never_rel_error:
  assumes "es_ok es0" "es_ok (re_symlinks env)"
  shows "openBeneath env path (resolveRulePatterns es0 rules) refusal \<noteq> Inl RelFailed"
proof (cases "ruleMatch (re_symlinks env) path (resolveRulePatterns es0 rules)")
  case None
  then show ?thesis by (simp add: openBeneath_def)
next
  case (Some rb)
  then obtain resolved base
    where m: "ruleMatch (re_symlinks env) path (resolveRulePatterns es0 rules) = Some (resolved, base)"
    by (cases rb) auto
  with ruleMatch_confined [OF assms m] show ?thesis by (auto simp: openBeneath_def split: if_splits)
qed

end

interpretation write_table: rule_table allowedWriteRules
  by unfold_locales code_simp

interpretation read_table: rule_table allowedReadRules
  by unfold_locales code_simp

end
