(* ===== verification/AgentOps.thy ===== *)
theory AgentOps
  imports AgentRules "HOL-Library.Word"
begin

text \<open>
  The operations of the privileged agent: the argument rules of
  \<open>internal/agent/argrules.go\<close> and the command table, mode checks and handlers of
  \<open>internal/agent/operations.go\<close>.

  A handler takes the decoded parameters (\<open>None\<close> when \<open>json.Unmarshal\<close> fails), what the
  operating system answers (a record of parameters), and returns the effects it asked the
  kernel for, in order, together with its result. \<open>exec.run\<close> also threads the cache of
  resolved commands. The tables \<open>wr\<close> and \<open>rr\<close> are the write and read rules as \<open>init\<close>
  leaves them, after symlink resolution at start-up.
\<close>

unbundle bit_operations_syntax

section \<open>Argument rules\<close>

definition installedBinary :: string where
  "installedBinary = ''/usr/local/bin/lankeeper''"

definition preUpdateSnapshotPrefix :: string where
  "preUpdateSnapshotPrefix = ''/var/backups/lankeeper-pre-update-''"

definition UpdateGuardUnit :: string where
  "UpdateGuardUnit = ''lankeeper-update-guard''"

definition UpdateGuardBinary :: string where
  "UpdateGuardBinary = ''/usr/local/bin/lankeeper.bak''"

definition backupSourceDirs :: "string list" where
  "backupSourceDirs = [''/etc/lankeeper'', ''/etc/unbound'', ''/etc/openvpn'']"

definition serviceUnits :: "string \<Rightarrow> string list" where
  "serviceUnits verb =
     (if verb = ''start'' then [''openvpn@server'']
      else if verb = ''stop'' then
        [''openvpn@server'', ''dnscrypt-proxy'', ''lankeeper-dhcp6c.service'', UpdateGuardUnit @ ''.timer'']
      else if verb = ''restart'' then
        [''lankeeper.target'', ''chrony'', ''rsyslog'', ''dnscrypt-proxy'', ''lankeeper-dhcp6c.service'']
      else if verb = ''reload-or-restart'' then [''dnsmasq'', ''lankeeper-dhcp6c.service'']
      else if verb = ''enable'' then [''dnscrypt-proxy'']
      else if verb = ''enable --now'' then [''lankeeper-dhcp6c.service'', ''smbd'', ''nmbd'']
      else if verb = ''disable --now'' then [''smbd'', ''nmbd'']
      else [])"

definition cleanAbs :: "string \<Rightarrow> string option" where
  "cleanAbs p = (if \<not> IsAbs p \<or> ''..'' \<in> set (split_on (CHR ''/'') p) then None else Some (Clean p))"

definition writablePath :: "symlinks \<Rightarrow> pathRule list \<Rightarrow> string \<Rightarrow> bool" where
  "writablePath es wr p =
     (case cleanAbs p of
        None \<Rightarrow> False
      | Some clean \<Rightarrow>
          if clean = installedBinary \<or> clean = UpdateGuardBinary then True
          else if HasPrefix clean preUpdateSnapshotPrefix then True
          else checkPathRules es clean wr)"

definition readablePath :: "symlinks \<Rightarrow> pathRule list \<Rightarrow> string \<Rightarrow> bool" where
  "readablePath es rr p =
     (case cleanAbs p of
        None \<Rightarrow> False
      | Some clean \<Rightarrow>
          if clean = installedBinary \<or> clean = UpdateGuardBinary then True
          else checkPathRules es clean rr)"

type_synonym refusal = string

definition validateCpArgs ::
  "symlinks \<Rightarrow> pathRule list \<Rightarrow> pathRule list \<Rightarrow> string list \<Rightarrow> refusal check" where
  "validateCpArgs es wr rr args =
     (if length args \<noteq> 3 \<or> (args ! 0 \<noteq> ''-f'' \<and> args ! 0 \<noteq> ''--'')
      then Inl ''cp: expected -f or -- and two paths''
      else if \<not> readablePath es rr (args ! 1) \<or> \<not> writablePath es wr (args ! 2)
      then Inl ''cp: outside the permitted paths''
      else ok)"

definition validateRmArgs :: "symlinks \<Rightarrow> pathRule list \<Rightarrow> string list \<Rightarrow> refusal check" where
  "validateRmArgs es wr args =
     (if length args < 2 \<or> args ! 0 \<noteq> ''-f'' then Inl ''rm: expected -f and at least one path''
      else let paths = (if tl args ! 0 = ''--'' then tl (tl args) else tl args) in
           if paths = [] then Inl ''rm: no path given''
           else check_all (\<lambda>p. if \<not> writablePath es wr p then Inl ''rm: outside the permitted paths'' else ok)
                  paths)"

definition validateChmodArgs :: "symlinks \<Rightarrow> pathRule list \<Rightarrow> string list \<Rightarrow> refusal check" where
  "validateChmodArgs es wr args =
     (if length args \<noteq> 2 then Inl ''chmod: expected a mode and one path''
      else if (args ! 0 = ''600'' \<or> args ! 0 = ''640'') \<and> writablePath es wr (args ! 1) then ok
      else if args ! 0 = ''+x'' \<and> args ! 1 = installedBinary then ok
      else Inl ''chmod: not permitted'')"

definition validateChpasswdArgs :: "string list \<Rightarrow> refusal check" where
  "validateChpasswdArgs args = (if args \<noteq> [] then Inl ''chpasswd: no arguments are permitted'' else ok)"

definition validateChpasswdStdin :: "string \<Rightarrow> refusal check" where
  "validateChpasswdStdin stdin =
     (let line = TrimSuffix stdin ''\<newline>''; pw = TrimPrefix line ''root:'' in
      if \<not> HasSuffix stdin ''\<newline>'' \<or> \<not> HasPrefix line ''root:'' \<or> pw = [] \<or> contains_control pw
      then Inl ''chpasswd: only one root:<password> line is permitted'' else ok)"

definition nameRunes :: string where
  "nameRunes = ''abcdefghijklmnopqrstuvwxyzABCDEFGHIJKLMNOPQRSTUVWXYZ0123456789.-:*''"

definition notNameRune :: "char \<Rightarrow> bool" where
  "notNameRune c = (c \<notin> set nameRunes)"

definition validateMkcertArgs :: "string list \<Rightarrow> refusal check" where
  "validateMkcertArgs args =
     (if length args < 5 \<or> args ! 0 \<noteq> ''-cert-file'' \<or> args ! 1 \<noteq> MkcertCARoot @ ''/staged.crt'' \<or>
         args ! 2 \<noteq> ''-key-file'' \<or> args ! 3 \<noteq> MkcertCARoot @ ''/staged.key''
      then Inl ''mkcert: only the staged pair is permitted''
      else check_all
             (\<lambda>name. if name = [] \<or> HasPrefix name ''-'' \<or> list_ex notNameRune name
                     then Inl ''mkcert: not a hostname or address'' else ok)
             (drop 4 args))"

definition validateSystemctlArgs :: "string list \<Rightarrow> refusal check" where
  "validateSystemctlArgs args =
     (if args = [''reboot''] then ok
      else if length args \<ge> 2 \<and> last args \<in> set (serviceUnits (join_with '' '' (butlast args))) then ok
      else Inl ''systemctl: not permitted'')"

definition mediaPath :: "string \<Rightarrow> bool" where
  "mediaPath p =
     (case cleanAbs p of None \<Rightarrow> False
      | Some clean \<Rightarrow> HasPrefix clean ''/mnt/'' \<or> HasPrefix clean ''/srv/'')"

definition validateMkdirArgs :: "string list \<Rightarrow> refusal check" where
  "validateMkdirArgs args =
     (if length args \<noteq> 2 \<or> args ! 0 \<noteq> ''-p'' \<or> \<not> mediaPath (args ! 1)
      then Inl ''mkdir: only -p below /mnt or /srv is permitted'' else ok)"

definition validateMountArgs :: "string list \<Rightarrow> refusal check" where
  "validateMountArgs args =
     (if length args \<noteq> 2 \<or> \<not> mediaPath (args ! 1)
      then Inl ''mount: only a device onto /mnt or /srv is permitted''
      else case cleanAbs (args ! 0) of
             None \<Rightarrow> Inl ''mount: not a device''
           | Some dev \<Rightarrow> if \<not> HasPrefix dev ''/dev/'' then Inl ''mount: not a device'' else ok)"

fun tar_sources :: "string list \<Rightarrow> refusal check" where
  "tar_sources (flag # parent # name # rest) =
     (if flag \<noteq> ''-C'' \<or> Join [parent, name] \<notin> set backupSourceDirs
      then Inl ''tar: not a backup source directory'' else tar_sources rest)"
| "tar_sources _ = ok"

definition validateTarArgs :: "symlinks \<Rightarrow> pathRule list \<Rightarrow> string list \<Rightarrow> refusal check" where
  "validateTarArgs es wr args =
     (if length args < 5 \<or> args ! 0 \<noteq> ''czf'' \<or> (length args - 2) mod 3 \<noteq> 0
      then Inl ''tar: only the backup export shape is permitted''
      else if \<not> writablePath es wr (args ! 1) then Inl ''tar: outside the permitted paths''
      else tar_sources (drop 2 args))"

definition validateUpdateGuardArgs :: "string list \<Rightarrow> refusal check" where
  "validateUpdateGuardArgs args =
     (if length args \<noteq> 4 \<or> args ! 0 \<noteq> ''--unit='' @ UpdateGuardUnit \<or> args ! 2 \<noteq> UpdateGuardBinary \<or>
         args ! 3 \<noteq> ''update-guard''
      then Inl ''systemd-run: only the OTA update guard may be started''
      else case CutPrefix (args ! 1) ''--on-active='' of
             None \<Rightarrow> Inl ''systemd-run: --on-active must be a number of seconds''
           | Some secs \<Rightarrow>
               if secs = [] \<or> \<not> list_all is_digit secs
               then Inl ''systemd-run: --on-active must be a number of seconds'' else ok)"

section \<open>The command table\<close>

definition allowedCommands :: "string list" where
  "allowedCommands =
    [''nft'', ''ip'', ''tc'', ''sysctl'', ''wg'', ''wg-quick'', ''pppd'', ''pppoe-server'',
     ''openvpn'', ''systemctl'', ''hostnamectl'', ''timedatectl'',
     ''unbound-control'', ''chronyc'', ''smbcontrol'',
     ''mdadm'', ''mkfs.ext4'', ''mount'', ''lsblk'', ''findmnt'',
     ''smartctl'', ''hdparm'', ''tar'',
     ''dig'', ''ping'', ''pgrep'', ''pkill'', ''killall'',
     ''dhclient'', ''df'',
     ''cp'', ''chmod'', ''rm'', ''kill'',
     ''chpasswd'', ''localectl'', ''loadkeys'',
     ''easyrsa'', ''mkdir'', ''tail'', ''update-grub'',
     ''dhcp6c'', ''dhcp6ctl'', ''mkcert'', ''systemd-run'']"

definition trustedBinDirs :: "string list" where
  "trustedBinDirs = [''/usr/sbin'', ''/usr/bin'', ''/sbin'', ''/bin'']"

definition commandOverrides :: "string \<Rightarrow> string option" where
  "commandOverrides name = (if name = ''easyrsa'' then Some ''/usr/share/easy-rsa/easyrsa'' else None)"

record file_info =
  fi_is_dir :: bool
  fi_perm :: "32 word"

type_synonym cmd_cache = "string \<rightharpoonup> string"

datatype op_error =
    InvalidParams
  | CommandNotAllowed string
  | CommandNotFound string
  | ArgsRefused string
  | ModeOutside "32 word"
  | ModeWritable "32 word"
  | ModeExecutable "32 word" string
  | OpenError open_error
  | MkdirParentFailed
  | WriteFailed
  | ReadFailed
  | MkdirFailed
  | ExecFailed string string

definition command_candidates :: "string \<Rightarrow> string list" where
  "command_candidates name =
     (case commandOverrides name of
        Some p \<Rightarrow> [p]
      | None \<Rightarrow> map (\<lambda>dir. Join [dir, name]) trustedBinDirs)"

definition runnable :: "(string \<Rightarrow> file_info option) \<Rightarrow> string \<Rightarrow> bool" where
  "runnable stat p =
     (case stat p of None \<Rightarrow> False | Some info \<Rightarrow> \<not> fi_is_dir info \<and> fi_perm info AND 0x49 \<noteq> 0)"

definition resolveAllowedCommand ::
  "(string \<Rightarrow> file_info option) \<Rightarrow> cmd_cache \<Rightarrow> string \<Rightarrow> (op_error + string) \<times> cmd_cache" where
  "resolveAllowedCommand stat resolvedCmds name =
     (if name \<notin> set allowedCommands then (Inl (CommandNotAllowed name), resolvedCmds)
      else case resolvedCmds name of
             Some p \<Rightarrow> (Inr p, resolvedCmds)
           | None \<Rightarrow>
               (case find (runnable stat) (command_candidates name) of
                  Some p \<Rightarrow> (Inr p, resolvedCmds(name \<mapsto> p))
                | None \<Rightarrow> (Inl (CommandNotFound name), resolvedCmds)))"

record ExecParams =
  Cmd :: string
  Args :: "string list"
  Stdin :: string

definition argValidators ::
  "symlinks \<Rightarrow> pathRule list \<Rightarrow> pathRule list \<Rightarrow> string \<Rightarrow> (string list \<Rightarrow> refusal check) option" where
  "argValidators es wr rr name =
     (if name = ''systemd-run'' then Some validateUpdateGuardArgs
      else if name = ''cp'' then Some (validateCpArgs es wr rr)
      else if name = ''rm'' then Some (validateRmArgs es wr)
      else if name = ''chmod'' then Some (validateChmodArgs es wr)
      else if name = ''chpasswd'' then Some validateChpasswdArgs
      else if name = ''systemctl'' then Some validateSystemctlArgs
      else if name = ''mkdir'' then Some validateMkdirArgs
      else if name = ''mount'' then Some validateMountArgs
      else if name = ''tar'' then Some (validateTarArgs es wr)
      else if name = ''mkcert'' then Some validateMkcertArgs
      else None)"

definition stdinValidators :: "string \<Rightarrow> (string \<Rightarrow> refusal check) option" where
  "stdinValidators name = (if name = ''chpasswd'' then Some validateChpasswdStdin else None)"

definition validateInvocation ::
  "symlinks \<Rightarrow> pathRule list \<Rightarrow> pathRule list \<Rightarrow> string \<Rightarrow> ExecParams \<Rightarrow> refusal check" where
  "validateInvocation es wr rr baseName params =
     bindr (case argValidators es wr rr baseName of None \<Rightarrow> ok | Some validate \<Rightarrow> validate (Args params))
       (\<lambda>_. case stdinValidators baseName of None \<Rightarrow> ok | Some validate \<Rightarrow> validate (Stdin params))"

definition commandEnv :: "string \<Rightarrow> string list" where
  "commandEnv cmd =
     (if cmd = ''easyrsa'' then [''EASYRSA_PKI=/etc/openvpn/pki'']
      else if cmd = ''mkcert'' then [''CAROOT='' @ MkcertCARoot]
      else [])"

definition envFor :: "ExecParams \<Rightarrow> string list" where
  "envFor params = commandEnv (Base (Cmd params))"

section \<open>Handlers\<close>

text \<open>An effect is one request to the kernel. \<open>RunCommand path argv stdin extra timeout\<close> is
  \<open>cmd.Run\<close>; the timeout is the caller's deadline, or 30 seconds (in nanoseconds) when the
  request carries none.\<close>

datatype effect =
    MakeBase string
  | RootMkdirAll string string "32 word"
  | RootWriteFile string string string "32 word"
  | RootReadFile string string
  | RunCommand string "string list" string "string list" int

record ExecResult =
  Stdout :: string
  Stderr :: string
  ExitCode :: int

record exec_env =
  ee_symlinks :: symlinks
  ee_stat :: "string \<Rightarrow> file_info option"
  ee_run :: "string \<Rightarrow> string list \<Rightarrow> string \<Rightarrow> string list \<Rightarrow> ExecResult \<times> bool"

definition defaultExecTimeout :: int where
  "defaultExecTimeout = 30 * 1000000000"

definition opExecRun ::
  "exec_env \<Rightarrow> pathRule list \<Rightarrow> pathRule list \<Rightarrow> int option \<Rightarrow> cmd_cache \<Rightarrow> ExecParams option \<Rightarrow>
   effect list \<times> (op_error + ExecResult) \<times> cmd_cache" where
  "opExecRun env wr rr deadline cache raw =
     (case raw of
        None \<Rightarrow> ([], Inl InvalidParams, cache)
      | Some params \<Rightarrow>
          let baseName = Base (Cmd params) in
          (case resolveAllowedCommand (ee_stat env) cache baseName of
             (Inl e, cache') \<Rightarrow> ([], Inl e, cache')
           | (Inr cmdPath, cache') \<Rightarrow>
               (case validateInvocation (ee_symlinks env) wr rr baseName params of
                  Inl e \<Rightarrow> ([], Inl (ArgsRefused e), cache')
                | Inr _ \<Rightarrow>
                    let timeout = (case deadline of Some d \<Rightarrow> d | None \<Rightarrow> defaultExecTimeout);
                        extra = envFor params;
                        (result, failed) = ee_run env cmdPath (Args params) (Stdin params) extra
                    in ([RunCommand cmdPath (Args params) (Stdin params) extra timeout],
                        (if failed then Inl (ExecFailed baseName (Stderr result)) else Inr result),
                        cache'))))"

record FileContent =
  Content :: string
  ContentBytes :: "string option"

definition NewFileContent :: "string \<Rightarrow> FileContent" where
  "NewFileContent data =
     (if utf8_valid data then \<lparr>Content = data, ContentBytes = None\<rparr>
      else \<lparr>Content = [], ContentBytes = Some data\<rparr>)"

definition Bytes :: "FileContent \<Rightarrow> string" where
  "Bytes c = (case ContentBytes c of Some b \<Rightarrow> b | None \<Rightarrow> Content c)"

record FileWriteParams =
  Path :: string
  Body :: FileContent
  Mode :: int
  MkdirP :: bool

definition FileMode :: "int \<Rightarrow> 32 word" where
  "FileMode m = word_of_int m"

definition validateFileExec :: "string \<Rightarrow> 32 word \<Rightarrow> op_error check" where
  "validateFileExec path mode =
     (if mode AND 0x49 \<noteq> 0 \<and> path \<noteq> dhcp6cScript then Inl (ModeExecutable mode path) else ok)"

definition validateFileMode :: "32 word \<Rightarrow> op_error check" where
  "validateFileMode mode =
     (if mode AND NOT 0x1FF \<noteq> 0 then Inl (ModeOutside mode)
      else if mode AND 0x12 \<noteq> 0 then Inl (ModeWritable mode)
      else ok)"

record file_env = root_env +
  fe_mkdir :: "string \<Rightarrow> string \<Rightarrow> bool"
  fe_write :: "string \<Rightarrow> string \<Rightarrow> bool"
  fe_read :: "string \<Rightarrow> string \<Rightarrow> string option"

text \<open>\<open>openBeneath\<close> creates the base directory once the path is admitted, whatever happens
  after.\<close>

fun open_effects :: "open_error + string \<times> string \<Rightarrow> effect list" where
  "open_effects (Inl (CreateFailed b)) = [MakeBase b]"
| "open_effects (Inl (OpenFailed b)) = [MakeBase b]"
| "open_effects (Inl _) = []"
| "open_effects (Inr (b, _)) = [MakeBase b]"

definition opFileWrite ::
  "file_env \<Rightarrow> pathRule list \<Rightarrow> FileWriteParams option \<Rightarrow> effect list \<times> op_error check" where
  "opFileWrite env wr raw =
     (case raw of
        None \<Rightarrow> ([], Inl InvalidParams)
      | Some params \<Rightarrow>
          let mode = (if FileMode (Mode params) = 0 then 0x1A4 else FileMode (Mode params)) in
          (case bindr (validateFileMode mode) (\<lambda>_. validateFileExec (Path params) mode) of
             Inl e \<Rightarrow> ([], Inl e)
           | Inr _ \<Rightarrow>
               let opened = openBeneath env (Path params) wr ''write not allowed to path'' in
               (case opened of
                  Inl e \<Rightarrow> (open_effects opened, Inl (OpenError e))
                | Inr (root, rel) \<Rightarrow>
                    let mk = MkdirP params \<and> Dir rel \<noteq> ''.'';
                        mkEff = (if mk then [RootMkdirAll root (Dir rel) 0x1ED] else []) in
                    if mk \<and> \<not> fe_mkdir env root (Dir rel)
                    then (open_effects opened @ mkEff, Inl MkdirParentFailed)
                    else (open_effects opened @ mkEff @ [RootWriteFile root rel (Bytes (Body params)) mode],
                          if fe_write env root rel then ok else Inl WriteFailed))))"

definition opFileRead ::
  "file_env \<Rightarrow> pathRule list \<Rightarrow> string option \<Rightarrow> effect list \<times> (op_error + FileContent)" where
  "opFileRead env rr raw =
     (case raw of
        None \<Rightarrow> ([], Inl InvalidParams)
      | Some path \<Rightarrow>
          let opened = openBeneath env path rr ''read not allowed for path'' in
          (case opened of
             Inl e \<Rightarrow> (open_effects opened, Inl (OpenError e))
           | Inr (root, rel) \<Rightarrow>
               (open_effects opened @ [RootReadFile root rel],
                case fe_read env root rel of
                  None \<Rightarrow> Inl ReadFailed | Some data \<Rightarrow> Inr (NewFileContent data))))"

definition opFileMkdir ::
  "file_env \<Rightarrow> pathRule list \<Rightarrow> (string \<times> int) option \<Rightarrow> effect list \<times> op_error check" where
  "opFileMkdir env wr raw =
     (case raw of
        None \<Rightarrow> ([], Inl InvalidParams)
      | Some (path, m) \<Rightarrow>
          let mode = (if FileMode m = 0 then 0x1ED else FileMode m) in
          (case validateFileMode mode of
             Inl e \<Rightarrow> ([], Inl e)
           | Inr _ \<Rightarrow>
               let opened = openBeneath env path wr ''mkdir not allowed for path'' in
               (case opened of
                  Inl e \<Rightarrow> (open_effects opened, Inl (OpenError e))
                | Inr (root, rel) \<Rightarrow>
                    (open_effects opened @ [RootMkdirAll root rel mode],
                     if fe_mkdir env root rel then ok else Inl MkdirFailed))))"

section \<open>The caller's side of the file operations\<close>

text \<open>\<open>internal/netutil/exec.go\<close>: how \<open>WriteFile\<close> fills the parameters in agent mode, and
  how \<open>ReadFile\<close> takes the reply apart. \<open>wire\<close> is the trip of the two content fields
  through \<open>encoding/json\<close>: invalid UTF-8 in the string is replaced, an empty byte slice is
  left out (\<open>omitempty\<close>) and arrives as nil, and base64 carries any other byte slice.\<close>

definition wire :: "FileContent \<Rightarrow> FileContent" where
  "wire c =
     \<lparr>Content = json_string (Content c),
      ContentBytes = (case ContentBytes c of Some [] \<Rightarrow> None | b \<Rightarrow> b)\<rparr>"

definition wire_params :: "FileWriteParams \<Rightarrow> FileWriteParams" where
  "wire_params p = p\<lparr>Path := json_string (Path p), Body := wire (Body p)\<rparr>"

definition WriteFile_params :: "string \<Rightarrow> string \<Rightarrow> 32 word \<Rightarrow> FileWriteParams" where
  "WriteFile_params path content mode =
     \<lparr>Path = path,
      Body = (if utf8_valid content then \<lparr>Content = content, ContentBytes = None\<rparr>
              else \<lparr>Content = [], ContentBytes = Some content\<rparr>),
      Mode = uint mode, MkdirP = True\<rparr>"

definition ReadFile_reply :: "FileContent \<Rightarrow> string" where
  "ReadFile_reply result =
     (case ContentBytes result of Some b \<Rightarrow> b | None \<Rightarrow> Content result)"

end
