(* ===== verification/AgentSafety.thy ===== *)
theory AgentSafety
  imports AgentOps
begin

text \<open>
  What the agent's operations guarantee to the machine they run on as root, whatever the
  unprivileged caller sends: the files an operation touches lie beneath the directory of a
  rule, modes are never writable by others, commands run only from the trusted
  directories with checked arguments, and file contents cross the wire unaltered.
\<close>

section \<open>Modes, bit by bit\<close>

definition mode_safe :: "32 word \<Rightarrow> bool" where
  "mode_safe m = (\<forall>n. bit m n \<longrightarrow> n < 9 \<and> n \<noteq> 1 \<and> n \<noteq> 4)"

definition mode_exec :: "32 word \<Rightarrow> bool" where
  "mode_exec m = (bit m 0 \<or> bit m 3 \<or> bit m 6)"

lemma and_0x12_eq_0_iff: "m AND 0x12 = 0 \<longleftrightarrow> \<not> bit m 1 \<and> \<not> bit m (4 :: nat)" for m :: "32 word"
proof -
  have "(0x12 :: 32 word) = 2 ^ 1 OR 2 ^ 4" by simp
  then have "m AND 0x12 = (m AND 2 ^ 1) OR (m AND 2 ^ 4)" by (simp only: bit.conj_disj_distrib)
  then show ?thesis by (simp only: or_eq_0_iff and_exp_eq_0_iff_not_bit)
qed

lemma and_0x49_eq_0_iff: "m AND 0x49 = 0 \<longleftrightarrow> \<not> mode_exec m" for m :: "32 word"
proof -
  have "(0x49 :: 32 word) = 2 ^ 0 OR (2 ^ 3 OR 2 ^ 6)" by simp
  then have "m AND 0x49 = (m AND 2 ^ 0) OR ((m AND 2 ^ 3) OR (m AND 2 ^ 6))"
    by (simp only: bit.conj_disj_distrib)
  then show ?thesis by (simp only: or_eq_0_iff and_exp_eq_0_iff_not_bit mode_exec_def) blast
qed

lemma and_not_mask_eq_0_iff: "m AND NOT (mask k) = 0 \<longleftrightarrow> (\<forall>n. bit m n \<longrightarrow> n < k)" for m :: "32 word"
proof
  assume "m AND NOT (mask k) = 0"
  then have "\<not> bit (m AND NOT (mask k)) n" for n by simp
  then show "\<forall>n. bit m n \<longrightarrow> n < k"
    by (metis bit_and_iff bit_imp_le_length bit_mask_iff bit_not_iff possible_bit_word)
next
  assume "\<forall>n. bit m n \<longrightarrow> n < k"
  then show "m AND NOT (mask k) = 0"
    by (intro bit_word_eqI) (auto simp: bit_and_iff bit_not_iff bit_mask_iff)
qed

lemma not_0x1FF: "NOT 0x1FF = NOT (mask 9 :: 32 word)"
  by (simp add: mask_eq_exp_minus_1)

lemma validateFileMode_ok_iff: "validateFileMode m = ok \<longleftrightarrow> mode_safe m"
  unfolding validateFileMode_def mode_safe_def not_0x1FF and_not_mask_eq_0_iff and_0x12_eq_0_iff
  by auto

lemma validateFileExec_ok_iff: "validateFileExec p m = ok \<longleftrightarrow> (mode_exec m \<longrightarrow> p = dhcp6cScript)"
  by (auto simp: validateFileExec_def and_0x49_eq_0_iff)

lemma mode_safe_0755: "mode_safe 0x1ED"
  unfolding validateFileMode_ok_iff [symmetric] by (simp add: validateFileMode_def)

section \<open>Where file operations act\<close>

definition in_table :: "symlinks \<Rightarrow> pathRule list \<Rightarrow> string \<Rightarrow> bool" where
  "in_table es0 rules root = (\<exists>r \<in> set rules. root = rule_base (resolveRule es0 r))"

definition admitted :: "symlinks \<Rightarrow> pathRule list \<Rightarrow> string \<Rightarrow> string \<Rightarrow> bool" where
  "admitted es0 rules root target =
     (\<exists>r \<in> set rules. root = rule_base (resolveRule es0 r) \<and> admits (resolveRule es0 r) target)"

text \<open>An effect on behalf of a request for \<open>path\<close> that stays inside a rule table: \<open>es0\<close> is
  the state of the symlinks at start-up, \<open>es\<close> their state at the request.\<close>

fun effect_confined :: "symlinks \<Rightarrow> symlinks \<Rightarrow> pathRule list \<Rightarrow> string \<Rightarrow> effect \<Rightarrow> bool" where
  "effect_confined es0 es rules path (MakeBase b) = in_table es0 rules b"
| "effect_confined es0 es rules path (RootMkdirAll root rel m) =
     (in_table es0 rules root \<and> (\<exists>t. beneath root rel t) \<and> mode_safe m)"
| "effect_confined es0 es rules path (RootWriteFile root rel body m) =
     (admitted es0 rules root (resolveExistingPrefix es path) \<and>
      beneath root rel (resolveExistingPrefix es path) \<and> mode_safe m \<and>
      (mode_exec m \<longrightarrow> path = dhcp6cScript))"
| "effect_confined es0 es rules path (RootReadFile root rel) =
     (admitted es0 rules root (resolveExistingPrefix es path) \<and>
      beneath root rel (resolveExistingPrefix es path))"
| "effect_confined es0 es rules path (RunCommand p argv stdin extra t) = False"

lemma upto_slash_no_slash: "CHR ''/'' \<notin> set s \<Longrightarrow> upto_slash s = []"
proof -
  assume "CHR ''/'' \<notin> set s"
  then have "\<forall>x \<in> set (rev s). x \<noteq> CHR ''/''" by auto
  then show ?thesis unfolding upto_slash_def by simp
qed

lemma Dir_join:
  assumes "list_all comp_ok (es @ [e])"
  shows "Dir (join_with ''/'' (es @ [e])) = (if es = [] then ''.'' else join_with ''/'' es)"
proof (cases "es = []")
  case True
  with assms have "CHR ''/'' \<notin> set e" by (simp add: comp_ok_def)
  with True show ?thesis by (simp add: Dir_def upto_slash_no_slash Clean_def)
next
  case False
  then obtain x xs where es: "es = x # xs" by (cases es) auto
  let ?d = "join_with ''/'' es"
  from assms have e: "CHR ''/'' \<notin> set e" and ok: "list_all comp_ok es" by (auto simp: comp_ok_def)
  obtain c y where x: "x = c # y" "c \<noteq> CHR ''/''"
    using ok es by (cases x) (auto simp: comp_ok_def)
  then have d: "?d \<noteq> []" "\<not> IsAbs ?d" by (simp_all add: es join_with_Cons_head)
  have "Clean (?d @ ''/'') = ?d"
    using d ok False by (simp add: Clean_comps path_comps_append_slash path_comps_join)
  with False e show ?thesis by (simp add: join_snoc Dir_def upto_slash_append)
qed

lemma beneath_Dir:
  assumes "beneath root rel target" "Dir rel \<noteq> ''.''"
  shows "\<exists>t. beneath root (Dir rel) t"
proof -
  from assms(1) obtain ds es where b: "list_all comp_ok (ds @ es)" "root = abs_path ds"
    "rel = (if es = [] then ''.'' else join_with ''/'' es)"
    by (auto simp: beneath_def)
  show ?thesis
  proof (cases es rule: rev_cases)
    case Nil
    with b(3) assms(2) show ?thesis by (simp add: Dir_def upto_slash_no_slash Clean_def)
  next
    case (snoc ys y)
    with b assms(2) have "ys \<noteq> []" "Dir rel = join_with ''/'' ys"
      by (auto simp: Dir_join split: if_splits)
    then show ?thesis
      using b(1,2) snoc unfolding beneath_def
      by (intro exI [of _ "abs_path (ds @ ys)"] exI [of _ ds] exI [of _ ys]) simp
  qed
qed

text \<open>The handlers reach the tables only through \<open>openBeneath\<close>; these are its facts on each
  table, in the form the handler proofs use.\<close>

lemma open_effects_confined:
  assumes "es_ok es0" "es_ok (re_symlinks env)" "rule_table rules"
    and "e \<in> set (open_effects (openBeneath env path (resolveRulePatterns es0 rules) msg))"
  shows "\<exists>b. e = MakeBase b \<and> in_table es0 rules b"
proof -
  from assms(4) obtain b resolved where e: "e = MakeBase b"
    and m: "ruleMatch (re_symlinks env) path (resolveRulePatterns es0 rules) = Some (resolved, b)"
    by (auto simp: openBeneath_def split: option.splits if_splits)
  from rule_table.ruleMatch_confined [OF assms(3,1,2) m] e show ?thesis by (auto simp: in_table_def)
qed

lemma opened_confined:
  assumes "es_ok es0" "es_ok (re_symlinks env)" "rule_table rules"
    and "openBeneath env path (resolveRulePatterns es0 rules) msg = Inr (root, rel)"
  shows "admitted es0 rules root (resolveExistingPrefix (re_symlinks env) path)"
    and "beneath root rel (resolveExistingPrefix (re_symlinks env) path)"
    and "in_table es0 rules root"
  using rule_table.openBeneath_confined [OF assms(3,1,2,4)]
  by (auto simp: admitted_def in_table_def)

lemma write_effects:
  assumes "es_ok es0" "es_ok (re_symlinks env)"
    and "e \<in> set (fst (opFileWrite env (resolveRulePatterns es0 allowedWriteRules) (Some params)))"
  shows "effect_confined es0 (re_symlinks env) allowedWriteRules (Path params) e"
proof -
  let ?wr = "resolveRulePatterns es0 allowedWriteRules"
  let ?mode = "if FileMode (Mode params) = 0 then 0x1A4 else FileMode (Mode params)"
  let ?opened = "openBeneath env (Path params) ?wr ''write not allowed to path''"
  have m: "mode_safe ?mode" "mode_exec ?mode \<longrightarrow> Path params = dhcp6cScript"
    using assms(3)
    by (auto simp: opFileWrite_def Let_def bindr_eq_Inr_iff validateFileMode_ok_iff [symmetric]
          validateFileExec_ok_iff [symmetric] split: sum.splits)
  consider "e \<in> set (open_effects ?opened)"
    | root rel where "?opened = Inr (root, rel)" "e = RootMkdirAll root (Dir rel) 0x1ED" "Dir rel \<noteq> ''.''"
    | root rel where "?opened = Inr (root, rel)" "e = RootWriteFile root rel (Bytes (Body params)) ?mode"
    using assms(3) by (auto simp: opFileWrite_def Let_def split: sum.splits if_splits)
  then show ?thesis
  proof cases
    case 1
    then obtain b where "e = MakeBase b" "in_table es0 allowedWriteRules b"
      using open_effects_confined [OF assms(1,2) write_table.rule_table_axioms] by blast
    then show ?thesis by simp
  next
    case 2
    note o = opened_confined [OF assms(1,2) write_table.rule_table_axioms 2(1)]
    from beneath_Dir [OF o(2) 2(3)] o(3) 2(2) show ?thesis by (simp add: mode_safe_0755)
  next
    case 3
    note o = opened_confined [OF assms(1,2) write_table.rule_table_axioms 3(1)]
    from o(1,2) m show ?thesis unfolding 3(2) by simp
  qed
qed

lemma read_effects:
  assumes "es_ok es0" "es_ok (re_symlinks env)"
    and "e \<in> set (fst (opFileRead env (resolveRulePatterns es0 allowedReadRules) (Some path)))"
  shows "effect_confined es0 (re_symlinks env) allowedReadRules path e"
proof -
  let ?opened = "openBeneath env path (resolveRulePatterns es0 allowedReadRules) ''read not allowed for path''"
  consider "e \<in> set (open_effects ?opened)"
    | root rel where "?opened = Inr (root, rel)" "e = RootReadFile root rel"
    using assms(3) by (auto simp: opFileRead_def Let_def split: sum.splits if_splits)
  then show ?thesis
  proof cases
    case 1
    then obtain b where "e = MakeBase b" "in_table es0 allowedReadRules b"
      using open_effects_confined [OF assms(1,2) read_table.rule_table_axioms] by blast
    then show ?thesis by simp
  next
    case 2
    note o = opened_confined [OF assms(1,2) read_table.rule_table_axioms 2(1)]
    from o(1,2) show ?thesis unfolding 2(2) by simp
  qed
qed

lemma mkdir_effects:
  assumes "es_ok es0" "es_ok (re_symlinks env)"
    and "e \<in> set (fst (opFileMkdir env (resolveRulePatterns es0 allowedWriteRules) (Some (path, m))))"
  shows "effect_confined es0 (re_symlinks env) allowedWriteRules path e"
proof -
  let ?mode = "if FileMode m = 0 then 0x1ED else FileMode m"
  let ?opened = "openBeneath env path (resolveRulePatterns es0 allowedWriteRules) ''mkdir not allowed for path''"
  have m: "mode_safe ?mode"
    using assms(3)
    by (auto simp: opFileMkdir_def Let_def validateFileMode_ok_iff [symmetric] split: sum.splits)
  consider "e \<in> set (open_effects ?opened)"
    | root rel where "?opened = Inr (root, rel)" "e = RootMkdirAll root rel ?mode"
    using assms(3) by (auto simp: opFileMkdir_def Let_def split: sum.splits if_splits)
  then show ?thesis
  proof cases
    case 1
    then obtain b where "e = MakeBase b" "in_table es0 allowedWriteRules b"
      using open_effects_confined [OF assms(1,2) write_table.rule_table_axioms] by blast
    then show ?thesis by simp
  next
    case 2
    note o = opened_confined [OF assms(1,2) write_table.rule_table_axioms 2(1)]
    from o(2,3) m show ?thesis unfolding 2(2) by auto
  qed
qed

section \<open>Commands\<close>

definition trusted_program :: "string \<Rightarrow> string \<Rightarrow> bool" where
  "trusted_program name p =
     (name \<in> set allowedCommands \<and> Base p = name \<and>
      (Dir p \<in> set trustedBinDirs \<or> p = ''/usr/share/easy-rsa/easyrsa''))"

definition cache_ok :: "cmd_cache \<Rightarrow> bool" where
  "cache_ok c = (\<forall>name p. c name = Some p \<longrightarrow> trusted_program name p)"

lemma candidates_trusted:
  assumes "name \<in> set allowedCommands" "p \<in> set (command_candidates name)"
  shows "trusted_program name p"
proof -
  have "list_all (\<lambda>n. list_all (\<lambda>q. Base q = n \<and>
          (Dir q \<in> set trustedBinDirs \<or> q = ''/usr/share/easy-rsa/easyrsa'')) (command_candidates n))
        allowedCommands"
    by code_simp
  with assms show ?thesis by (auto simp: list_all_iff trusted_program_def)
qed

lemma resolveAllowedCommand_trusted:
  assumes "cache_ok cache" "resolveAllowedCommand stat cache name = (r, cache')"
  shows "cache_ok cache' \<and> (\<forall>p. r = Inr p \<longrightarrow> trusted_program name p)"
  using assms candidates_trusted [of name]
  by (auto simp: resolveAllowedCommand_def cache_ok_def find_Some_iff
      split: if_splits option.splits)

definition exec_safe ::
  "pathRule list \<Rightarrow> pathRule list \<Rightarrow> symlinks \<Rightarrow> effect \<Rightarrow> bool" where
  "exec_safe wr rr es e =
     (\<exists>name p argv stdin t. e = RunCommand p argv stdin (commandEnv name) t \<and>
        trusted_program name p \<and>
        (\<forall>v. argValidators es wr rr name = Some v \<longrightarrow> v argv = ok) \<and>
        (\<forall>v. stdinValidators name = Some v \<longrightarrow> v stdin = ok))"

lemma opExecRun_step:
  assumes "cache_ok cache" "opExecRun env wr rr deadline cache raw = (effs, r, cache')"
  shows "cache_ok cache' \<and> (\<forall>e \<in> set effs. exec_safe wr rr (ee_symlinks env) e)"
proof (cases raw)
  case None
  with assms show ?thesis by (auto simp: opExecRun_def)
next
  case (Some params)
  let ?n = "Base (Cmd params)"
  obtain r' c' where rc: "resolveAllowedCommand (ee_stat env) cache ?n = (r', c')" by force
  note t = resolveAllowedCommand_trusted [OF assms(1) rc]
  show ?thesis
  proof (cases "\<exists>p. r' = Inr p \<and> validateInvocation (ee_symlinks env) wr rr ?n params = ok")
    case True
    then obtain p where p: "r' = Inr p" "validateInvocation (ee_symlinks env) wr rr ?n params = ok"
      by blast
    obtain t where "effs = [RunCommand p (Args params) (Stdin params) (commandEnv ?n) t]" "cache' = c'"
      using assms(2) Some rc p by (auto simp: opExecRun_def envFor_def Let_def split: prod.splits)
    moreover have "\<forall>v. argValidators (ee_symlinks env) wr rr ?n = Some v \<longrightarrow> v (Args params) = ok"
      "\<forall>v. stdinValidators ?n = Some v \<longrightarrow> v (Stdin params) = ok"
      using p(2) by (auto simp: validateInvocation_def bindr_eq_Inr_iff)
    ultimately show ?thesis using t p(1) by (auto simp: exec_safe_def)
  next
    case False
    then have "effs = []" "cache' = c'"
      using assms(2) Some rc by (auto simp: opExecRun_def Let_def split: sum.splits)
    with t show ?thesis by simp
  qed
qed

text \<open>A sequence of \<open>exec.run\<close> requests, each with the state the operating system is in at
  that moment, sharing the cache of resolved commands.\<close>

type_synonym exec_request = "exec_env \<times> int option \<times> ExecParams option"

fun exec_session ::
  "pathRule list \<Rightarrow> pathRule list \<Rightarrow> cmd_cache \<Rightarrow> exec_request list \<Rightarrow> (exec_env \<times> effect list) list" where
  "exec_session wr rr cache [] = []"
| "exec_session wr rr cache ((env, deadline, raw) # reqs) =
     (case opExecRun env wr rr deadline cache raw of
        (effs, _, cache') \<Rightarrow> (env, effs) # exec_session wr rr cache' reqs)"

lemma exec_session_inv:
  assumes "cache_ok cache" "(env, effs) \<in> set (exec_session wr rr cache reqs)" "e \<in> set effs"
  shows "exec_safe wr rr (ee_symlinks env) e"
  using assms
proof (induction reqs arbitrary: cache)
  case Nil
  then show ?case by simp
next
  case (Cons req reqs)
  obtain env1 dl raw where req: "req = (env1, dl, raw)" by (cases req)
  obtain effs1 r c where s: "opExecRun env1 wr rr dl cache raw = (effs1, r, c)"
    by (metis prod_cases3)
  with opExecRun_step [OF Cons.prems(1) s] Cons req show ?case by auto
qed

section \<open>Arguments that could be read as options\<close>

text \<open>The validators of the file commands let an argument through only as one of the fixed
  leading words or as an absolute path, so no argument of the caller's choice can be
  taken for an option by the command.\<close>

locale path_args =
  fixes validator :: "string list \<Rightarrow> refusal check"
    and fixed :: "string set"
  assumes accepted: "validator args = ok \<Longrightarrow> a \<in> set args \<Longrightarrow> a \<in> fixed \<or> IsAbs a"
begin

lemma no_option:
  "validator args = ok \<Longrightarrow> a \<in> set args \<Longrightarrow> HasPrefix a ''-'' \<Longrightarrow> a \<in> fixed"
  using accepted [of args a] by (cases a) auto

end

lemma cleanAbs_IsAbs: "cleanAbs p = Some c \<Longrightarrow> IsAbs p"
  by (auto simp: cleanAbs_def split: if_splits)

lemma path_checks_abs:
  "writablePath es wr p \<Longrightarrow> IsAbs p"
  "readablePath es rr p \<Longrightarrow> IsAbs p"
  "mediaPath p \<Longrightarrow> IsAbs p"
  by (auto simp: writablePath_def readablePath_def mediaPath_def
      split: option.splits if_splits dest: cleanAbs_IsAbs)

lemma set_length_2: "length xs = 2 \<Longrightarrow> a \<in> set xs \<Longrightarrow> a = xs ! 0 \<or> a = xs ! 1"
  by (auto simp: in_set_conv_nth less_2_cases_iff)

lemma set_length_3: "length xs = 3 \<Longrightarrow> a \<in> set xs \<Longrightarrow> a = xs ! 0 \<or> a = xs ! 1 \<or> a = xs ! 2"
  by (auto simp: in_set_conv_nth numeral_3_eq_3 numeral_2_eq_2 less_Suc_eq)

interpretation cp_args: path_args "validateCpArgs es wr rr" "{''-f'', ''--''}" for es wr rr
proof
  fix args a
  assume v: "validateCpArgs es wr rr args = ok" and a: "a \<in> set args"
  then have args: "length args = 3" and h: "args ! 0 \<in> {''-f'', ''--''}"
    and p: "readablePath es rr (args ! 1)" "writablePath es wr (args ! 2)"
    by (auto simp: validateCpArgs_def split: if_splits)
  from args a have "a = args ! 0 \<or> a = args ! 1 \<or> a = args ! 2" by (rule set_length_3)
  with h path_checks_abs(1) [OF p(2)] path_checks_abs(2) [OF p(1)]
  show "a \<in> {''-f'', ''--''} \<or> IsAbs a" by blast
qed

interpretation rm_args: path_args "validateRmArgs es wr" "{''-f'', ''--''}" for es wr
proof
  fix args a
  assume v: "validateRmArgs es wr args = ok" and a: "a \<in> set args"
  then have l: "length args \<ge> 2" "args ! 0 = ''-f''"
    by (auto simp: validateRmArgs_def split: if_splits)
  then obtain y ys where args: "args = ''-f'' # y # ys"
    by (cases args; cases "tl args") auto
  have "\<forall>p \<in> set (if y = ''--'' then ys else y # ys). writablePath es wr p"
    using v args by (auto simp: validateRmArgs_def check_all_ok_iff Let_def split: if_splits)
  with a args path_checks_abs(1) show "a \<in> {''-f'', ''--''} \<or> IsAbs a"
    by (auto split: if_splits)
qed

interpretation chmod_args: path_args "validateChmodArgs es wr" "{''600'', ''640'', ''+x''}" for es wr
proof
  fix args a
  assume v: "validateChmodArgs es wr args = ok" and a: "a \<in> set args"
  then have args: "length args = 2" and h: "args ! 0 \<in> {''600'', ''640'', ''+x''}"
    and p: "writablePath es wr (args ! 1) \<or> args ! 1 = installedBinary"
    by (auto simp: validateChmodArgs_def split: if_splits)
  from args a have "a = args ! 0 \<or> a = args ! 1" by (rule set_length_2)
  with h p path_checks_abs(1) show "a \<in> {''600'', ''640'', ''+x''} \<or> IsAbs a"
    by (auto simp: installedBinary_def)
qed

interpretation mkdir_args: path_args validateMkdirArgs "{''-p''}"
proof
  fix args a
  assume v: "validateMkdirArgs args = ok" and a: "a \<in> set args"
  then have args: "length args = 2" and h: "args ! 0 = ''-p''" "mediaPath (args ! 1)"
    by (auto simp: validateMkdirArgs_def split: if_splits)
  from args a have "a = args ! 0 \<or> a = args ! 1" by (rule set_length_2)
  with h path_checks_abs(3) show "a \<in> {''-p''} \<or> IsAbs a" by auto
qed

interpretation mount_args: path_args validateMountArgs "{}"
proof
  fix args a
  assume v: "validateMountArgs args = ok" and a: "a \<in> set args"
  then have args: "length args = 2" and h: "mediaPath (args ! 1)" "IsAbs (args ! 0)"
    by (auto simp: validateMountArgs_def split: if_splits option.splits dest: cleanAbs_IsAbs)
  from args a have "a = args ! 0 \<or> a = args ! 1" by (rule set_length_2)
  with h path_checks_abs(3) show "a \<in> {} \<or> IsAbs a" by auto
qed

lemma validateInvocation_args:
  "validateInvocation es wr rr cmd params = ok \<Longrightarrow> argValidators es wr rr cmd = Some v \<Longrightarrow>
   v (Args params) = ok"
  by (simp add: validateInvocation_def bindr_eq_Inr_iff)

section \<open>Standard input of chpasswd\<close>

lemma validateChpasswdStdin_ok_iff:
  "validateChpasswdStdin s = ok \<longleftrightarrow>
   (\<exists>pw. s = ''root:'' @ pw @ ''\<newline>'' \<and> pw \<noteq> [] \<and> \<not> contains_control pw)"
proof
  assume v: "validateChpasswdStdin s = ok"
  then obtain l where s: "s = l @ ''\<newline>''"
    by (auto simp: validateChpasswdStdin_def HasSuffix_iff Let_def split: if_splits)
  with v have "HasPrefix l ''root:''" by (simp add: validateChpasswdStdin_def Let_def split: if_splits)
  then obtain pw where l: "l = ''root:'' @ pw" unfolding HasPrefix_iff by blast
  have "TrimPrefix l ''root:'' \<noteq> []" "\<not> contains_control (TrimPrefix l ''root:'')"
    using v s by (simp_all add: validateChpasswdStdin_def Let_def split: if_splits)
  with s l show "\<exists>pw. s = ''root:'' @ pw @ ''\<newline>'' \<and> pw \<noteq> [] \<and> \<not> contains_control pw"
    by (simp add: TrimPrefix_def)
next
  assume "\<exists>pw. s = ''root:'' @ pw @ ''\<newline>'' \<and> pw \<noteq> [] \<and> \<not> contains_control pw"
  then obtain pw where "s = (''root:'' @ pw) @ ''\<newline>''" "pw \<noteq> []" "\<not> contains_control pw" by auto
  then show "validateChpasswdStdin s = ok"
    unfolding validateChpasswdStdin_def by (simp only: TrimSuffix_append Let_def) (simp add: TrimPrefix_def HasSuffix_def)
qed

section \<open>Properties\<close>

text \<open>(C1) \<open>file.write\<close>: whatever path, mode and content a caller sends, and however the
  symlinks stood at start-up and stand now, every kernel request the handler makes is
  confined: the base directory it creates is the directory of a write rule, and the file
  it writes is the resolved path, admitted by a write rule and strictly inside that
  rule's directory with no ".." left, with a mode that has no bit outside rwxrwxrwx, is
  not group- or world-writable, and is executable only for the DHCPv6 script.\<close>

theorem file_write_confined:
  assumes "es_ok es0" "es_ok (re_symlinks env)"
    and "e \<in> set (fst (opFileWrite env (resolveRulePatterns es0 allowedWriteRules) (Some params)))"
  shows "effect_confined es0 (re_symlinks env) allowedWriteRules (Path params) e"
  using assms by (rule write_effects)

definition demo_env :: file_env where
  "demo_env = \<lparr>re_symlinks = (\<lambda>p. Some p), re_mkdir_all = (\<lambda>_. True), re_open_root = (\<lambda>_. True),
     fe_mkdir = (\<lambda>_ _. True), fe_write = (\<lambda>_ _. True), fe_read = (\<lambda>_ _. Some ''x'')\<rparr>"

definition demo_write :: FileWriteParams where
  "demo_write = \<lparr>Path = ''/etc/lankeeper/vpn/peers.conf'', Body = \<lparr>Content = ''x'', ContentBytes = None\<rparr>,
     Mode = 384, MkdirP = True\<rparr>"

lemma es_ok_id: "es_ok (\<lambda>p. Some p)"
  by (simp add: es_ok_def)

lemma demo_write_effects:
  "fst (opFileWrite demo_env (resolveRulePatterns (\<lambda>p. Some p) allowedWriteRules) (Some demo_write)) =
     [MakeBase ''/etc/lankeeper'', RootMkdirAll ''/etc/lankeeper'' ''vpn'' 0x1ED,
      RootWriteFile ''/etc/lankeeper'' ''vpn/peers.conf'' ''x'' 0x180]"
  by code_simp

theorem file_write_confined_witness:
  "effect_confined (\<lambda>p. Some p) (\<lambda>p. Some p) allowedWriteRules ''/etc/lankeeper/vpn/peers.conf''
     (RootWriteFile ''/etc/lankeeper'' ''vpn/peers.conf'' ''x'' 0x180)"
  using file_write_confined [of "\<lambda>p. Some p" demo_env
      "RootWriteFile ''/etc/lankeeper'' ''vpn/peers.conf'' ''x'' 0x180" demo_write]
  unfolding demo_write_effects by (simp add: es_ok_id demo_env_def demo_write_def)

text \<open>(C19) \<open>file.read\<close> and \<open>file.mkdir\<close> are confined the same way: a read stays inside the
  directory of a read rule that admits the resolved path, a directory is created only
  inside the directory of a write rule and never group- or world-writable.\<close>

theorem file_read_mkdir_confined:
  assumes "es_ok es0" "es_ok (re_symlinks env)"
  shows "(\<forall>e \<in> set (fst (opFileRead env (resolveRulePatterns es0 allowedReadRules) (Some path))).
            effect_confined es0 (re_symlinks env) allowedReadRules path e) \<and>
         (\<forall>e \<in> set (fst (opFileMkdir env (resolveRulePatterns es0 allowedWriteRules) (Some (path, m)))).
            effect_confined es0 (re_symlinks env) allowedWriteRules path e)"
  using read_effects [OF assms] mkdir_effects [OF assms] by blast

lemma demo_read_mkdir_effects:
  "fst (opFileRead demo_env (resolveRulePatterns (\<lambda>p. Some p) allowedReadRules) (Some ''/etc/unbound/a'')) =
     [MakeBase ''/etc/unbound'', RootReadFile ''/etc/unbound'' ''a'']"
  "fst (opFileMkdir demo_env (resolveRulePatterns (\<lambda>p. Some p) allowedWriteRules) (Some (''/etc/unbound/a'', 0))) =
     [MakeBase ''/etc/unbound'', RootMkdirAll ''/etc/unbound'' ''a'' 0x1ED]"
  by code_simp+

theorem file_read_mkdir_confined_witness:
  "effect_confined (\<lambda>p. Some p) (\<lambda>p. Some p) allowedReadRules ''/etc/unbound/a''
     (RootReadFile ''/etc/unbound'' ''a'') \<and>
   effect_confined (\<lambda>p. Some p) (\<lambda>p. Some p) allowedWriteRules ''/etc/unbound/a''
     (RootMkdirAll ''/etc/unbound'' ''a'' 0x1ED)"
  using file_read_mkdir_confined [of "\<lambda>p. Some p" demo_env "''/etc/unbound/a''" 0]
  unfolding demo_read_mkdir_effects by (simp add: es_ok_id demo_env_def)

text \<open>(C2) \<open>exec.run\<close> over a whole session: starting from the empty cache, in every sequence of
  requests, with the file system changing freely between them, the agent only starts a
  program whose base name is whitelisted and which lies in one of the trusted
  directories (or is the pinned easyrsa script), with arguments and standard input its
  validators accepted and an environment chosen by the agent.\<close>

theorem exec_only_trusted:
  assumes "(env, effs) \<in> set (exec_session wr rr Map.empty reqs)" "e \<in> set effs"
  shows "exec_safe wr rr (ee_symlinks env) e"
  using assms by (intro exec_session_inv) (simp_all add: cache_ok_def)

definition demo_exec_env :: exec_env where
  "demo_exec_env =
     \<lparr>ee_symlinks = (\<lambda>p. Some p),
      ee_stat = (\<lambda>p. if p = ''/usr/bin/rm'' then Some \<lparr>fi_is_dir = False, fi_perm = 0x1ED\<rparr> else None),
      ee_run = (\<lambda>_ _ _ _. (\<lparr>Stdout = [], Stderr = [], ExitCode = 0\<rparr>, False))\<rparr>"

definition demo_exec :: exec_request where
  "demo_exec = (demo_exec_env, None,
     Some \<lparr>Cmd = ''/tmp/evil/rm'', Args = [''-f'', ''--'', ''/etc/lankeeper/x''], Stdin = []\<rparr>)"

lemma demo_exec_effects:
  "map snd (exec_session allowedWriteRules allowedReadRules Map.empty [demo_exec, demo_exec]) =
     replicate 2 [RunCommand ''/usr/bin/rm'' [''-f'', ''--'', ''/etc/lankeeper/x''] [] [] 30000000000]"
  by code_simp

lemma exec_session_zip:
  "exec_session wr rr c reqs = zip (map fst reqs) (map snd (exec_session wr rr c reqs))"
proof -
  have "map fst (exec_session wr rr c reqs) = map fst reqs"
    by (induction reqs arbitrary: c) (auto split: prod.splits)
  then show ?thesis by (metis zip_map_fst_snd)
qed

theorem exec_only_trusted_witness:
  "exec_safe allowedWriteRules allowedReadRules (\<lambda>p. Some p)
     (RunCommand ''/usr/bin/rm'' [''-f'', ''--'', ''/etc/lankeeper/x''] [] [] 30000000000)"
proof -
  let ?e = "[RunCommand ''/usr/bin/rm'' [''-f'', ''--'', ''/etc/lankeeper/x''] [] [] 30000000000]"
  have "exec_session allowedWriteRules allowedReadRules Map.empty [demo_exec, demo_exec] =
        [(demo_exec_env, ?e), (demo_exec_env, ?e)]"
    by (subst exec_session_zip, subst demo_exec_effects) (simp add: demo_exec_def numeral_2_eq_2)
  then show ?thesis
    using exec_only_trusted [of demo_exec_env ?e allowedWriteRules allowedReadRules "[demo_exec, demo_exec]"]
    by (simp add: demo_exec_env_def)
qed

text \<open>(C17) No argument of cp, rm, chmod, mkdir or mount that the validators accept can be read
  as an option, apart from the fixed leading words: an accepted argument that starts with
  a dash is one of them.\<close>

theorem file_commands_no_option:
  assumes "cmd \<in> {''cp'', ''rm'', ''chmod'', ''mkdir'', ''mount''}"
    and "validateInvocation es wr rr cmd params = ok"
    and "a \<in> set (Args params)" "HasPrefix a ''-''"
  shows "a \<in> {''-f'', ''--'', ''-p''}"
proof -
  note v = validateInvocation_args [OF assms(2)]
  note o = assms(3,4)
  from assms(1) consider "cmd = ''cp''" | "cmd = ''rm''" | "cmd = ''chmod''" | "cmd = ''mkdir''"
    | "cmd = ''mount''" by (elim insertE emptyE)
  then show ?thesis
  proof cases
    case 1
    then have "validateCpArgs es wr rr (Args params) = ok" by (intro v) (simp add: argValidators_def)
    with o have "a \<in> {''-f'', ''--''}" by (intro cp_args.no_option)
    with o(2) show ?thesis by auto
  next
    case 2
    then have "validateRmArgs es wr (Args params) = ok" by (intro v) (simp add: argValidators_def)
    with o have "a \<in> {''-f'', ''--''}" by (intro rm_args.no_option)
    with o(2) show ?thesis by auto
  next
    case 3
    then have "validateChmodArgs es wr (Args params) = ok" by (intro v) (simp add: argValidators_def)
    with o have "a \<in> {''600'', ''640'', ''+x''}" by (intro chmod_args.no_option)
    then show ?thesis using o(2) by (elim insertE emptyE) simp_all
  next
    case 4
    then have "validateMkdirArgs (Args params) = ok" by (intro v) (simp add: argValidators_def)
    with o have "a \<in> {''-p''}" by (intro mkdir_args.no_option)
    with o(2) show ?thesis by auto
  next
    case 5
    then have "validateMountArgs (Args params) = ok" by (intro v) (simp add: argValidators_def)
    with o have "a \<in> {}" by (intro mount_args.no_option)
    with o(2) show ?thesis by auto
  qed
qed

definition demo_rm :: ExecParams where
  "demo_rm = \<lparr>Cmd = ''rm'', Args = [''-f'', ''/etc/lankeeper/x''], Stdin = []\<rparr>"

lemma demo_rm_accepted:
  "validateInvocation (\<lambda>p. Some p) allowedWriteRules allowedReadRules ''rm'' demo_rm = ok"
  by code_simp

theorem file_commands_no_option_witness:
  "''-f'' \<in> set (Args demo_rm) \<and> ''-f'' \<in> {''-f'', ''--'', ''-p''}"
  using file_commands_no_option [OF _ demo_rm_accepted, of "''-f''"] by (simp add: demo_rm_def)

text \<open>(C18) The tar rule does not have that guarantee. It compares the cleaned join of PARENT and
  NAME with the backup directories, and cleaning removes any component that a ".."
  follows: for every word \<open>opt\<close> without a slash, NAME may be \<open>opt/../lankeeper\<close>. With
  \<open>opt\<close> starting with two dashes the accepted argument is an option to tar.\<close>

theorem tar_name_may_be_option:
  assumes "writablePath es wr out" "opt \<notin> {[], ''.'', ''..''}" "CHR ''/'' \<notin> set opt"
  shows "validateInvocation es wr rr ''tar''
           \<lparr>Cmd = ''tar'', Args = [''czf'', out, ''-C'', ''/etc'', opt @ ''/../lankeeper''], Stdin = []\<rparr> = ok"
proof -
  have opt: "path_comps opt = [opt]"
    using assms(2,3) by (simp add: path_comps_def)
  have "path_comps (''/etc'' @ CHR ''/'' # opt @ CHR ''/'' # ''../lankeeper'') =
        [''etc''] @ [opt] @ [''..'', ''lankeeper'']"
    by (simp only: path_comps_append_slash opt) (simp add: path_comps_def)
  then have "Join [''/etc'', opt @ ''/../lankeeper''] = ''/etc/lankeeper''"
    using assms(2) by (simp add: Join_def Clean_def clean_step_def)
  then show ?thesis
    using assms(1)
    by (simp add: validateInvocation_def argValidators_def stdinValidators_def validateTarArgs_def
        backupSourceDirs_def)
qed

lemma demo_out_writable: "writablePath (\<lambda>p. Some p) allowedWriteRules ''/var/lib/lankeeper/b.tgz''"
  by code_simp

theorem tar_name_may_be_option_witness:
  "validateInvocation (\<lambda>p. Some p) allowedWriteRules allowedReadRules ''tar''
     \<lparr>Cmd = ''tar'', Args = [''czf'', ''/var/lib/lankeeper/b.tgz'', ''-C'', ''/etc'',
        ''--checkpoint-action=exec=true/../lankeeper''], Stdin = []\<rparr> = ok"
  using tar_name_may_be_option [OF demo_out_writable, of "''--checkpoint-action=exec=true''"] by simp

text \<open>(C21) The standard input accepted for chpasswd is one line, for root: it splits at line
  breaks into \<open>root:<password>\<close> and the empty rest, with a non-empty password that holds no
  control byte.\<close>

theorem chpasswd_one_root_line:
  assumes "validateInvocation es wr rr ''chpasswd'' params = ok"
  shows "Args params = [] \<and>
    (\<exists>pw. pw \<noteq> [] \<and> split_on (CHR ''\<newline>'') (Stdin params) = [''root:'' @ pw, []] \<and>
          (\<forall>c \<in> set pw. \<not> byte_in 0x00 0x1F c \<and> c \<noteq> CHR 0x7F))"
proof -
  have a: "Args params = []"
    using assms by (simp add: validateInvocation_def argValidators_def validateChpasswdArgs_def split: if_splits)
  with assms have v: "validateChpasswdStdin (Stdin params) = ok"
    by (simp add: validateInvocation_def argValidators_def stdinValidators_def validateChpasswdArgs_def)
  from v obtain pw where s: "Stdin params = ''root:'' @ pw @ ''\<newline>''" and pw: "pw \<noteq> []"
    "\<not> contains_control pw" unfolding validateChpasswdStdin_ok_iff by blast
  from s have st: "Stdin params = (''root:'' @ pw) @ CHR ''\<newline>'' # []" by simp
  have c: "\<forall>c \<in> set pw. \<not> byte_in 0x00 0x1F c \<and> c \<noteq> CHR 0x7F"
    using not_control_bytes [OF pw(2)] by blast
  have "byte_in 0x00 0x1F (CHR ''\<newline>'')" by (simp add: byte_in_def)
  with c have "CHR ''\<newline>'' \<notin> set pw" by metis
  then have "CHR ''\<newline>'' \<notin> set (''root:'' @ pw)" by simp
  then have "split_on (CHR ''\<newline>'') (Stdin params) = [''root:'' @ pw, []]"
    unfolding st split_on_append_sep by simp
  with a c pw(1) show ?thesis by (intro conjI exI [of _ pw])
qed

lemma demo_chpasswd_ok:
  "validateInvocation es wr rr ''chpasswd'' \<lparr>Cmd = ''chpasswd'', Args = [], Stdin = ''root:s3cret\<newline>''\<rparr> = ok"
  by (simp add: validateInvocation_def argValidators_def stdinValidators_def validateChpasswdArgs_def) code_simp

theorem chpasswd_one_root_line_witness:
  "\<exists>pw. pw \<noteq> [] \<and> split_on (CHR ''\<newline>'') ''root:s3cret\<newline>'' = [''root:'' @ pw, []]"
  using chpasswd_one_root_line [OF demo_chpasswd_ok] by auto

text \<open>(C20) A file body crosses the socket unaltered, text or binary: whatever bytes the caller
  passes to \<open>WriteFile\<close> are the bytes the agent asks the kernel to write, and whatever bytes
  the agent reads are the bytes \<open>ReadFile\<close> returns, although \<open>encoding/json\<close> replaces invalid
  UTF-8 in strings.\<close>

theorem file_body_unaltered:
  "(RootWriteFile root rel body m \<in>
      set (fst (opFileWrite env wr (Some (wire_params (WriteFile_params path content mode))))) \<longrightarrow>
    body = content) \<and>
   ReadFile_reply (wire (NewFileContent data)) = data"
proof
  have valid: "utf8_valid []" by (simp add: utf8_valid.simps)
  have b: "Bytes (wire (Body (WriteFile_params path content mode))) = content"
    using valid by (auto simp: Bytes_def wire_def WriteFile_params_def json_string_valid split: list.splits)
  have *: "e = RootWriteFile r l x n \<Longrightarrow> e \<notin> set (open_effects o')" for e r l x n o'
    by (cases o' rule: open_effects.cases) auto
  show "RootWriteFile root rel body m \<in>
      set (fst (opFileWrite env wr (Some (wire_params (WriteFile_params path content mode))))) \<longrightarrow>
    body = content"
    using b * by (auto simp: opFileWrite_def wire_params_def Let_def split: sum.splits if_splits)
  show "ReadFile_reply (wire (NewFileContent data)) = data"
    using valid by (auto simp: ReadFile_reply_def wire_def NewFileContent_def json_string_valid split: list.splits)
qed

lemma demo_body_effects:
  "fst (opFileWrite demo_env (resolveRulePatterns (\<lambda>p. Some p) allowedWriteRules)
     (Some (wire_params (WriteFile_params ''/etc/lankeeper/k'' [CHR 0xFF] 0x180)))) =
   [MakeBase ''/etc/lankeeper'', RootWriteFile ''/etc/lankeeper'' ''k'' [CHR 0xFF] 0x180]"
  by code_simp

theorem file_body_unaltered_witness:
  "RootWriteFile ''/etc/lankeeper'' ''k'' [CHR 0xFF] 0x180 \<in>
     set (fst (opFileWrite demo_env (resolveRulePatterns (\<lambda>p. Some p) allowedWriteRules)
       (Some (wire_params (WriteFile_params ''/etc/lankeeper/k'' [CHR 0xFF] 0x180))))) \<and>
   ReadFile_reply (wire (NewFileContent [CHR 0xFF])) = [CHR 0xFF]"
  using file_body_unaltered [where root = "''/etc/lankeeper''" and rel = "''k''" and body = "[CHR 0xFF]"
      and m = "0x180" and env = demo_env and wr = "resolveRulePatterns (\<lambda>p. Some p) allowedWriteRules"
      and path = "''/etc/lankeeper/k''" and content = "[CHR 0xFF]" and mode = "0x180" and data = "[CHR 0xFF]"]
  unfolding demo_body_effects by simp

end
