(* ===== verification/Pool.thy ===== *)
theory Pool
  imports Prelude
begin

text \<open>
  The contract of a resource with a fixed capacity that refuses instead of queueing: the
  connection slots of the agent and the subscriber table of the web process. \<open>acquire\<close>
  answers whether the caller got in, \<open>release\<close> gives a place back.
\<close>

datatype 'k pool_event = Acquire 'k | Release 'k

locale bounded_pool =
  fixes acquire :: "'s \<Rightarrow> 'k \<Rightarrow> bool \<times> 's"
    and release :: "'s \<Rightarrow> 'k \<Rightarrow> 's"
    and used :: "'s \<Rightarrow> nat"
    and cap :: nat
  assumes acquire_full: "cap \<le> used s \<Longrightarrow> acquire s k = (False, s)"
    and acquire_free: "used s < cap \<Longrightarrow> fst (acquire s k) \<and> used (snd (acquire s k)) = Suc (used s)"
    and release_le: "used (release s k) \<le> used s"
begin

fun pool_step :: "'s \<Rightarrow> 'k pool_event \<Rightarrow> 's" where
  "pool_step s (Acquire k) = snd (acquire s k)"
| "pool_step s (Release k) = release s k"

lemma step_bounded: "used s \<le> cap \<Longrightarrow> used (pool_step s e) \<le> cap"
proof (cases e)
  case (Acquire k)
  assume "used s \<le> cap"
  then show ?thesis
    using Acquire acquire_full [of s k] acquire_free [of s k] by (cases "used s < cap") auto
next
  case (Release k)
  assume "used s \<le> cap"
  then show ?thesis using Release release_le [of s k] by simp
qed

lemma run_bounded: "used s \<le> cap \<Longrightarrow> used (run pool_step s es) \<le> cap"
  by (rule run_invariant [where I = "\<lambda>s. used s \<le> cap"]) (auto intro: step_bounded)

lemma acquire_iff: "used s \<le> cap \<Longrightarrow> fst (acquire s k) \<longleftrightarrow> used s < cap"
  using acquire_full [of s k] acquire_free [of s k] by (cases "used s < cap") auto

end

end
