(* ===== verification/AgentServer.thy ===== *)
theory AgentServer
  imports AgentOps Pool
begin

text \<open>
  The agent's socket server (\<open>internal/agent/server.go\<close>): who may connect, how many
  connections are served at once, how a request frame is bounded, how a request is
  dispatched and how long its handler may run.

  The locale \<open>bounded_pool\<close> is the contract of a resource with a fixed capacity: what an
  acquisition and a release do to the number in use. The connection slots of \<open>Serve\<close>
  interpret it; so does the subscriber table of the web process.
\<close>

section \<open>Socket ownership and mode\<close>

datatype sock_call = Chown string int int | Chmod string "32 word"

datatype sock_error = ChownFailed | ChmodFailed

text \<open>\<open>lookupGID\<close>: \<open>groups\<close> is the \<open>Gid\<close> string the user database holds for a name.\<close>

definition lookupGID :: "(string \<Rightarrow> string option) \<Rightarrow> string \<Rightarrow> int option" where
  "lookupGID groups name =
     (case groups name of
        None \<Rightarrow> None
      | Some gid \<Rightarrow> (case Atoi gid of AtoiOk n \<Rightarrow> Some n | _ \<Rightarrow> None))"

text \<open>\<open>restrictSocket\<close> returns the calls it made, in order, and its result; \<open>works\<close> says which
  calls the kernel carries out.\<close>

definition restrictSocket ::
  "(string \<Rightarrow> string option) \<Rightarrow> int \<Rightarrow> (sock_call \<Rightarrow> bool) \<Rightarrow> string \<Rightarrow> string \<Rightarrow>
   sock_call list \<times> sock_error check" where
  "restrictSocket groups euid works socketPath serviceGroup =
     (case lookupGID groups serviceGroup of
        Some gid \<Rightarrow>
          if euid = 0 then
            (if \<not> works (Chown socketPath 0 gid) then ([Chown socketPath 0 gid], Inl ChownFailed)
             else if \<not> works (Chmod socketPath 0x1B0)
             then ([Chown socketPath 0 gid, Chmod socketPath 0x1B0], Inl ChmodFailed)
             else ([Chown socketPath 0 gid, Chmod socketPath 0x1B0], ok))
          else if \<not> works (Chmod socketPath 0x180) then ([Chmod socketPath 0x180], Inl ChmodFailed)
          else ([Chmod socketPath 0x180], ok)
      | None \<Rightarrow>
          if \<not> works (Chmod socketPath 0x180) then ([Chmod socketPath 0x180], Inl ChmodFailed)
          else ([Chmod socketPath 0x180], ok))"

text \<open>The socket inode, and what a sequence of calls makes of it.\<close>

record sock_inode =
  sk_owner :: int
  sk_group :: int
  sk_mode :: "32 word"

fun apply_sock :: "(sock_call \<Rightarrow> bool) \<Rightarrow> sock_inode \<Rightarrow> sock_call \<Rightarrow> sock_inode" where
  "apply_sock works i (Chown p u g) = (if works (Chown p u g) then i\<lparr>sk_owner := u, sk_group := g\<rparr> else i)"
| "apply_sock works i (Chmod p m) = (if works (Chmod p m) then i\<lparr>sk_mode := m\<rparr> else i)"

text \<open>The start of \<open>Serve\<close>, up to its accept loop: the result, and the socket that is left
  listening. \<open>i\<close> is the inode \<open>net.Listen\<close> creates; closing the listener unlinks it.\<close>

datatype serve_error = CreateSocketDir | ListenUnix | Restrict sock_error

definition Serve_start ::
  "(string \<Rightarrow> string option) \<Rightarrow> int \<Rightarrow> (sock_call \<Rightarrow> bool) \<Rightarrow> bool \<Rightarrow> bool \<Rightarrow> string \<Rightarrow> string \<Rightarrow> sock_inode \<Rightarrow>
   serve_error check \<times> sock_inode option" where
  "Serve_start groups euid works mkdir listen socketPath serviceGroup i =
     (if \<not> mkdir then (Inl CreateSocketDir, None)
      else if \<not> listen then (Inl ListenUnix, None)
      else (case restrictSocket groups euid works socketPath serviceGroup of
              (calls, Inl e) \<Rightarrow> (Inl (Restrict e), None)
            | (calls, Inr _) \<Rightarrow> (ok, Some (foldl (apply_sock works) i calls))))"

text \<open>Connecting to a Unix socket takes write permission on its inode: root has it, others by the
  owner, group or other bits of the mode.\<close>

definition may_connect :: "sock_inode \<Rightarrow> int \<Rightarrow> int set \<Rightarrow> bool" where
  "may_connect i uid gids =
     (uid = 0 \<or> (if uid = sk_owner i then bit (sk_mode i) 7
                 else if sk_group i \<in> gids then bit (sk_mode i) 4
                 else bit (sk_mode i) 1))"

section \<open>Peer credentials\<close>

datatype peer_result = PeerUid "32 word" | PeerUnsupported | PeerError

definition authorizePeer :: "(string \<Rightarrow> string option) \<Rightarrow> int \<Rightarrow> string \<Rightarrow> peer_result \<Rightarrow> bool" where
  "authorizePeer lookup euid serviceUser peer =
     (case peer of
        PeerUnsupported \<Rightarrow> True
      | PeerError \<Rightarrow> False
      | PeerUid uid \<Rightarrow>
          if uid = 0 then True
          else if uint uid = euid then True
          else (case lookup serviceUser of None \<Rightarrow> False | Some u \<Rightarrow> u = nat_dec (unat uid)))"

section \<open>Frames\<close>

definition hasFrameByte :: "string \<Rightarrow> bool" where
  "hasFrameByte b = list_ex (\<lambda>c. c \<noteq> CHR '' '' \<and> c \<noteq> CHR ''\<newline>'' \<and> c \<noteq> CHR 0x0D \<and> c \<noteq> CHR 0x09) b"

text \<open>\<open>fr_deadline\<close> is the read deadline of the connection; the read returns the bytes the
  decoder gets and an error. \<open>conn_read k\<close> is what the connection answers to a read into a
  buffer of \<open>k\<close> bytes.\<close>

record frameReader =
  fr_max :: nat
  fr_timeout :: int
  fr_read :: nat
  fr_armed :: bool
  fr_deadline :: "int option"

datatype read_error = FrameTooLarge | ConnError

definition frame_read ::
  "int \<Rightarrow> (nat \<Rightarrow> string \<times> bool) \<Rightarrow> nat \<Rightarrow> frameReader \<Rightarrow> (string \<times> read_error option) \<times> frameReader" where
  "frame_read now conn_read len f =
     (if fr_read f \<ge> fr_max f then (([], Some FrameTooLarge), f)
      else
        let k = min len (fr_max f - fr_read f);
            (d, err) = conn_read k;
            f1 = (if \<not> fr_armed f \<and> hasFrameByte d
                  then f\<lparr>fr_armed := True, fr_deadline := Some (now + fr_timeout f)\<rparr> else f);
            f2 = f1\<lparr>fr_read := fr_read f1 + length d\<rparr> in
        if fr_read f2 \<ge> fr_max f2 \<and> \<not> err then ((d, Some FrameTooLarge), f2)
        else ((d, if err then Some ConnError else None), f2))"

definition endFrame :: "frameReader \<Rightarrow> frameReader" where
  "endFrame f =
     (if fr_armed f then f\<lparr>fr_read := 0, fr_armed := False, fr_deadline := None\<rparr>
      else f\<lparr>fr_read := 0\<rparr>)"

section \<open>Timeouts and dispatch\<close>

definition maxRequestedTimeout :: int where
  "maxRequestedTimeout = 15 * Minute"

definition requestedTimeout :: "int \<Rightarrow> int" where
  "requestedTimeout ms =
     (if ms \<le> 0 then 0
      else let d = wrap64 (ms * Millisecond) in
           if d > maxRequestedTimeout then maxRequestedTimeout else d)"

record ('p, 'i) Request =
  rq_JSONRPC :: string
  rq_Method :: string
  rq_Params :: 'p
  rq_ID :: 'i
  rq_TimeoutMS :: int

record RPCError =
  re_Code :: int
  re_Message :: string

record ('r, 'i) Response =
  rs_Result :: "'r option"
  rs_Error :: "RPCError option"
  rs_ID :: 'i

text \<open>A handler sees the state of the machine at the time it runs, the time budget its context
  carries (\<open>None\<close>: no deadline) and its parameters.\<close>

type_synonym ('w, 'p, 'r) handler = "'w \<Rightarrow> int option \<Rightarrow> 'p \<Rightarrow> string + 'r"

definition dispatch ::
  "(string \<Rightarrow> ('w, 'p, 'r) handler option) \<Rightarrow> 'w \<Rightarrow> ('p, 'i) Request \<Rightarrow> ('r, 'i) Response" where
  "dispatch handlers w req =
     (if rq_JSONRPC req \<noteq> ''2.0''
      then \<lparr>rs_Result = None,
            rs_Error = Some \<lparr>re_Code = -32600, re_Message = ''invalid JSON-RPC version''\<rparr>, rs_ID = rq_ID req\<rparr>
      else case handlers (rq_Method req) of
             None \<Rightarrow>
               \<lparr>rs_Result = None,
                rs_Error = Some \<lparr>re_Code = -32601, re_Message = ''method not found: '' @ rq_Method req\<rparr>,
                rs_ID = rq_ID req\<rparr>
           | Some handler \<Rightarrow>
               let d = requestedTimeout (rq_TimeoutMS req);
                   deadline = (if d > 0 then Some d else None) in
               (case handler w deadline (rq_Params req) of
                  Inl e \<Rightarrow> \<lparr>rs_Result = None, rs_Error = Some \<lparr>re_Code = -32000, re_Message = e\<rparr>, rs_ID = rq_ID req\<rparr>
                | Inr result \<Rightarrow> \<lparr>rs_Result = Some result, rs_Error = None, rs_ID = rq_ID req\<rparr>))"

text \<open>\<open>watchPeer\<close> over the reads it makes while the handler runs: each gives the bytes read,
  whether the read failed, and whether \<open>stopping\<close> was set by then. \<open>None\<close> is a read still
  blocked when the list ends.\<close>

fun watchPeer :: "(string \<times> bool \<times> bool) list \<Rightarrow> bool option" where
  "watchPeer [] = None"
| "watchPeer ((buf, failed, stopping) # rest) =
     (if hasFrameByte buf then Some True
      else if failed then Some (\<not> stopping)
      else watchPeer rest)"

definition dispatchWatched ::
  "(string \<Rightarrow> ('w, 'p, 'r) handler option) \<Rightarrow> 'w \<Rightarrow> ('p, 'i) Request \<Rightarrow> (string \<times> bool \<times> bool) list \<Rightarrow>
   ('r, 'i) Response option" where
  "dispatchWatched handlers w req reads =
     (if watchPeer reads = Some True then None else Some (dispatch handlers w req))"

section \<open>One connection, and all of them\<close>

text \<open>What happens on a connection, in order: a decode that fails (the peer closed, or the
  frame was too large or too slow), or a request, with what \<open>watchPeer\<close> read while it was
  handled and whether its response could be encoded. \<open>'w\<close> is the machine its handler finds.\<close>

datatype ('w, 'p, 'i) conn_event =
    DecodeFails
  | Received 'w "('p, 'i) Request" "(string \<times> bool \<times> bool) list" bool

fun conn_loop ::
  "(string \<Rightarrow> ('w, 'p, 'r) handler option) \<Rightarrow> ('w, 'p, 'i) conn_event list \<Rightarrow> ('r, 'i) Response list" where
  "conn_loop handlers [] = []"
| "conn_loop handlers (DecodeFails # es) = []"
| "conn_loop handlers (Received w req reads encodes # es) =
     (case dispatchWatched handlers w req reads of
        None \<Rightarrow> []
      | Some resp \<Rightarrow> if encodes then resp # conn_loop handlers es else [])"

definition handleConn ::
  "(string \<Rightarrow> ('w, 'p, 'r) handler option) \<Rightarrow> bool \<Rightarrow> ('w, 'p, 'i) conn_event list \<Rightarrow> ('r, 'i) Response list" where
  "handleConn handlers authorized es = (if \<not> authorized then [] else conn_loop handlers es)"

definition errAgentBusy :: string where
  "errAgentBusy = ''agent: too many concurrent connections''"

definition refuseConn :: "('r, 'i option) Response" where
  "refuseConn = \<lparr>rs_Result = None, rs_Error = Some \<lparr>re_Code = -32000, re_Message = errAgentBusy\<rparr>, rs_ID = None\<rparr>"

definition defaultMaxConns :: nat where
  "defaultMaxConns = 16"

record 'c serve_state =
  sv_slots :: nat
  sv_conns :: "'c list"
  sv_refused :: "('c \<times> (unit, unit option) Response) list"

text \<open>\<open>sv_refused\<close> records the connections turned away and what each was sent.\<close>

definition serve_accept :: "'c serve_state \<Rightarrow> 'c \<Rightarrow> bool \<times> 'c serve_state" where
  "serve_accept s c =
     (if sv_slots s < defaultMaxConns
      then (True, s\<lparr>sv_slots := Suc (sv_slots s), sv_conns := c # sv_conns s\<rparr>)
      else (False, s))"

text \<open>The goroutine of a connection that ends takes its token out of the channel.\<close>

definition serve_exit :: "'c serve_state \<Rightarrow> 'c \<Rightarrow> 'c serve_state" where
  "serve_exit s c =
     (if c \<in> set (sv_conns s)
      then s\<lparr>sv_slots := sv_slots s - 1, sv_conns := remove1 c (sv_conns s)\<rparr>
      else s)"

datatype 'c serve_event = Accepted 'c | AcceptFailed | HandlerDone 'c

text \<open>One turn of \<open>Serve\<close>'s loop or of a connection's goroutine: a connection over the limit is
  answered with \<open>errAgentBusy\<close> and closed, and a failed accept is logged.\<close>

fun serve_step :: "'c serve_state \<Rightarrow> 'c serve_event \<Rightarrow> 'c serve_state" where
  "serve_step s (Accepted c) =
     (case serve_accept s c of
        (True, s') \<Rightarrow> s'
      | (False, s') \<Rightarrow> s'\<lparr>sv_refused := (c, refuseConn) # sv_refused s'\<rparr>)"
| "serve_step s AcceptFailed = s"
| "serve_step s (HandlerDone c) = serve_exit s c"

definition serve_init :: "'c serve_state" where
  "serve_init = \<lparr>sv_slots = 0, sv_conns = [], sv_refused = []\<rparr>"

interpretation conn_pool: bounded_pool serve_accept serve_exit sv_slots defaultMaxConns
  by unfold_locales (auto simp: serve_accept_def serve_exit_def)

lemma serve_step_inv:
  assumes "sv_slots s = length (sv_conns s)" "sv_slots s \<le> defaultMaxConns"
  shows "sv_slots (serve_step s e) = length (sv_conns (serve_step s e)) \<and>
         sv_slots (serve_step s e) \<le> defaultMaxConns"
proof (cases e)
  case (Accepted c)
  then show ?thesis
    using assms conn_pool.step_bounded [OF assms(2), of "Acquire c"]
    by (auto simp: serve_accept_def)
next
  case (HandlerDone c)
  then show ?thesis
    using assms conn_pool.step_bounded [OF assms(2), of "Release c"]
    by (auto simp: serve_exit_def length_remove1)
qed (use assms in simp)

section \<open>Reads of a frame\<close>

type_synonym frame_request = "int \<times> (nat \<Rightarrow> string \<times> bool) \<times> nat"

text \<open>The bytes the decoder gets over a series of reads with no \<open>endFrame\<close> between them.\<close>

fun frame_reads :: "frameReader \<Rightarrow> frame_request list \<Rightarrow> string \<times> frameReader" where
  "frame_reads f [] = ([], f)"
| "frame_reads f ((now, conn_read, len) # rs) =
     (case frame_read now conn_read len f of
        ((d, _), f1) \<Rightarrow> (case frame_reads f1 rs of (ds, f2) \<Rightarrow> (d @ ds, f2)))"

text \<open>A read never returns more bytes than asked for.\<close>

definition honest :: "frame_request \<Rightarrow> bool" where
  "honest r = (\<forall>k. length (fst (fst (snd r) k)) \<le> k)"

lemma frame_read_step:
  assumes "honest (now, cr, len)" "fr_read f \<le> fr_max f" "frame_read now cr len f = ((d, e), f')"
  shows "fr_max f' = fr_max f" "fr_timeout f' = fr_timeout f" "fr_read f' = fr_read f + length d"
    "fr_read f' \<le> fr_max f'"
    "fr_armed f' = (fr_armed f \<or> hasFrameByte d)"
    "fr_deadline f' = (if \<not> fr_armed f \<and> hasFrameByte d then Some (now + fr_timeout f) else fr_deadline f)"
proof -
  let ?k = "min len (fr_max f - fr_read f)"
  obtain d' e' where c: "cr ?k = (d', e')" by force
  have l: "length d' \<le> ?k" using assms(1) c by (metis honest_def fst_conv snd_conv)
  define f1 where "f1 = (if \<not> fr_armed f \<and> hasFrameByte d'
    then f\<lparr>fr_armed := True, fr_deadline := Some (now + fr_timeout f)\<rparr> else f)"
  have r: "d = [] \<and> f' = f \<or> fr_read f < fr_max f \<and> d = d' \<and> f' = f1\<lparr>fr_read := fr_read f1 + length d'\<rparr>"
    using assms(3) c unfolding frame_read_def Let_def f1_def [symmetric]
    by (auto simp: case_prod_unfold f1_def [symmetric] split: if_splits)
  have nil: "\<not> hasFrameByte []" by (simp add: hasFrameByte_def)
  from r show "fr_max f' = fr_max f" "fr_timeout f' = fr_timeout f" "fr_read f' = fr_read f + length d"
    "fr_armed f' = (fr_armed f \<or> hasFrameByte d)"
    "fr_deadline f' = (if \<not> fr_armed f \<and> hasFrameByte d then Some (now + fr_timeout f) else fr_deadline f)"
    by (auto simp: f1_def nil)
  from r show "fr_read f' \<le> fr_max f'"
  proof
    assume "d = [] \<and> f' = f"
    then show ?thesis using assms(2) by simp
  next
    assume "fr_read f < fr_max f \<and> d = d' \<and> f' = f1\<lparr>fr_read := fr_read f1 + length d'\<rparr>"
    then show ?thesis using l by (auto simp: f1_def)
  qed
qed

lemma hasFrameByte_append: "hasFrameByte (a @ b) \<longleftrightarrow> hasFrameByte a \<or> hasFrameByte b"
  by (simp add: hasFrameByte_def)

lemma frame_reads_inv:
  assumes "\<forall>r \<in> set rs. honest r" "fr_read f \<le> fr_max f" "frame_reads f rs = (ds, f')"
  shows "fr_read f + length ds = fr_read f' \<and> fr_read f' \<le> fr_max f \<and>
         fr_armed f' = (fr_armed f \<or> hasFrameByte ds) \<and>
         (if \<not> fr_armed f \<and> hasFrameByte ds
          then \<exists>r \<in> set rs. fr_deadline f' = Some (fst r + fr_timeout f)
          else fr_deadline f' = fr_deadline f)"
  using assms
proof (induction rs arbitrary: f ds)
  case Nil
  then show ?case by (simp add: hasFrameByte_def)
next
  case (Cons r rs)
  obtain now cr len where r: "r = (now, cr, len)" by (cases r)
  obtain d e f1 where s: "frame_read now cr len f = ((d, e), f1)" by (metis surj_pair)
  obtain ds' where ds: "frame_reads f1 rs = (ds', f')" "ds = d @ ds'"
    using Cons.prems(3) r s by (auto split: prod.splits)
  have "honest (now, cr, len)" using Cons.prems(1) r by simp
  note st = frame_read_step [OF this Cons.prems(2) s]
  from st Cons.IH [OF _ _ ds(1)] Cons.prems(1) ds(2) r show ?case
    by (auto simp: hasFrameByte_append split: if_splits)
qed

text \<open>The first read of \<open>watchPeer\<close> that ends it decides: bytes of a frame, or a failure not
  caused by the server's own deadline, mean that the peer is gone.\<close>

definition peer_left :: "(string \<times> bool \<times> bool) list \<Rightarrow> bool" where
  "peer_left reads =
     (case dropWhile (\<lambda>(buf, failed, _). \<not> hasFrameByte buf \<and> \<not> failed) reads of
        [] \<Rightarrow> False
      | (buf, _, stopping) # _ \<Rightarrow> hasFrameByte buf \<or> \<not> stopping)"

lemma watchPeer_iff: "watchPeer reads = Some True \<longleftrightarrow> peer_left reads"
  by (induction reads rule: watchPeer.induct) (auto simp: peer_left_def)

fun answered :: "('w, 'p, 'i) conn_event \<Rightarrow> bool" where
  "answered DecodeFails = False"
| "answered (Received w req reads encodes) = (\<not> peer_left reads \<and> encodes)"

lemma conn_loop_answered:
  "conn_loop handlers es = [dispatch handlers w req. Received w req _ _ \<leftarrow> takeWhile answered es]"
proof (induction es)
  case (Cons e es)
  then show ?case by (cases e) (auto simp: dispatchWatched_def watchPeer_iff)
qed simp

lemma restrictSocket_result:
  "snd (restrictSocket groups euid works path grp) = ok \<longleftrightarrow>
   list_all works (fst (restrictSocket groups euid works path grp))"
  by (auto simp: restrictSocket_def split: option.splits)

lemma restrictSocket_inode:
  assumes "restrictSocket groups euid works path grp = (calls, Inr u)"
  shows "(euid = 0 \<and> lookupGID groups grp = Some g \<longrightarrow>
            foldl (apply_sock works) i calls = i\<lparr>sk_owner := 0, sk_group := g, sk_mode := 0x1B0\<rparr>) \<and>
         (euid \<noteq> 0 \<or> lookupGID groups grp = None \<longrightarrow>
            foldl (apply_sock works) i calls = i\<lparr>sk_mode := 0x180\<rparr>)"
  using assms by (auto simp: restrictSocket_def split: option.splits if_splits)

text \<open>Who may open the socket \<open>Serve\<close> leaves listening.\<close>

definition socket_open_to ::
  "(string \<Rightarrow> string option) \<Rightarrow> int \<Rightarrow> string \<Rightarrow> sock_inode \<Rightarrow> int \<Rightarrow> int set \<Rightarrow> bool" where
  "socket_open_to groups euid serviceGroup i uid gids =
     (uid = 0 \<or> (case (euid = 0, lookupGID groups serviceGroup) of
                   (True, Some gid) \<Rightarrow> gid \<in> gids
                 | _ \<Rightarrow> uid = sk_owner i))"

lemma mode_bits:
  "bit (0x1B0 :: 32 word) 7" "bit (0x1B0 :: 32 word) 4" "\<not> bit (0x1B0 :: 32 word) 1"
  "bit (0x180 :: 32 word) 7" "\<not> bit (0x180 :: 32 word) 4" "\<not> bit (0x180 :: 32 word) 1"
  by simp_all

lemma Serve_start_ok:
  assumes "Serve_start groups euid works mkdir listen path grp i = (Inr u, sock)"
  shows "\<exists>i'. sock = Some i' \<and>
    (if euid = 0 \<and> lookupGID groups grp \<noteq> None
     then i' = i\<lparr>sk_owner := 0, sk_group := the (lookupGID groups grp), sk_mode := 0x1B0\<rparr>
     else i' = i\<lparr>sk_mode := 0x180\<rparr>)"
proof -
  from assms obtain calls where c: "restrictSocket groups euid works path grp = (calls, ok)"
    and s: "sock = Some (foldl (apply_sock works) i calls)"
    by (auto simp: Serve_start_def split: if_splits prod.splits sum.splits)
  from s restrictSocket_inode [OF c, of "the (lookupGID groups grp)" i] show ?thesis by auto
qed

lemma may_connect_iff:
  assumes "Serve_start groups euid works mkdir listen path grp i = (Inr u, Some i')"
  shows "may_connect i' uid gids \<longleftrightarrow> socket_open_to groups euid grp i uid gids"
  using Serve_start_ok [OF assms] mode_bits
  by (auto simp: may_connect_def socket_open_to_def split: if_splits option.splits bool.splits)

section \<open>Properties\<close>

text \<open>(C22) However connections arrive and end, the agent serves at most sixteen at once and the
  tokens in the slot channel are exactly the connections being served: no token leaks. A
  connection that arrives while fewer than sixteen are open is served; one that arrives at the
  limit is sent the busy reply and closed, and leaves the connections being served alone. One
  that ends gives its place back.\<close>

theorem conn_slots_bounded:
  "let s = run serve_step serve_init es; s' = serve_step s (Accepted c) in
   sv_slots s = length (sv_conns s) \<and> length (sv_conns s) \<le> 16 \<and>
   (if length (sv_conns s) < 16
    then sv_conns s' = c # sv_conns s \<and> sv_refused s' = sv_refused s
    else sv_conns s' = sv_conns s \<and> sv_refused s' = (c, refuseConn) # sv_refused s) \<and>
   length (sv_conns (serve_step s (HandlerDone c))) =
     length (sv_conns s) - (if c \<in> set (sv_conns s) then 1 else 0)"
proof -
  let ?s = "run serve_step serve_init es"
  have "sv_slots ?s = length (sv_conns ?s) \<and> sv_slots ?s \<le> defaultMaxConns"
    by (rule run_invariant [where I = "\<lambda>s. sv_slots s = length (sv_conns s) \<and> sv_slots s \<le> defaultMaxConns"])
       (use serve_step_inv in \<open>auto simp: serve_init_def\<close>)
  then show ?thesis
    by (simp add: serve_accept_def serve_exit_def defaultMaxConns_def length_remove1 Let_def)
qed

text \<open>(C23) One request frame is bounded in size and in time. From the idle state, whatever the
  peer sends and however the reads are cut, the decoder gets at most \<open>max\<close> bytes before the
  frame ends; the read deadline is armed exactly when something other than white space has
  arrived, and then lies the timeout after one of the reads, so an idle connection is never
  timed out and a half-sent frame always is.\<close>

theorem frame_bounded:
  assumes "\<forall>r \<in> set rs. honest r" "frame_reads (endFrame f) rs = (ds, f')"
    and "fr_armed f \<longleftrightarrow> fr_deadline f \<noteq> None"
  shows "length ds \<le> fr_max f \<and>
         (hasFrameByte ds \<longrightarrow> (\<exists>r \<in> set rs. fr_deadline f' = Some (fst r + fr_timeout f))) \<and>
         (\<not> hasFrameByte ds \<longrightarrow> fr_deadline f' = None)"
proof -
  have e: "fr_read (endFrame f) = 0" "fr_max (endFrame f) = fr_max f" "\<not> fr_armed (endFrame f)"
    "fr_deadline (endFrame f) = None" "fr_timeout (endFrame f) = fr_timeout f"
    using assms(3) by (auto simp: endFrame_def)
  from frame_reads_inv [OF assms(1) _ assms(2)] e show ?thesis by (auto split: if_splits)
qed

definition demo_frame :: frameReader where
  "demo_frame = \<lparr>fr_max = 8, fr_timeout = 30, fr_read = 3, fr_armed = True, fr_deadline = Some 5\<rparr>"

definition demo_reads :: "frame_request list" where
  "demo_reads = [(100, (\<lambda>k. (take k ''  '', False)), 4), (110, (\<lambda>k. (take k ''{}'', False)), 4)]"

lemma demo_frame_reads:
  "frame_reads (endFrame demo_frame) demo_reads =
     (''  {}'', \<lparr>fr_max = 8, fr_timeout = 30, fr_read = 4, fr_armed = True, fr_deadline = Some 140\<rparr>)"
  by (simp add: demo_frame_def demo_reads_def endFrame_def frame_read_def hasFrameByte_def)

theorem frame_bounded_witness:
  "length ''  {}'' \<le> (8 :: nat) \<and> hasFrameByte ''  {}''"
  using frame_bounded [of demo_reads, OF _ demo_frame_reads]
  by (simp add: demo_reads_def demo_frame_def honest_def hasFrameByte_def)

text \<open>The time a handler may run is never more than fifteen minutes, whatever the caller
  asks for, and a request for up to 292 years is honoured up to that ceiling.\<close>

theorem requestedTimeout_bounds:
  "requestedTimeout ms \<le> 15 * Minute \<and>
   (0 < ms \<and> ms \<le> 9223372036854 \<longrightarrow> requestedTimeout ms = min (ms * Millisecond) (15 * Minute))"
proof
  show "requestedTimeout ms \<le> 15 * Minute"
    by (simp add: requestedTimeout_def maxRequestedTimeout_def Let_def)
  show "0 < ms \<and> ms \<le> 9223372036854 \<longrightarrow> requestedTimeout ms = min (ms * Millisecond) (15 * Minute)"
    by (auto simp: requestedTimeout_def maxRequestedTimeout_def Let_def wrap64_id in_int64_def)
qed

theorem requestedTimeout_bounds_witness:
  "requestedTimeout 1500 = 1500000000 \<and> requestedTimeout 3600000 = 900000000000"
  using requestedTimeout_bounds [of 1500] requestedTimeout_bounds [of 3600000] by simp

text \<open>(C24) Past that, the multiplication wraps: a caller that asks for the next larger value up
  to twice as much is not clamped to the ceiling but treated as if it had asked for
  nothing, and the handler runs under its own default.\<close>

theorem requestedTimeout_overflow:
  assumes "9223372036855 \<le> ms" "ms \<le> 18446744073709" "rq_JSONRPC req = ''2.0''"
    and "rq_TimeoutMS req = ms" "handlers (rq_Method req) = Some h"
  shows "requestedTimeout ms < 0 \<and>
         dispatch handlers w req =
           (case h w None (rq_Params req) of
              Inl e \<Rightarrow> \<lparr>rs_Result = None, rs_Error = Some \<lparr>re_Code = -32000, re_Message = e\<rparr>, rs_ID = rq_ID req\<rparr>
            | Inr v \<Rightarrow> \<lparr>rs_Result = Some v, rs_Error = None, rs_ID = rq_ID req\<rparr>)"
proof -
  have "wrap64 (ms * Millisecond) = ms * Millisecond - 2 ^ 64"
  proof -
    have "0 \<le> ms * Millisecond - 2 ^ 63" "ms * Millisecond - 2 ^ 63 < 2 ^ 64" using assms(1,2) by simp_all
    then have "(ms * Millisecond - 2 ^ 63 + 2 ^ 64) mod 2 ^ 64 = ms * Millisecond - 2 ^ 63"
      by (simp only: mod_add_self2 mod_pos_pos_trivial)
    then show ?thesis by (simp add: wrap64_def algebra_simps)
  qed
  then have "requestedTimeout ms < 0"
    using assms(1,2) by (simp add: requestedTimeout_def maxRequestedTimeout_def Let_def)
  then show ?thesis using assms(3-5) by (simp add: dispatch_def Let_def split: sum.splits)
qed

definition demo_req :: "(unit, int) Request" where
  "demo_req = \<lparr>rq_JSONRPC = ''2.0'', rq_Method = ''ping'', rq_Params = (), rq_ID = 7,
     rq_TimeoutMS = 9223372036855\<rparr>"

definition demo_handlers :: "string \<Rightarrow> (unit, unit, int option) handler option" where
  "demo_handlers m = (if m = ''ping'' then Some (\<lambda>_ d _. Inr d) else None)"

theorem requestedTimeout_overflow_witness:
  "dispatch demo_handlers () demo_req = \<lparr>rs_Result = Some None, rs_Error = None, rs_ID = 7\<rparr>"
  using requestedTimeout_overflow [of 9223372036855 demo_req demo_handlers "\<lambda>_ d _. Inr d"]
  by (simp add: demo_req_def demo_handlers_def)

text \<open>(C25) A connection's responses answer its requests one for one and in order, and exactly up to
  the first that gets none: the first frame that does not decode, the first request whose peer
  went away or spoke out of turn while it was handled, or the first response that could not be
  encoded. Each carries its request's ID and either a result or an error. A peer that is not
  authorised gets none.\<close>

theorem responses_in_order:
  fixes es :: "('w, 'p, 'i) conn_event list"
  shows "handleConn handlers authorized es =
           (if authorized
            then [dispatch handlers w req. Received w req _ _ \<leftarrow> takeWhile answered es] else []) \<and>
         (\<forall>w. \<forall>req :: ('p, 'i) Request. rs_ID (dispatch handlers w req) = rq_ID req \<and>
            (rs_Result (dispatch handlers w req) = None \<longleftrightarrow> rs_Error (dispatch handlers w req) \<noteq> None))"
proof -
  have "rs_ID (dispatch handlers w req) = rq_ID req \<and>
    (rs_Result (dispatch handlers w req) = None \<longleftrightarrow> rs_Error (dispatch handlers w req) \<noteq> None)"
    for w and req :: "('p, 'i) Request"
    by (auto simp: dispatch_def Let_def split: option.splits sum.splits)
  then show ?thesis by (simp add: handleConn_def conn_loop_answered)
qed

text \<open>(C26) The boundary of the agent, from its two checks together. Once \<open>Serve\<close> listens, a process
  that opens the socket and gets a response is root, or runs under the agent's own account, or
  the agent is root, the process is in the service group, and the kernel reports it as the
  service account. Only on a platform that reports no credentials is membership of the service
  group enough; a peer whose credentials cannot be read is never answered.\<close>

theorem only_trusted_accounts_served:
  assumes "Serve_start groups euid works mkdir listen path grp i = (ok, Some i')" "sk_owner i = euid"
    and "may_connect i' uid gids" "\<And>w. peer = PeerUid w \<Longrightarrow> uint w = uid"
    and "handleConn handlers (authorizePeer lookup euid serviceUser peer) es \<noteq> []"
  shows "peer \<noteq> PeerError \<and>
         (uid = 0 \<or> uid = euid \<or>
          (euid = 0 \<and> (\<exists>gid. lookupGID groups grp = Some gid \<and> gid \<in> gids) \<and>
           (lookup serviceUser = Some (Itoa uid) \<or> peer = PeerUnsupported)))"
proof -
  have auth: "authorizePeer lookup euid serviceUser peer"
    using assms(5) by (auto simp: handleConn_def split: if_splits)
  have open_to: "socket_open_to groups euid grp i uid gids"
    using may_connect_iff [OF assms(1)] assms(3) by blast
  have peer: "peer = PeerUid w \<Longrightarrow> uid = 0 \<or> uid = euid \<or> lookup serviceUser = Some (Itoa uid)" for w
    using auth assms(4) by (auto simp: authorizePeer_def Itoa_def split: option.splits if_splits)
  show ?thesis
    using auth peer open_to assms(2)
    by (cases peer) (auto simp: authorizePeer_def socket_open_to_def split: option.splits bool.splits)
qed

lemma Atoi_998: "Atoi ''998'' = AtoiOk 998"
  by code_simp

lemma demo_start:
  "Serve_start (\<lambda>_. Some ''998'') 0 (\<lambda>_. True) True True ''/run/lk.sock'' ''lankeeper''
     \<lparr>sk_owner = 0, sk_group = 0, sk_mode = 0x1FF\<rparr> =
   (ok, Some \<lparr>sk_owner = 0, sk_group = 998, sk_mode = 0x1B0\<rparr>)"
  by (simp add: Serve_start_def restrictSocket_def lookupGID_def Atoi_998)

theorem only_trusted_accounts_served_witness:
  "\<exists>gid. lookupGID (\<lambda>_. Some ''998'') ''lankeeper'' = Some gid \<and> gid \<in> {998 :: int}"
proof -
  have "nat_dec 998 = ''998''" by code_simp
  then have "handleConn demo_handlers (authorizePeer (\<lambda>_. Some ''998'') 0 ''lankeeper'' (PeerUid 998))
               [Received () demo_req [] True] \<noteq> []"
    by (simp add: authorizePeer_def handleConn_def dispatchWatched_def)
  moreover have "may_connect \<lparr>sk_owner = 0, sk_group = 998, sk_mode = 0x1B0\<rparr> 998 {998}"
    by (simp add: may_connect_def mode_bits)
  ultimately show ?thesis
    using only_trusted_accounts_served [OF demo_start, of 998 "{998}" "PeerUid 998"] by auto
qed

text \<open>(C27) The socket fails closed, whatever calls the kernel refuses. If \<open>Serve\<close> reports an error
  while it starts, nothing is left listening; it reports none only if every call it made to
  restrict the socket was carried out. Then the socket belongs to root and the service group
  with mode 0660, or keeps its owner and group with mode 0600, and a process can connect exactly
  if it is root, a member of the service group in the first case, or the socket's owner in the
  second.\<close>

theorem restrictSocket_fails_closed:
  "case Serve_start groups euid works mkdir listen path grp i of
     (Inl _, sock) \<Rightarrow> sock = None
   | (Inr _, sock) \<Rightarrow>
       list_all works (fst (restrictSocket groups euid works path grp)) \<and>
       (\<exists>i'. sock = Some i' \<and>
         ((sk_mode i' = 0x1B0 \<and> sk_owner i' = 0 \<and> euid = 0 \<and> lookupGID groups grp = Some (sk_group i')) \<or>
          (sk_mode i' = 0x180 \<and> sk_owner i' = sk_owner i \<and> sk_group i' = sk_group i)) \<and>
         (\<forall>uid gids. may_connect i' uid gids \<longleftrightarrow> socket_open_to groups euid grp i uid gids))"
proof -
  obtain r sock where st: "Serve_start groups euid works mkdir listen path grp i = (r, sock)" by force
  show ?thesis
  proof (cases r)
    case (Inl e)
    with st show ?thesis
      by (auto simp: Serve_start_def split: if_splits prod.splits sum.splits)
  next
    case (Inr u)
    have "snd (restrictSocket groups euid works path grp) = ok"
      using st Inr by (auto simp: Serve_start_def split: if_splits prod.splits sum.splits)
    with Serve_start_ok [of groups euid works mkdir listen path grp i u sock] may_connect_iff
      st Inr restrictSocket_result [of groups euid works path grp] show ?thesis
      by (fastforce split: if_splits)
  qed
qed

end
