(* ===== verification/AgentClient.thy ===== *)
theory AgentClient
  imports AgentServer
begin

text \<open>
  The agent's client (\<open>internal/agent/client.go\<close>), the side of the socket in the web
  process, together with the stream it shares with the server. The stream is a sequential
  pipe and replies are not matched on their ID, so what matters is which replies are still
  unread when a call ends: \<open>cn_queue\<close> holds them.

  A connection the server refuses (its slots are taken) holds the busy reply and has been closed
  by the server; the server may also close one that it served, when the agent restarts. Nothing
  sent on a closed connection is answered. IDs are \<open>Some n\<close> for a request's number and \<open>None\<close> for JSON null.
\<close>

section \<open>State\<close>

type_synonym 'r reply = "('r, int option) Response"

record 'r conn =
  cn_closed :: bool
  cn_queue :: "'r reply list"

record 'r client =
  cl_conn :: "'r conn option"
  cl_nextID :: int

datatype dial = DialFails | DialServed | DialRefused

text \<open>What the environment decides during one call: the machine the handler finds, whether the
  context is done at the two checks and after a failure, how dialling goes, whether the
  parameters can be marshalled, whether the request could be written and a reply read before
  the deadline on a live connection and on one the server has closed, and the time left of the
  caller's deadline, if it has one.\<close>

record 'w call_env =
  ce_world :: 'w
  ce_done_before :: bool
  ce_done_locked :: bool
  ce_done_after :: bool
  ce_dial :: dial
  ce_marshals :: bool
  ce_sends :: bool
  ce_receives :: bool
  ce_sends_closed :: bool
  ce_receives_closed :: bool
  ce_remaining :: "int option"

datatype 'r call_result =
    CtxDone
  | DialError
  | MarshalError
  | SendError
  | ReadError
  | RpcFailure int string
  | CallOk 'r

section \<open>Operations\<close>

definition ensureConn :: "dial \<Rightarrow> 'r client \<Rightarrow> bool \<times> 'r client" where
  "ensureConn d c =
     (case cl_conn c of
        Some _ \<Rightarrow> (True, c)
      | None \<Rightarrow>
          (case d of
             DialFails \<Rightarrow> (False, c)
           | DialServed \<Rightarrow> (True, c\<lparr>cl_conn := Some \<lparr>cn_closed = False, cn_queue = []\<rparr>\<rparr>)
           | DialRefused \<Rightarrow> (True, c\<lparr>cl_conn := Some \<lparr>cn_closed = True, cn_queue = [refuseConn]\<rparr>\<rparr>)))"

definition newRequest :: "string \<Rightarrow> 'p \<Rightarrow> 'r client \<Rightarrow> ('p, int option) Request \<times> 'r client" where
  "newRequest method params c =
     (let n = wrap64 (cl_nextID c + 1) in
      (\<lparr>rq_JSONRPC = ''2.0'', rq_Method = method, rq_Params = params, rq_ID = Some n, rq_TimeoutMS = 0\<rparr>,
       c\<lparr>cl_nextID := n\<rparr>))"

text \<open>\<open>remaining.Milliseconds()\<close> truncates; the call is only made for a positive remainder.\<close>

definition applyDeadline :: "int option \<Rightarrow> ('p, 'i) Request \<Rightarrow> ('p, 'i) Request" where
  "applyDeadline remaining req =
     (case remaining of
        None \<Rightarrow> req
      | Some ns \<Rightarrow> if ns > 0 then req\<lparr>rq_TimeoutMS := ns div Millisecond\<rparr> else req)"

definition client_close :: "'r client \<Rightarrow> 'r client" where
  "client_close c = c\<lparr>cl_conn := None\<rparr>"

definition failCall :: "bool \<Rightarrow> 'r call_result \<Rightarrow> 'r client \<Rightarrow> 'r call_result \<times> 'r client" where
  "failCall ctx_done err c = ((if ctx_done then CtxDone else err), client_close c)"

text \<open>The server's end of a written request: a served connection will carry its response, a
  closed one carries nothing more.\<close>

definition deliver ::
  "(string \<Rightarrow> ('w, 'p, 'r) handler option) \<Rightarrow> 'w \<Rightarrow> ('p, int option) Request \<Rightarrow> 'r conn \<Rightarrow> 'r conn" where
  "deliver handlers w req k =
     (if cn_closed k then k else k\<lparr>cn_queue := cn_queue k @ [dispatch handlers w req]\<rparr>)"

definition roundTrip ::
  "(string \<Rightarrow> ('w, 'p, 'r) handler option) \<Rightarrow> 'w call_env \<Rightarrow> ('p, int option) Request \<Rightarrow> 'r conn \<Rightarrow> 'r client \<Rightarrow>
   ('r call_result + 'r reply) \<times> 'r client" where
  "roundTrip handlers env req k c =
     (if \<not> (if cn_closed k then ce_sends_closed env else ce_sends env)
      then (case failCall (ce_done_after env) SendError c of (e, c') \<Rightarrow> (Inl e, c'))
      else
        (case cn_queue (deliver handlers (ce_world env) req k) of
           resp # rest \<Rightarrow>
             if (if cn_closed k then ce_receives_closed env else ce_receives env)
             then (Inr resp, c\<lparr>cl_conn := Some ((deliver handlers (ce_world env) req k)\<lparr>cn_queue := rest\<rparr>)\<rparr>)
             else (case failCall (ce_done_after env) ReadError c of (e, c') \<Rightarrow> (Inl e, c'))
         | [] \<Rightarrow> (case failCall (ce_done_after env) ReadError c of (e, c') \<Rightarrow> (Inl e, c'))))"

definition Call ::
  "(string \<Rightarrow> ('w, 'p, 'r) handler option) \<Rightarrow> 'w call_env \<Rightarrow> string \<Rightarrow> 'p \<Rightarrow> 'r client \<Rightarrow>
   'r call_result \<times> 'r client" where
  "Call handlers env method params c =
     (if ce_done_before env then (CtxDone, c)
      else if ce_done_locked env then (CtxDone, c)
      else
        (case ensureConn (ce_dial env) c of
           (False, c1) \<Rightarrow> (DialError, c1)
         | (True, c1) \<Rightarrow>
             if \<not> ce_marshals env then (MarshalError, c1)
             else
               (case (newRequest method params c1, cl_conn c1) of
                  ((req, c2), Some k) \<Rightarrow>
                    (case roundTrip handlers env (applyDeadline (ce_remaining env) req) k c2 of
                       (Inl e, c3) \<Rightarrow> (e, c3)
                     | (Inr resp, c3) \<Rightarrow>
                         ((case rs_Error resp of
                             Some err \<Rightarrow> RpcFailure (re_Code err) (re_Message err)
                           | None \<Rightarrow> (case rs_Result resp of Some r \<Rightarrow> CallOk r | None \<Rightarrow> ReadError)), c3))
                | ((req, c2), None) \<Rightarrow> (DialError, c2))))"

definition client_init :: "'r client" where
  "client_init = \<lparr>cl_conn = None, cl_nextID = 0\<rparr>"

section \<open>No reply is left for the next caller\<close>

definition client_inv :: "'r client \<Rightarrow> bool" where
  "client_inv c =
     (\<forall>k. cl_conn c = Some k \<longrightarrow> cn_queue k = [] \<or> (cn_closed k \<and> cn_queue k = [refuseConn]))"

text \<open>A result that answers this request, or says that no answer was had.\<close>

definition own_result ::
  "(string \<Rightarrow> ('w, 'p, 'r) handler option) \<Rightarrow> 'w \<Rightarrow> string \<Rightarrow> 'p \<Rightarrow> 'r call_result \<Rightarrow> bool" where
  "own_result handlers w method params res =
     (case res of
        CallOk r \<Rightarrow> \<exists>h d. handlers method = Some h \<and> h w d params = Inr r
      | RpcFailure code msg \<Rightarrow>
          (code = -32000 \<and> msg = errAgentBusy) \<or>
          (code = -32601 \<and> handlers method = None) \<or>
          (code = -32000 \<and> (\<exists>h d. handlers method = Some h \<and> h w d params = Inl msg))
      | _ \<Rightarrow> True)"

lemma client_inv_init: "client_inv client_init"
  by (simp add: client_inv_def client_init_def)

lemma client_inv_close: "client_inv (client_close c)"
  by (simp add: client_inv_def client_close_def)

lemma ensureConn_inv:
  assumes "client_inv c" "ensureConn d c = (True, c1)"
  shows "client_inv c1 \<and> (\<exists>k. cl_conn c1 = Some k)"
  using assms by (auto simp: ensureConn_def client_inv_def split: option.splits dial.splits)

lemma dispatch_own:
  assumes "rq_JSONRPC req = ''2.0''"
  shows "rs_Error (dispatch handlers w req) = Some err \<Longrightarrow>
           own_result handlers w (rq_Method req) (rq_Params req) (RpcFailure (re_Code err) (re_Message err))"
    and "rs_Result (dispatch handlers w req) = Some r \<Longrightarrow>
           own_result handlers w (rq_Method req) (rq_Params req) (CallOk r)"
  using assms
  by (auto simp: dispatch_def own_result_def Let_def split: option.splits sum.splits if_splits)

lemma dispatch_has_answer:
  "rs_Error (dispatch handlers w req) = None \<Longrightarrow> \<exists>r. rs_Result (dispatch handlers w req) = Some r"
  by (auto simp: dispatch_def Let_def split: option.splits sum.splits if_splits)

lemma roundTrip_inv:
  assumes "client_inv c" "cl_conn c = Some k" "roundTrip handlers env req k c = (res, c')"
  shows "client_inv c'"
    and "res = Inr resp \<Longrightarrow> resp = dispatch handlers (ce_world env) req \<or> resp = refuseConn"
    and "res = Inl e \<Longrightarrow> e \<in> {CtxDone, SendError, ReadError} \<and> cl_conn c' = None"
proof -
  have q: "cn_queue k = [] \<or> (cn_closed k \<and> cn_queue k = [refuseConn])"
    using assms(1,2) by (simp add: client_inv_def)
  show "client_inv c'"
    using q assms(3) client_inv_close
    by (auto simp: roundTrip_def failCall_def deliver_def client_inv_def client_close_def
        split: list.splits if_splits)
  show "res = Inr resp \<Longrightarrow> resp = dispatch handlers (ce_world env) req \<or> resp = refuseConn"
    using q assms(3)
    by (auto simp: roundTrip_def failCall_def deliver_def split: list.splits if_splits)
  show "res = Inl e \<Longrightarrow> e \<in> {CtxDone, SendError, ReadError} \<and> cl_conn c' = None"
    using assms(3)
    by (auto simp: roundTrip_def failCall_def client_close_def split: list.splits if_splits)
qed

definition call_request :: "'w call_env \<Rightarrow> string \<Rightarrow> 'p \<Rightarrow> 'r client \<Rightarrow> ('p, int option) Request" where
  "call_request env method params c =
     applyDeadline (ce_remaining env) (fst (newRequest method params c))"

lemma call_request_fields [simp]:
  "rq_JSONRPC (call_request env m p c) = ''2.0''"
  "rq_Method (call_request env m p c) = m"
  "rq_Params (call_request env m p c) = p"
  by (simp_all add: call_request_def newRequest_def applyDeadline_def Let_def split: option.splits)

definition answer :: "'r reply \<Rightarrow> 'r call_result" where
  "answer resp =
     (case rs_Error resp of
        Some err \<Rightarrow> RpcFailure (re_Code err) (re_Message err)
      | None \<Rightarrow> (case rs_Result resp of Some r \<Rightarrow> CallOk r | None \<Rightarrow> ReadError))"

lemma answer_own:
  assumes "resp = dispatch handlers w req \<or> resp = refuseConn" "rq_JSONRPC req = ''2.0''"
  shows "own_result handlers w (rq_Method req) (rq_Params req) (answer resp)"
  using assms(1)
proof
  assume r: "resp = dispatch handlers w req"
  show ?thesis
  proof (cases "rs_Error resp")
    case None
    with r dispatch_has_answer [of handlers w req] obtain v where "rs_Result resp = Some v" by auto
    with None r dispatch_own(2) [OF assms(2), of handlers w] show ?thesis by (simp add: answer_def)
  next
    case (Some err)
    with r dispatch_own(1) [OF assms(2), of handlers w] show ?thesis by (simp add: answer_def)
  qed
next
  assume "resp = refuseConn"
  then show ?thesis by (simp add: answer_def refuseConn_def own_result_def)
qed

text \<open>A call that gets as far as the round trip.\<close>

lemma Call_roundTrip:
  assumes "\<not> ce_done_before env" "\<not> ce_done_locked env" "ensureConn (ce_dial env) c = (True, c1)"
    "ce_marshals env" "cl_conn c1 = Some k"
  shows "Call handlers env m p c =
    (case roundTrip handlers env (call_request env m p c1) k (snd (newRequest m p c1)) of
       (Inl e, c3) \<Rightarrow> (e, c3) | (Inr resp, c3) \<Rightarrow> (answer resp, c3))"
  using assms
  by (simp add: Call_def call_request_def answer_def split: prod.splits sum.splits)

lemma newRequest_conn [simp]: "cl_conn (snd (newRequest m p c)) = cl_conn c"
  by (simp add: newRequest_def Let_def)

lemma Call_inv:
  assumes "client_inv c" "Call handlers env m p c = (res, c')"
  shows "client_inv c' \<and> own_result handlers (ce_world env) m p res"
proof (cases "ce_done_before env \<or> ce_done_locked env \<or> \<not> fst (ensureConn (ce_dial env) c) \<or> \<not> ce_marshals env")
  case True
  obtain b c1 where e: "ensureConn (ce_dial env) c = (b, c1)" by force
  have "client_inv c1"
    using assms(1) e by (auto simp: ensureConn_def client_inv_def split: option.splits dial.splits)
  with True assms e show ?thesis
    by (auto simp: Call_def own_result_def split: if_splits bool.splits)
next
  case False
  then obtain c1 where e: "ensureConn (ce_dial env) c = (True, c1)"
    by (metis (full_types) prod.collapse)
  with ensureConn_inv [OF assms(1)] obtain k where i: "client_inv c1" and k: "cl_conn c1 = Some k" by blast
  let ?c2 = "snd (newRequest m p c1)" and ?req = "call_request env m p c1"
  have i2: "client_inv ?c2" "cl_conn ?c2 = Some k" using i k by (simp_all add: client_inv_def)
  obtain r c3 where rt: "roundTrip handlers env ?req k ?c2 = (r, c3)" by force
  have call: "(res, c') = (case r of Inl e \<Rightarrow> e | Inr resp \<Rightarrow> answer resp, c3)"
    using assms(2) Call_roundTrip [OF _ _ e _ k, of handlers m p] False rt by (auto split: sum.splits)
  note inv = roundTrip_inv [OF i2 rt]
  show ?thesis
  proof (cases r)
    case (Inl e)
    with inv(1) inv(3) [OF Inl] call show ?thesis by (auto simp: own_result_def)
  next
    case (Inr resp)
    with answer_own [OF inv(2) [OF Inr]] inv(1) call show ?thesis by simp
  qed
qed

text \<open>What happens to a client: a call, a close, or the agent closing its end of the connection.\<close>

datatype ('w, 'p) client_event = DoCall "'w call_env" string 'p | DoClose | AgentCloses

fun client_step :: "(string \<Rightarrow> ('w, 'p, 'r) handler option) \<Rightarrow> 'r client \<Rightarrow> ('w, 'p) client_event \<Rightarrow> 'r client" where
  "client_step handlers c (DoCall env m p) = snd (Call handlers env m p c)"
| "client_step handlers c DoClose = client_close c"
| "client_step handlers c AgentCloses = c\<lparr>cl_conn := map_option (\<lambda>k. k\<lparr>cn_closed := True\<rparr>) (cl_conn c)\<rparr>"

lemma client_step_inv: "client_inv c \<Longrightarrow> client_inv (client_step handlers c e)"
proof (cases e)
  case AgentCloses
  assume "client_inv c"
  with AgentCloses show ?thesis by (auto simp: client_inv_def)
qed (use Call_inv [of c handlers] client_inv_close in \<open>auto simp: prod_eq_iff\<close>)

lemma client_run_inv: "client_inv (run (client_step handlers) client_init es)"
  by (rule run_invariant [where I = client_inv]) (auto intro: client_inv_init client_step_inv)

section \<open>Properties\<close>


text \<open>A call in good conditions: its context is not done, the agent would serve a new connection,
  and a live connection carries the request and the reply. Nothing is asked of a connection the
  agent has closed.\<close>

definition good_env :: "'w call_env \<Rightarrow> bool" where
  "good_env env = (\<not> ce_done_before env \<and> \<not> ce_done_locked env \<and> ce_dial env = DialServed \<and>
     ce_marshals env \<and> ce_sends env \<and> ce_receives env)"

abbreviation live_conn :: "'r conn" where
  "live_conn \<equiv> \<lparr>cn_closed = False, cn_queue = []\<rparr>"

lemma good_call_served:
  assumes "good_env env" "cl_conn c = None \<or> cl_conn c = Some live_conn"
  shows "fst (Call handlers env m p c) = answer (dispatch handlers (ce_world env) (call_request env m p c)) \<and>
         cl_conn (snd (Call handlers env m p c)) = Some live_conn"
proof -
  obtain c1 where e: "ensureConn (ce_dial env) c = (True, c1)"
    and k: "cl_conn c1 = Some live_conn" and n: "cl_nextID c1 = cl_nextID c"
  proof (cases "cl_conn c")
    case None
    then show ?thesis
      using assms(1) that [of "c\<lparr>cl_conn := Some live_conn\<rparr>"] by (simp add: ensureConn_def good_env_def)
  next
    case (Some k)
    then show ?thesis using assms(2) that [of c] by (simp add: ensureConn_def)
  qed
  have "call_request env m p c1 = call_request env m p c"
    using n by (simp add: call_request_def newRequest_def Let_def)
  with Call_roundTrip [OF _ _ e _ k, of handlers m p] assms(1) show ?thesis
    by (auto simp: good_env_def roundTrip_def deliver_def)
qed

text \<open>A call on a closed connection uses up a reply that was left on it or drops it.\<close>

lemma good_call_closed:
  assumes "good_env env" "cl_conn c = Some k" "cn_closed k"
  shows "cl_conn (snd (Call handlers env m p c)) = None \<or>
         cn_queue k \<noteq> [] \<and> cl_conn (snd (Call handlers env m p c)) = Some (k\<lparr>cn_queue := tl (cn_queue k)\<rparr>)"
proof -
  have e: "ensureConn (ce_dial env) c = (True, c)" using assms(2) by (simp add: ensureConn_def)
  have "Call handlers env m p c =
    (case roundTrip handlers env (call_request env m p c) k (snd (newRequest m p c)) of
       (Inl e, c3) \<Rightarrow> (e, c3) | (Inr resp, c3) \<Rightarrow> (answer resp, c3))"
    using assms(1) by (intro Call_roundTrip [OF _ _ e _ assms(2)]) (simp_all add: good_env_def)
  with assms(3) show ?thesis
    by (cases "cn_queue k") (simp_all add: roundTrip_def deliver_def failCall_def client_close_def)
qed

definition calls_lost :: "'r client \<Rightarrow> nat" where
  "calls_lost c =
     (case cl_conn c of
        None \<Rightarrow> 0
      | Some k \<Rightarrow> if cn_closed k then Suc (length (cn_queue k)) else 0)"

lemma calls_lost_le: "client_inv c \<Longrightarrow> calls_lost c \<le> 2"
  by (auto simp: client_inv_def calls_lost_def split: option.splits)

lemma calls_lost_0:
  assumes "client_inv c" "calls_lost c = 0"
  shows "cl_conn c = None \<or> cl_conn c = Some live_conn"
proof (cases "cl_conn c")
  case (Some k)
  with assms show ?thesis by (cases k) (auto simp: calls_lost_def client_inv_def split: if_splits)
qed simp

lemma good_call_progress:
  assumes "good_env env" "client_inv c"
  shows "calls_lost (snd (Call handlers env m p c)) \<le> calls_lost c - 1"
proof (cases "calls_lost c = 0")
  case True
  with good_call_served [OF assms(1) calls_lost_0 [OF assms(2)], of handlers m p] show ?thesis
    by (simp add: calls_lost_def)
next
  case False
  then obtain k where "cl_conn c = Some k" "cn_closed k"
    by (auto simp: calls_lost_def split: option.splits if_splits)
  with good_call_closed [OF assms(1), of c k handlers m p] show ?thesis
    by (auto simp: calls_lost_def)
qed

text \<open>A sequence of calls, and what the agent's handlers answer to each.\<close>

type_synonym ('w, 'p) call = "'w call_env \<times> string \<times> 'p"

fun call_results ::
  "(string \<Rightarrow> ('w, 'p, 'r) handler option) \<Rightarrow> 'r client \<Rightarrow> ('w, 'p) call list \<Rightarrow> 'r call_result list" where
  "call_results handlers c [] = []"
| "call_results handlers c ((env, m, p) # cs) =
     fst (Call handlers env m p c) # call_results handlers (snd (Call handlers env m p c)) cs"

definition handler_answer ::
  "(string \<Rightarrow> ('w, 'p, 'r) handler option) \<Rightarrow> ('w, 'p) call \<Rightarrow> 'r call_result" where
  "handler_answer handlers = (\<lambda>(env, m, p). answer (dispatch handlers (ce_world env)
     (applyDeadline (ce_remaining env)
       \<lparr>rq_JSONRPC = ''2.0'', rq_Method = m, rq_Params = p, rq_ID = None, rq_TimeoutMS = 0\<rparr>)))"

lemma answer_ignores_ID:
  "answer (dispatch handlers w (req\<lparr>rq_ID := i\<rparr>)) = answer (dispatch handlers w req)"
  by (cases "handlers (rq_Method req)")
     (simp_all add: dispatch_def answer_def Let_def split: sum.split)

lemma handler_answer_request:
  "answer (dispatch handlers (ce_world env) (call_request env m p c)) = handler_answer handlers (env, m, p)"
proof -
  have "(call_request env m p c)\<lparr>rq_ID := None\<rparr> = applyDeadline (ce_remaining env)
      \<lparr>rq_JSONRPC = ''2.0'', rq_Method = m, rq_Params = p, rq_ID = None, rq_TimeoutMS = 0\<rparr>"
    by (cases "ce_remaining env") (simp_all add: call_request_def newRequest_def applyDeadline_def Let_def)
  then show ?thesis
    using answer_ignores_ID [of handlers "ce_world env" None "call_request env m p c"]
    by (simp add: handler_answer_def)
qed

lemma call_results_after_lost:
  assumes "client_inv c" "list_all (\<lambda>call. good_env (fst call)) cs" "calls_lost c \<le> n"
  shows "drop n (call_results handlers c cs) = drop n (map (handler_answer handlers) cs)"
  using assms
proof (induction cs arbitrary: c n)
  case (Cons call cs)
  obtain env m p where call: "call = (env, m, p)" by (cases call)
  let ?c' = "snd (Call handlers env m p c)"
  have g: "good_env env" "list_all (\<lambda>call. good_env (fst call)) cs" using Cons.prems(2) call by auto
  have i: "client_inv ?c'" using client_step_inv [OF Cons.prems(1), of handlers "DoCall env m p"] by simp
  have l: "calls_lost ?c' \<le> n - 1"
    using good_call_progress [OF g(1) Cons.prems(1), of handlers m p] Cons.prems(3) by linarith
  note IH = Cons.IH [OF i g(2) l]
  show ?case
  proof (cases n)
    case 0
    with Cons.prems(3) good_call_served [OF g(1) calls_lost_0 [OF Cons.prems(1)], of handlers m p]
    have "fst (Call handlers env m p c) = handler_answer handlers (env, m, p)"
      by (simp add: handler_answer_request)
    with IH 0 call show ?thesis by simp
  next
    case (Suc n')
    with IH call show ?thesis by simp
  qed
qed simp

text \<open>(C28) A failure does not stick. Whatever happened before, calls refused, cancelled or cut off
  and the agent restarted under an open connection included, once the agent serves connections
  again at most two calls are lost to the connection the client still holds: in a sequence of
  calls in good conditions every call from the third on returns what the agent's handler
  answers to it, and every call of the sequence does when the connection held is not one the
  agent closed.\<close>

theorem client_recovers:
  assumes "list_all (\<lambda>call. good_env (fst call)) cs"
    and "c = run (client_step handlers) client_init history"
  shows "drop 2 (call_results handlers c cs) = drop 2 (map (handler_answer handlers) cs) \<and>
         ((\<forall>k. cl_conn c = Some k \<longrightarrow> \<not> cn_closed k) \<longrightarrow>
          call_results handlers c cs = map (handler_answer handlers) cs)"
proof (intro conjI impI)
  have i: "client_inv c" using assms(2) client_run_inv by blast
  from call_results_after_lost [OF i assms(1) calls_lost_le [OF i]]
  show "drop 2 (call_results handlers c cs) = drop 2 (map (handler_answer handlers) cs)" .
  assume "\<forall>k. cl_conn c = Some k \<longrightarrow> \<not> cn_closed k"
  then have "calls_lost c \<le> 0" by (auto simp: calls_lost_def split: option.splits)
  from call_results_after_lost [OF i assms(1) this]
  show "call_results handlers c cs = map (handler_answer handlers) cs" by simp
qed

definition demo_good :: "unit call_env" where
  "demo_good = \<lparr>ce_world = (), ce_done_before = False, ce_done_locked = False, ce_done_after = False,
     ce_dial = DialServed, ce_marshals = True, ce_sends = True, ce_receives = True,
     ce_sends_closed = True, ce_receives_closed = True, ce_remaining = None\<rparr>"

definition demo_history :: "(unit, unit) client_event list" where
  "demo_history = [DoCall demo_good ''ping'' (), AgentCloses, DoCall demo_good ''ping'' (),
     DoCall (demo_good\<lparr>ce_dial := DialRefused, ce_marshals := False\<rparr>) ''ping'' ()]"

theorem client_recovers_witness:
  "drop 2 (call_results demo_handlers (run (client_step demo_handlers) client_init demo_history)
      [(demo_good, ''ping'', ()), (demo_good, ''ping'', ()), (demo_good, ''ping'', ())]) = [CallOk None]"
proof -
  have "handler_answer demo_handlers (demo_good, ''ping'', ()) = CallOk None"
    by (simp add: handler_answer_def demo_good_def applyDeadline_def dispatch_def demo_handlers_def
        requestedTimeout_def answer_def)
  moreover have "good_env demo_good" by (simp add: demo_good_def good_env_def)
  ultimately show ?thesis
    using client_recovers [of "[(demo_good, ''ping'', ()), (demo_good, ''ping'', ()), (demo_good, ''ping'', ())]"
        _ demo_handlers demo_history]
    by simp
qed

text \<open>(C29) How the two timeouts compose. A caller with a millisecond or more left gets a handler
  whose budget is the whole milliseconds of that time, at most fifteen minutes, so never longer
  than the caller waits. A caller with less than a millisecond left asks for 0 ms, which the
  agent reads as no preference: its handler runs under the handler's own default and outlives
  the caller.\<close>

theorem handler_budget_within_caller:
  assumes "0 < ns" "in_int64 ns" "ce_remaining env = Some ns" "handlers m = Some h"
  shows "\<exists>budget. budget = (if ns < Millisecond then None
                      else Some (min (ns div Millisecond * Millisecond) (15 * Minute))) \<and>
           (\<forall>d. budget = Some d \<longrightarrow> 0 < d \<and> d \<le> ns) \<and>
           answer (dispatch handlers w (call_request env m p c)) =
             (case h w budget p of Inl e \<Rightarrow> RpcFailure (-32000) e | Inr v \<Rightarrow> CallOk v)"
proof (intro exI conjI)
  let ?ms = "ns div Millisecond" and ?req = "call_request env m p c"
  let ?budget = "if ns < Millisecond then None else Some (min (?ms * Millisecond) (15 * Minute))"
  have t: "rq_TimeoutMS ?req = ?ms"
    using assms by (simp add: call_request_def newRequest_def applyDeadline_def Let_def)
  have le: "?ms * Millisecond \<le> ns" by simp
  have ge: "0 \<le> ?ms * Millisecond" using assms(1) by (simp add: pos_imp_zdiv_nonneg_iff)
  have pos: "0 < ?ms \<longleftrightarrow> \<not> ns < Millisecond"
    using assms(1) by (simp add: pos_imp_zdiv_pos_iff not_less)
  show "\<forall>d. ?budget = Some d \<longrightarrow> 0 < d \<and> d \<le> ns" using pos le by auto
  have "in_int64 (?ms * Millisecond)"
    using assms(2) le ge unfolding in_int64_def by (auto intro: order_trans [of _ 0] order_le_less_trans)
  then have "requestedTimeout ?ms = (if ns < Millisecond then 0 else min (?ms * Millisecond) (15 * Minute))"
    using pos by (auto simp: requestedTimeout_def maxRequestedTimeout_def Let_def wrap64_id)
  then have "(if requestedTimeout ?ms > 0 then Some (requestedTimeout ?ms) else None) = ?budget"
    using pos by auto
  then show "answer (dispatch handlers w ?req) =
      (case h w ?budget p of Inl e \<Rightarrow> RpcFailure (-32000) e | Inr v \<Rightarrow> CallOk v)"
    using assms(4) by (simp add: dispatch_def t answer_def Let_def split: sum.splits)
qed simp

theorem handler_budget_within_caller_witness:
  "answer (dispatch demo_handlers () (call_request (demo_good\<lparr>ce_remaining := Some 2500000\<rparr>) ''ping'' ()
     client_init)) = CallOk (Some 2000000) \<and>
   answer (dispatch demo_handlers () (call_request (demo_good\<lparr>ce_remaining := Some 999999\<rparr>) ''ping'' ()
     client_init)) = CallOk None"
  using handler_budget_within_caller [of 2500000 "demo_good\<lparr>ce_remaining := Some 2500000\<rparr>" demo_handlers
      "''ping''" "\<lambda>_ d _. Inr d" "()" "()" client_init]
    handler_budget_within_caller [of 999999 "demo_good\<lparr>ce_remaining := Some 999999\<rparr>" demo_handlers
      "''ping''" "\<lambda>_ d _. Inr d" "()" "()" client_init]
  by (simp add: in_int64_def demo_handlers_def)

end
