(* ===== verification/ConfigTypes.thy ===== *)
theory ConfigTypes
  imports GoStrings
begin

text \<open>
  The configuration of the router, \<open>internal/config/config.go\<close>: one record per struct of the
  source, with the struct's fields in its order under a short prefix (\<open>ic_Role\<close> is the field
  \<open>Role\<close> of \<open>InterfaceConfig\<close>). A \<open>time.Time\<close> is an instant in nanoseconds, \<open>None\<close> for the zero
  time; a Go map is a partial function. The \<open>zero_\<close> values are what \<open>&Config{}\<close> starts from.

  The last section is \<open>internal/config/validate.go\<close>.
\<close>

section \<open>Structs\<close>

record SelfSignedConfig =
  ss_CN :: string
  ss_ValidDays :: int
  ss_SANs :: "string list"

record DNSChallengeConfig =
  dc_Provider :: string
  dc_APIToken :: string

record ACMEConfig =
  acme_Enabled :: bool
  acme_Email :: string
  acme_Domain :: string
  acme_Provider :: string
  acme_DirectoryURL :: string
  acme_DNSChallenge :: DNSChallengeConfig

record MkcertConfig =
  mk_SANs :: "string list"

record TLSConfig =
  tls_Mode :: string
  tls_CertFile :: string
  tls_KeyFile :: string
  tls_SelfSigned :: SelfSignedConfig
  tls_ACME :: ACMEConfig
  tls_Mkcert :: MkcertConfig

record SystemConfig =
  sys_Hostname :: string
  sys_Timezone :: string
  sys_Language :: string
  sys_AdminPasswordHash :: string
  sys_SessionSecret :: string
  sys_Domain :: string
  sys_WebPort :: int
  sys_WebBind :: string
  sys_TLS :: TLSConfig

record InterfaceConfig =
  ic_ID :: string
  ic_Device :: string
  ic_Label :: string
  ic_Role :: string
  ic_Type :: string
  ic_Address :: string
  ic_Address6 :: string
  ic_MTU :: int
  ic_MAC :: string
  ic_CloneMAC :: string
  ic_IPv6 :: string

record VLANDHCPConfig =
  vd_Enabled :: bool
  vd_RangeStart :: string
  vd_RangeEnd :: string
  vd_LeaseTime :: string

record VLANConfig =
  vl_ID :: string
  vl_Parent :: string
  vl_VID :: int
  vl_Label :: string
  vl_Role :: string
  vl_Type :: string
  vl_Address :: string
  vl_MTU :: int
  vl_Isolated :: bool
  vl_DHCP :: VLANDHCPConfig

record HealthCheckTarget =
  hct_Type :: string
  hct_Host :: string
  hct_URL :: string
  hct_ExpectStatus :: int

record HealthCheckAction =
  hca_Type :: string
  hca_Delay :: string

record HealthCheckEntry =
  hce_Name :: string
  hce_Interface :: string
  hce_Targets :: "HealthCheckTarget list"
  hce_Interval :: string
  hce_Timeout :: string
  hce_FailureThreshold :: int
  hce_Actions :: "HealthCheckAction list"
  hce_Cooldown :: string

record HealthCheckConfig =
  hcc_Enabled :: bool
  hcc_Checks :: "HealthCheckEntry list"

record PPPoEConfig =
  pp_Username :: string
  pp_Password :: string
  pp_MTU :: int
  pp_MRU :: int
  pp_LCPEchoInterval :: int
  pp_LCPEchoFailure :: int
  pp_Persist :: bool
  pp_Holdoff :: int
  pp_IPv6CP :: bool

record USBTetherConfig =
  usb_Enabled :: bool
  usb_AutoFailover :: bool
  usb_Interface :: string
  usb_Metric :: int
  usb_NAT :: bool

record TTLFixConfig =
  ttl_Enabled :: bool
  ttl_Value :: int

record OpenPort =
  op_Name :: string
  op_Protocol :: string
  op_Port :: int
  op_Source :: string
  op_Enabled :: bool
  op_RateLimit :: string

record PortForward =
  pf_Name :: string
  pf_Protocol :: string
  pf_ExtPort :: int
  pf_IntIP :: string
  pf_IntPort :: int
  pf_Enabled :: bool

record FirewallRule =
  fr_Name :: string
  fr_Chain :: string
  fr_Action :: string
  fr_SrcIP :: string
  fr_DstIP :: string
  fr_Protocol :: string
  fr_Port :: int
  fr_Interface :: string
  fr_Direction :: string
  fr_Enabled :: bool
  fr_Priority :: int

record FirewallConfig =
  fw_DefaultPolicy :: string
  fw_TTLFix :: TTLFixConfig
  fw_OpenPorts :: "OpenPort list"
  fw_PortForwards :: "PortForward list"
  fw_Rules :: "FirewallRule list"

record QoSConfig =
  qos_Enabled :: bool
  qos_Profile :: string
  qos_UploadKbps :: int
  qos_DownloadKbps :: int
  qos_CongestionControl :: string
  qos_PerDeviceLimits :: "string \<rightharpoonup> int"

record QueryLogConfig =
  ql_Enabled :: bool
  ql_LogPath :: string
  ql_MaxSize :: string
  ql_Retention :: string

record StaticDNSRecord =
  sr_Name :: string
  sr_IP :: string
  sr_LocalZone :: bool
  sr_Source :: string
  sr_DisableAutoPTR :: bool

record DNSConfig =
  dns_Upstream :: "string list"
  dns_DoTUpstream :: string
  dns_EnableDoT :: bool
  dns_EnableDoH :: bool
  dns_DoHUpstream :: string
  dns_BlocklistURLs :: "string list"
  dns_BlocklistUpdateSchedule :: string
  dns_CacheSize :: int
  dns_QueryLog :: QueryLogConfig
  dns_StaticRecords :: "StaticDNSRecord list"

record StaticLease =
  sl_MAC :: string
  sl_IP :: string
  sl_Hostname :: string

record DHCPConfig =
  dhcp_RangeStart :: string
  dhcp_RangeEnd :: string
  dhcp_LeaseTime :: string
  dhcp_Gateway :: string
  dhcp_DNSServer :: string
  dhcp_StaticLeases :: "StaticLease list"

record IPv6WANConfig =
  v6w_AcceptRA :: bool
  v6w_RequestPrefix :: bool
  v6w_PrefixHint :: string
  v6w_RapidCommit :: bool

record IPv6ULAConfig =
  ula_Enabled :: bool
  ula_Prefix :: string

record IPv6LANConfig =
  v6l_Mode :: string
  v6l_ULA :: IPv6ULAConfig
  v6l_RAInterval :: int
  v6l_RDNSS :: bool
  v6l_SubnetMap :: "string \<rightharpoonup> int"

record IPv6TunnelConfig =
  v6t_Provider :: string
  v6t_ServerIPv4 :: string
  v6t_ClientIPv6 :: string
  v6t_RoutedPrefix :: string
  v6t_TunnelID :: string
  v6t_Username :: string
  v6t_UpdateKey :: string
  v6t_AutoUpdate :: bool
  v6t_Device :: string

record IPv6Config =
  v6_Enabled :: string
  v6_Mode :: string
  v6_WAN :: IPv6WANConfig
  v6_LAN :: IPv6LANConfig
  v6_Tunnel :: IPv6TunnelConfig
  v6_Privacy :: bool

record WGClientTunnel =
  wgc_Name :: string
  wgc_Endpoint :: string
  wgc_PrivateKey :: string
  wgc_PublicKey :: string
  wgc_AllowedIPs :: string
  wgc_DNS :: string
  wgc_Table :: int
  wgc_Fwmark :: int
  wgc_Address :: string
  wgc_MTU :: int
  wgc_PresharedKey :: string
  wgc_Keepalive :: int

record WGServerPeer =
  wgp_Name :: string
  wgp_PublicKey :: string
  wgp_PrivateKey :: string
  wgp_PresharedKey :: string
  wgp_AllowedIPs :: string
  wgp_Keepalive :: int
  wgp_Endpoint :: string
  wgp_RemoteSubnets :: "string list"
  wgp_IsSiteToSite :: bool
  wgp_Pending :: bool
  wgp_InviteExpiresAt :: "int option"

record WGServerConfig =
  wgs_Enabled :: bool
  wgs_ListenPort :: int
  wgs_PrivateKey :: string
  wgs_PublicKey :: string
  wgs_Address :: string
  wgs_Address6 :: string
  wgs_DNS :: string
  wgs_PostUp :: string
  wgs_PostDown :: string
  wgs_MTU :: int
  wgs_PublicEndpoint :: string
  wgs_Peers :: "WGServerPeer list"

record VPNConfig =
  vpn_Clients :: "WGClientTunnel list"
  vpn_Server :: WGServerConfig
  vpn_DeviceAssignments :: "string \<rightharpoonup> string"

record OVPNClientConfig =
  ovc_Name :: string
  ovc_ConfigFile :: string
  ovc_RemoteHost :: string
  ovc_RemotePort :: int
  ovc_Protocol :: string
  ovc_Cipher :: string
  ovc_Auth :: string
  ovc_TLSAuth :: bool
  ovc_Username :: string
  ovc_Password :: string
  ovc_Table :: int
  ovc_Fwmark :: int

record OVPNClientEntry =
  ove_Name :: string
  ove_CommonName :: string
  ove_FixedIP :: string
  ove_Enabled :: bool
  ove_IsSiteToSite :: bool
  ove_RemoteSubnets :: "string list"

record OVPNServerConfig =
  ovs_Enabled :: bool
  ovs_Protocol :: string
  ovs_Port :: int
  ovs_Device :: string
  ovs_Subnet :: string
  ovs_Subnet6 :: string
  ovs_DNS :: string
  ovs_Cipher :: string
  ovs_Auth :: string
  ovs_TLSAuth :: bool
  ovs_Compression :: bool
  ovs_MaxClients :: int
  ovs_Keepalive :: string
  ovs_ClientToClient :: bool
  ovs_DuplicateCN :: bool
  ovs_PublicEndpoint :: string
  ovs_Clients :: "OVPNClientEntry list"
  ovs_CCD :: "string \<rightharpoonup> string"

record OpenVPNConfig =
  ovpn_Clients :: "OVPNClientConfig list"
  ovpn_Server :: OVPNServerConfig

record RoutingPolicy =
  rp_Name :: string
  rp_Enabled :: bool
  rp_Priority :: int
  rp_SrcMACs :: "string list"
  rp_SrcIPs :: "string list"
  rp_DstIPs :: "string list"
  rp_DstPorts :: "int list"
  rp_Domains :: "string list"
  rp_Protocol :: string
  rp_Tunnel :: string
  rp_KillSwitch :: bool
  rp_Schedule :: string

record RoutingConfig =
  rt_Policies :: "RoutingPolicy list"

record ShareConfig =
  sh_Name :: string
  sh_Path :: string
  sh_GuestOK :: bool
  sh_ReadOnly :: bool
  sh_ValidUsers :: "string list"

record M3USourceConfig =
  m3u_URL :: string
  m3u_DownloadPath :: string
  m3u_Schedule :: string
  m3u_IncludeGroups :: "string list"
  m3u_ExcludeGroups :: "string list"

record NASConfig =
  nas_Shares :: "ShareConfig list"
  nas_M3USources :: "M3USourceConfig list"

record SyslogServerConfig =
  sls_Enabled :: bool
  sls_ListenUDP :: string
  sls_ListenTCP :: string
  sls_EnableTLS :: bool
  sls_TLSCertFile :: string
  sls_TLSKeyFile :: string
  sls_TLSCAFile :: string
  sls_LogPath :: string
  sls_PerHostDirs :: bool
  sls_MaxRetention :: string

record SyslogClientConfig =
  slc_Enabled :: bool
  slc_RemoteHost :: string
  slc_Protocol :: string
  slc_EnableTLS :: bool
  slc_TLSCAFile :: string
  slc_Facilities :: "string list"

record SyslogConfig =
  slog_Server :: SyslogServerConfig
  slog_Client :: SyslogClientConfig

record NTPServerConfig =
  nts_Enabled :: bool
  nts_ListenAddress :: string
  nts_ListenPort :: int

record NTPClientConfig =
  ntc_Enabled :: bool
  ntc_Sources :: "string list"
  ntc_Fallback :: string

record NTPConfig =
  ntp_Server :: NTPServerConfig
  ntp_Client :: NTPClientConfig
  ntp_RTCSync :: bool
  ntp_AllowSubnets :: "string list"

record RAIDConfig =
  raid_Device :: string
  raid_Level :: int
  raid_Members :: "string list"
  raid_MountPoint :: string

record StorageConfig =
  st_RAID :: RAIDConfig
  st_SMARTCheckInterval :: int

record BackupTarget =
  bt_Type :: string
  bt_Name :: string
  bt_Path :: string
  bt_Endpoint :: string
  bt_Region :: string
  bt_Bucket :: string
  bt_Prefix :: string
  bt_AccessKeyID :: string
  bt_SecretAccessKey :: string
  bt_UsePathStyle :: bool
  bt_Host :: string
  bt_Port :: int
  bt_User :: string
  bt_Password :: string
  bt_KeyPath :: string
  bt_RemoteDir :: string
  bt_HostKeyFingerprint :: string

record BackupHistory =
  bh_StartedAt :: "int option"
  bh_CompletedAt :: "int option"
  bh_Bytes :: int
  bh_Targets :: "string list"
  bh_Status :: string
  bh_Message :: string

record BackupConfig =
  bk_Enabled :: bool
  bk_Schedule :: string
  bk_Passphrase :: string
  bk_Retention :: int
  bk_Targets :: "BackupTarget list"
  bk_LastRun :: "int option"
  bk_LastStatus :: string
  bk_LastError :: string
  bk_History :: "BackupHistory list"

record Config =
  cfg_filePath :: string
  cfg_System :: SystemConfig
  cfg_Interfaces :: "InterfaceConfig list"
  cfg_VLANs :: "VLANConfig list"
  cfg_HealthCheck :: HealthCheckConfig
  cfg_PPPoE :: PPPoEConfig
  cfg_USBTether :: USBTetherConfig
  cfg_Firewall :: FirewallConfig
  cfg_QoS :: QoSConfig
  cfg_DNS :: DNSConfig
  cfg_DHCP :: DHCPConfig
  cfg_IPv6 :: IPv6Config
  cfg_VPN :: VPNConfig
  cfg_OpenVPN :: OpenVPNConfig
  cfg_Routing :: RoutingConfig
  cfg_NAS :: NASConfig
  cfg_Syslog :: SyslogConfig
  cfg_NTP :: NTPConfig
  cfg_Storage :: StorageConfig
  cfg_Backup :: BackupConfig

section \<open>Zero values\<close>

definition zero_SelfSignedConfig :: SelfSignedConfig where
  "zero_SelfSignedConfig = \<lparr>
    ss_CN = [], ss_ValidDays = 0, ss_SANs = []\<rparr>"

definition zero_DNSChallengeConfig :: DNSChallengeConfig where
  "zero_DNSChallengeConfig = \<lparr>
    dc_Provider = [], dc_APIToken = []\<rparr>"

definition zero_ACMEConfig :: ACMEConfig where
  "zero_ACMEConfig = \<lparr>
    acme_Enabled = False, acme_Email = [], acme_Domain = [], acme_Provider = [],
    acme_DirectoryURL = [], acme_DNSChallenge = zero_DNSChallengeConfig\<rparr>"

definition zero_MkcertConfig :: MkcertConfig where
  "zero_MkcertConfig = \<lparr>
    mk_SANs = []\<rparr>"

definition zero_TLSConfig :: TLSConfig where
  "zero_TLSConfig = \<lparr>
    tls_Mode = [], tls_CertFile = [], tls_KeyFile = [],
    tls_SelfSigned = zero_SelfSignedConfig, tls_ACME = zero_ACMEConfig,
    tls_Mkcert = zero_MkcertConfig\<rparr>"

definition zero_SystemConfig :: SystemConfig where
  "zero_SystemConfig = \<lparr>
    sys_Hostname = [], sys_Timezone = [], sys_Language = [], sys_AdminPasswordHash = [],
    sys_SessionSecret = [], sys_Domain = [], sys_WebPort = 0, sys_WebBind = [],
    sys_TLS = zero_TLSConfig\<rparr>"

definition zero_HealthCheckConfig :: HealthCheckConfig where
  "zero_HealthCheckConfig = \<lparr>
    hcc_Enabled = False, hcc_Checks = []\<rparr>"

definition zero_PPPoEConfig :: PPPoEConfig where
  "zero_PPPoEConfig = \<lparr>
    pp_Username = [], pp_Password = [], pp_MTU = 0, pp_MRU = 0, pp_LCPEchoInterval = 0,
    pp_LCPEchoFailure = 0, pp_Persist = False, pp_Holdoff = 0, pp_IPv6CP = False\<rparr>"

definition zero_USBTetherConfig :: USBTetherConfig where
  "zero_USBTetherConfig = \<lparr>
    usb_Enabled = False, usb_AutoFailover = False, usb_Interface = [], usb_Metric = 0,
    usb_NAT = False\<rparr>"

definition zero_TTLFixConfig :: TTLFixConfig where
  "zero_TTLFixConfig = \<lparr>
    ttl_Enabled = False, ttl_Value = 0\<rparr>"

definition zero_FirewallConfig :: FirewallConfig where
  "zero_FirewallConfig = \<lparr>
    fw_DefaultPolicy = [], fw_TTLFix = zero_TTLFixConfig, fw_OpenPorts = [],
    fw_PortForwards = [], fw_Rules = []\<rparr>"

definition zero_QoSConfig :: QoSConfig where
  "zero_QoSConfig = \<lparr>
    qos_Enabled = False, qos_Profile = [], qos_UploadKbps = 0, qos_DownloadKbps = 0,
    qos_CongestionControl = [], qos_PerDeviceLimits = Map.empty\<rparr>"

definition zero_QueryLogConfig :: QueryLogConfig where
  "zero_QueryLogConfig = \<lparr>
    ql_Enabled = False, ql_LogPath = [], ql_MaxSize = [], ql_Retention = []\<rparr>"

definition zero_DNSConfig :: DNSConfig where
  "zero_DNSConfig = \<lparr>
    dns_Upstream = [], dns_DoTUpstream = [], dns_EnableDoT = False, dns_EnableDoH = False,
    dns_DoHUpstream = [], dns_BlocklistURLs = [], dns_BlocklistUpdateSchedule = [],
    dns_CacheSize = 0, dns_QueryLog = zero_QueryLogConfig, dns_StaticRecords = []\<rparr>"

definition zero_DHCPConfig :: DHCPConfig where
  "zero_DHCPConfig = \<lparr>
    dhcp_RangeStart = [], dhcp_RangeEnd = [], dhcp_LeaseTime = [], dhcp_Gateway = [],
    dhcp_DNSServer = [], dhcp_StaticLeases = []\<rparr>"

definition zero_IPv6WANConfig :: IPv6WANConfig where
  "zero_IPv6WANConfig = \<lparr>
    v6w_AcceptRA = False, v6w_RequestPrefix = False, v6w_PrefixHint = [],
    v6w_RapidCommit = False\<rparr>"

definition zero_IPv6ULAConfig :: IPv6ULAConfig where
  "zero_IPv6ULAConfig = \<lparr>
    ula_Enabled = False, ula_Prefix = []\<rparr>"

definition zero_IPv6LANConfig :: IPv6LANConfig where
  "zero_IPv6LANConfig = \<lparr>
    v6l_Mode = [], v6l_ULA = zero_IPv6ULAConfig, v6l_RAInterval = 0, v6l_RDNSS = False,
    v6l_SubnetMap = Map.empty\<rparr>"

definition zero_IPv6TunnelConfig :: IPv6TunnelConfig where
  "zero_IPv6TunnelConfig = \<lparr>
    v6t_Provider = [], v6t_ServerIPv4 = [], v6t_ClientIPv6 = [], v6t_RoutedPrefix = [],
    v6t_TunnelID = [], v6t_Username = [], v6t_UpdateKey = [], v6t_AutoUpdate = False,
    v6t_Device = []\<rparr>"

definition zero_IPv6Config :: IPv6Config where
  "zero_IPv6Config = \<lparr>
    v6_Enabled = [], v6_Mode = [], v6_WAN = zero_IPv6WANConfig, v6_LAN = zero_IPv6LANConfig,
    v6_Tunnel = zero_IPv6TunnelConfig, v6_Privacy = False\<rparr>"

definition zero_WGServerConfig :: WGServerConfig where
  "zero_WGServerConfig = \<lparr>
    wgs_Enabled = False, wgs_ListenPort = 0, wgs_PrivateKey = [], wgs_PublicKey = [],
    wgs_Address = [], wgs_Address6 = [], wgs_DNS = [], wgs_PostUp = [], wgs_PostDown = [],
    wgs_MTU = 0, wgs_PublicEndpoint = [], wgs_Peers = []\<rparr>"

definition zero_VPNConfig :: VPNConfig where
  "zero_VPNConfig = \<lparr>
    vpn_Clients = [], vpn_Server = zero_WGServerConfig, vpn_DeviceAssignments = Map.empty\<rparr>"

definition zero_OVPNServerConfig :: OVPNServerConfig where
  "zero_OVPNServerConfig = \<lparr>
    ovs_Enabled = False, ovs_Protocol = [], ovs_Port = 0, ovs_Device = [], ovs_Subnet = [],
    ovs_Subnet6 = [], ovs_DNS = [], ovs_Cipher = [], ovs_Auth = [], ovs_TLSAuth = False,
    ovs_Compression = False, ovs_MaxClients = 0, ovs_Keepalive = [],
    ovs_ClientToClient = False, ovs_DuplicateCN = False, ovs_PublicEndpoint = [],
    ovs_Clients = [], ovs_CCD = Map.empty\<rparr>"

definition zero_OpenVPNConfig :: OpenVPNConfig where
  "zero_OpenVPNConfig = \<lparr>
    ovpn_Clients = [], ovpn_Server = zero_OVPNServerConfig\<rparr>"

definition zero_RoutingConfig :: RoutingConfig where
  "zero_RoutingConfig = \<lparr>
    rt_Policies = []\<rparr>"

definition zero_NASConfig :: NASConfig where
  "zero_NASConfig = \<lparr>
    nas_Shares = [], nas_M3USources = []\<rparr>"

definition zero_SyslogServerConfig :: SyslogServerConfig where
  "zero_SyslogServerConfig = \<lparr>
    sls_Enabled = False, sls_ListenUDP = [], sls_ListenTCP = [], sls_EnableTLS = False,
    sls_TLSCertFile = [], sls_TLSKeyFile = [], sls_TLSCAFile = [], sls_LogPath = [],
    sls_PerHostDirs = False, sls_MaxRetention = []\<rparr>"

definition zero_SyslogClientConfig :: SyslogClientConfig where
  "zero_SyslogClientConfig = \<lparr>
    slc_Enabled = False, slc_RemoteHost = [], slc_Protocol = [], slc_EnableTLS = False,
    slc_TLSCAFile = [], slc_Facilities = []\<rparr>"

definition zero_SyslogConfig :: SyslogConfig where
  "zero_SyslogConfig = \<lparr>
    slog_Server = zero_SyslogServerConfig, slog_Client = zero_SyslogClientConfig\<rparr>"

definition zero_NTPServerConfig :: NTPServerConfig where
  "zero_NTPServerConfig = \<lparr>
    nts_Enabled = False, nts_ListenAddress = [], nts_ListenPort = 0\<rparr>"

definition zero_NTPClientConfig :: NTPClientConfig where
  "zero_NTPClientConfig = \<lparr>
    ntc_Enabled = False, ntc_Sources = [], ntc_Fallback = []\<rparr>"

definition zero_NTPConfig :: NTPConfig where
  "zero_NTPConfig = \<lparr>
    ntp_Server = zero_NTPServerConfig, ntp_Client = zero_NTPClientConfig,
    ntp_RTCSync = False, ntp_AllowSubnets = []\<rparr>"

definition zero_RAIDConfig :: RAIDConfig where
  "zero_RAIDConfig = \<lparr>
    raid_Device = [], raid_Level = 0, raid_Members = [], raid_MountPoint = []\<rparr>"

definition zero_StorageConfig :: StorageConfig where
  "zero_StorageConfig = \<lparr>
    st_RAID = zero_RAIDConfig, st_SMARTCheckInterval = 0\<rparr>"

definition zero_BackupConfig :: BackupConfig where
  "zero_BackupConfig = \<lparr>
    bk_Enabled = False, bk_Schedule = [], bk_Passphrase = [], bk_Retention = 0,
    bk_Targets = [], bk_LastRun = None, bk_LastStatus = [], bk_LastError = [], bk_History = []\<rparr>"

definition zero_Config :: Config where
  "zero_Config = \<lparr>
    cfg_filePath = [], cfg_System = zero_SystemConfig, cfg_Interfaces = [], cfg_VLANs = [],
    cfg_HealthCheck = zero_HealthCheckConfig, cfg_PPPoE = zero_PPPoEConfig,
    cfg_USBTether = zero_USBTetherConfig, cfg_Firewall = zero_FirewallConfig,
    cfg_QoS = zero_QoSConfig, cfg_DNS = zero_DNSConfig, cfg_DHCP = zero_DHCPConfig,
    cfg_IPv6 = zero_IPv6Config, cfg_VPN = zero_VPNConfig, cfg_OpenVPN = zero_OpenVPNConfig,
    cfg_Routing = zero_RoutingConfig, cfg_NAS = zero_NASConfig,
    cfg_Syslog = zero_SyslogConfig, cfg_NTP = zero_NTPConfig,
    cfg_Storage = zero_StorageConfig, cfg_Backup = zero_BackupConfig\<rparr>"

lemmas zero_defs =
  zero_SelfSignedConfig_def
  zero_DNSChallengeConfig_def
  zero_ACMEConfig_def
  zero_MkcertConfig_def
  zero_TLSConfig_def
  zero_SystemConfig_def
  zero_HealthCheckConfig_def
  zero_PPPoEConfig_def
  zero_USBTetherConfig_def
  zero_TTLFixConfig_def
  zero_FirewallConfig_def
  zero_QoSConfig_def
  zero_QueryLogConfig_def
  zero_DNSConfig_def
  zero_DHCPConfig_def
  zero_IPv6WANConfig_def
  zero_IPv6ULAConfig_def
  zero_IPv6LANConfig_def
  zero_IPv6TunnelConfig_def
  zero_IPv6Config_def
  zero_WGServerConfig_def
  zero_VPNConfig_def
  zero_OVPNServerConfig_def
  zero_OpenVPNConfig_def
  zero_RoutingConfig_def
  zero_NASConfig_def
  zero_SyslogServerConfig_def
  zero_SyslogClientConfig_def
  zero_SyslogConfig_def
  zero_NTPServerConfig_def
  zero_NTPClientConfig_def
  zero_NTPConfig_def
  zero_RAIDConfig_def
  zero_StorageConfig_def
  zero_BackupConfig_def
  zero_Config_def

section \<open>Validation\<close>

definition err_if :: "bool \<Rightarrow> string \<Rightarrow> string list" where
  "err_if b msg = (if b then [msg] else [])"

lemma err_if_Nil_iff [simp]: "err_if b msg = [] \<longleftrightarrow> \<not> b"
  by (simp add: err_if_def)

definition quoted :: "string \<Rightarrow> string" where
  "quoted s = [CHR 0x27] @ s @ [CHR 0x27]"

definition validateSystem :: "Config \<Rightarrow> string list" where
  "validateSystem c =
     err_if (sys_Hostname (cfg_System c) = []) ''system.hostname is required'' @
     err_if (sys_WebPort (cfg_System c) < 1 \<or> sys_WebPort (cfg_System c) > 65535)
       ''system.webPort must be 1-65535'' @
     err_if (sys_Language (cfg_System c) \<noteq> [] \<and> sys_Language (cfg_System c) \<noteq> ''tr'' \<and>
             sys_Language (cfg_System c) \<noteq> ''en'') (''system.language must be '' @ quoted ''tr'' @ '' or '' @ quoted ''en'') @
     err_if (tls_Mode (sys_TLS (cfg_System c)) \<notin> set [''self-signed'', ''mkcert'', ''acme'', []])
       ''system.tls.mode must be self-signed, mkcert, or acme''"

fun validate_interfaces_from :: "nat \<Rightarrow> InterfaceConfig list \<Rightarrow> string list" where
  "validate_interfaces_from i [] = []"
| "validate_interfaces_from i (iface # rest) =
     err_if (ic_ID iface = []) (''interfaces['' @ nat_dec i @ ''].id is required'') @
     err_if (ic_Device iface = []) (''interfaces['' @ nat_dec i @ ''].device is required'') @
     err_if (ic_Role iface \<notin> set [''wan'', ''lan'', ''unused''])
       (''interfaces['' @ nat_dec i @ ''].role must be wan, lan, or unused'') @
     validate_interfaces_from (Suc i) rest"

definition validateInterfaces :: "Config \<Rightarrow> string list" where
  "validateInterfaces c = validate_interfaces_from 0 (cfg_Interfaces c)"

definition validateModes :: "Config \<Rightarrow> string list" where
  "validateModes c =
     err_if (pp_MTU (cfg_PPPoE c) > 0 \<and> (pp_MTU (cfg_PPPoE c) < 68 \<or> pp_MTU (cfg_PPPoE c) > 1500))
       ''pppoe.mtu must be 68-1500'' @
     err_if (v6_Enabled (cfg_IPv6 c) \<notin> set [''auto'', ''on'', ''off'', []])
       ''ipv6.enabled must be auto, on, or off'' @
     err_if (qos_Profile (cfg_QoS c) \<notin> set [''cake'', ''fq_codel'', ''none'', []])
       ''qos.profile must be cake, fq_codel, or none'' @
     err_if (qos_CongestionControl (cfg_QoS c) \<notin> set [''bbr'', ''cubic'', []])
       ''qos.congestionControl must be bbr or cubic''"

fun validate_vlans_from :: "nat \<Rightarrow> VLANConfig list \<Rightarrow> string list" where
  "validate_vlans_from i [] = []"
| "validate_vlans_from i (vlan # rest) =
     err_if (vl_VID vlan < 1 \<or> vl_VID vlan > 4094) (''vlans['' @ nat_dec i @ ''].vid must be 1-4094'') @
     err_if (vl_Parent vlan = []) (''vlans['' @ nat_dec i @ ''].parent is required'') @
     validate_vlans_from (Suc i) rest"

definition validateVLANs :: "Config \<Rightarrow> string list" where
  "validateVLANs c = validate_vlans_from 0 (cfg_VLANs c)"

definition Validate :: "Config \<Rightarrow> string list" where
  "Validate c = validateSystem c @ validateInterfaces c @ validateModes c @ validateVLANs c"

text \<open>What a configuration that validates guarantees to the services.\<close>

lemma validate_interfaces_from_Nil:
  "validate_interfaces_from i xs = [] \<Longrightarrow> x \<in> set xs \<Longrightarrow>
   ic_ID x \<noteq> [] \<and> ic_Device x \<noteq> [] \<and> ic_Role x \<in> set [''wan'', ''lan'', ''unused'']"
  by (induction i xs rule: validate_interfaces_from.induct) (simp, force)

lemma validate_vlans_from_Nil:
  "validate_vlans_from i xs = [] \<Longrightarrow> x \<in> set xs \<Longrightarrow> 1 \<le> vl_VID x \<and> vl_VID x \<le> 4094 \<and> vl_Parent x \<noteq> []"
  by (induction i xs rule: validate_vlans_from.induct) auto

end
