(* ===== verification/GoEncoding.thy ===== *)
theory GoEncoding
  imports GoStrings
begin

text \<open>
  The parts of Go's \<open>encoding/hex\<close> and \<open>encoding/base64\<close> (standard alphabet, padded) the
  program calls, with their round trips.
\<close>

section \<open>Hexadecimal\<close>

definition hex_digit :: "nat \<Rightarrow> char" where
  "hex_digit n = ''0123456789abcdef'' ! n"

definition hex_encode :: "string \<Rightarrow> string" where
  "hex_encode bs = concat (map (\<lambda>b. [hex_digit (of_char b div 16), hex_digit (of_char b mod 16)]) bs)"

definition hex_nibble :: "char \<Rightarrow> nat option" where
  "hex_nibble c =
     (if is_digit c then Some (of_char c - 48)
      else if byte_in 0x61 0x66 c then Some (of_char c - 87)
      else if byte_in 0x41 0x46 c then Some (of_char c - 55)
      else None)"

fun hex_decode :: "string \<Rightarrow> string option" where
  "hex_decode [] = Some []"
| "hex_decode (a # b # s) =
     (case (hex_nibble a, hex_nibble b, hex_decode s) of
        (Some h, Some l, Some r) \<Rightarrow> Some (char_of (16 * h + l) # r)
      | _ \<Rightarrow> None)"
| "hex_decode _ = None"

lemma hex_digits_table: "list_all (\<lambda>n. hex_nibble (hex_digit n) = Some n) [0..<16]"
  by code_simp

lemma hex_nibble_digit: "n < 16 \<Longrightarrow> hex_nibble (hex_digit n) = Some n"
  using hex_digits_table by (simp add: list_all_iff)

lemma of_char_bound: "(of_char (c :: char) :: nat) < 256"
  using nat_of_char_less_256 by simp

lemma hex_decode_encode [simp]: "hex_decode (hex_encode bs) = Some bs"
proof (induction bs)
  case Nil
  then show ?case by (simp add: hex_encode_def)
next
  case (Cons b bs)
  have "hex_nibble (hex_digit (of_char b div 16)) = Some (of_char b div 16)"
    by (rule hex_nibble_digit) (use of_char_bound [of b] in linarith)
  moreover have "hex_nibble (hex_digit (of_char b mod 16)) = Some (of_char b mod 16)"
    by (rule hex_nibble_digit) simp
  moreover have "char_of (16 * (of_char b div 16) + of_char b mod 16 :: nat) = b" by simp
  ultimately show ?case using Cons by (simp add: hex_encode_def)
qed

section \<open>Base64\<close>

definition b64_alphabet :: string where
  "b64_alphabet = ''ABCDEFGHIJKLMNOPQRSTUVWXYZabcdefghijklmnopqrstuvwxyz0123456789+/''"

definition b64_char :: "nat \<Rightarrow> char" where
  "b64_char n = b64_alphabet ! n"

definition b64_val :: "char \<Rightarrow> nat option" where
  "b64_val c =
     (if byte_in 0x41 0x5A c then Some (of_char c - 65)
      else if byte_in 0x61 0x7A c then Some (of_char c - 71)
      else if is_digit c then Some (of_char c + 4)
      else if c = CHR ''+'' then Some 62
      else if c = CHR ''/'' then Some 63
      else None)"

fun b64_encode :: "string \<Rightarrow> string" where
  "b64_encode [] = []"
| "b64_encode [a] =
     (let x = of_char a * 16 in [b64_char (x div 64), b64_char (x mod 64), CHR ''='', CHR ''=''])"
| "b64_encode [a, b] =
     (let x = (of_char a * 256 + of_char b) * 4 in
      [b64_char (x div 4096), b64_char (x div 64 mod 64), b64_char (x mod 64), CHR ''=''])"
| "b64_encode (a # b # c # s) =
     (let x = of_char a * 65536 + of_char b * 256 + of_char c in
      [b64_char (x div 262144), b64_char (x div 4096 mod 64), b64_char (x div 64 mod 64), b64_char (x mod 64)]
      @ b64_encode s)"

fun b64_groups :: "string \<Rightarrow> string option" where
  "b64_groups [] = Some []"
| "b64_groups (a # b # c # d # s) =
     (case (b64_val a, b64_val b, b64_val c, b64_val d) of
        (Some i, Some j, Some k, Some l) \<Rightarrow>
          (let x = i * 262144 + j * 4096 + k * 64 + l in
           case b64_groups s of
             None \<Rightarrow> None
           | Some r \<Rightarrow> Some (char_of (x div 65536) # char_of (x div 256 mod 256) # char_of (x mod 256) # r))
      | (Some i, Some j, Some k, None) \<Rightarrow>
          (if d = CHR ''='' \<and> s = [] then
             let x = i * 4096 + j * 64 + k in Some [char_of (x div 1024), char_of (x div 4 mod 256)]
           else None)
      | (Some i, Some j, None, None) \<Rightarrow>
          (if c = CHR ''='' \<and> d = CHR ''='' \<and> s = [] then
             let x = i * 64 + j in Some [char_of (x div 16)]
           else None)
      | _ \<Rightarrow> None)"
| "b64_groups _ = None"

text \<open>The decoder skips line ends wherever they stand.\<close>

definition b64_decode :: "string \<Rightarrow> string option" where
  "b64_decode s = b64_groups (filter (\<lambda>c. c \<noteq> CHR 0x0A \<and> c \<noteq> CHR 0x0D) s)"

lemma b64_table: "map b64_val b64_alphabet = map Some [0..<64]"
  by code_simp

lemma b64_char_val: "n < 64 \<Longrightarrow> b64_val (b64_char n) = Some n"
proof -
  assume n: "n < 64"
  then have "map b64_val b64_alphabet ! n = Some n" by (simp add: b64_table)
  moreover have "length b64_alphabet = 64" by (simp add: b64_alphabet_def)
  ultimately show "b64_val (b64_char n) = Some n" using n by (simp add: b64_char_def)
qed

lemma b64_val_newline: "b64_val (CHR 0x0A) = None" "b64_val (CHR 0x0D) = None"
  by code_simp+

lemma b64_char_facts:
  assumes "n < 64"
  shows "b64_val (b64_char n) = Some n" "b64_char n \<noteq> CHR 0x0A" "b64_char n \<noteq> CHR 0x0D"
  using b64_char_val [OF assms] b64_val_newline by auto

lemma b64_val_pad: "b64_val (CHR ''='') = None"
  by code_simp

text \<open>The bit groups of one, two and three bytes.\<close>

lemma group1:
  fixes a :: nat
  assumes "a < 256"
  shows "a * 16 div 64 < 64" "a * 16 div 64 * 64 + a * 16 mod 64 = a * 16" "a * 16 div 16 = a"
proof -
  show "a * 16 div 64 < 64" using assms by (intro less_mult_imp_div_less) simp
qed (rule div_mult_mod_eq, simp)

lemma group2:
  fixes a b :: nat
  assumes "a < 256" "b < 256" "x = (a * 256 + b) * 4"
  shows "x div 4096 < 64" "x div 1024 = a" "x div 4 mod 256 = b"
proof -
  show "x div 4096 < 64" using assms by (intro less_mult_imp_div_less) simp
  show "x div 1024 = a" using assms by (intro div_nat_eqI) simp_all
  have "x div 4 = a * 256 + b" using assms by simp
  then show "x div 4 mod 256 = b" using assms(2) by simp
qed

lemma group3:
  fixes a b c :: nat
  assumes "a < 256" "b < 256" "c < 256" "x = a * 65536 + b * 256 + c"
  shows "x div 262144 < 64" "x div 65536 = a" "x div 256 mod 256 = b" "x mod 256 = c"
proof -
  show "x div 262144 < 64" using assms by (intro less_mult_imp_div_less) simp
  show "x div 65536 = a" using assms by (intro div_nat_eqI) simp_all
  have "x div 256 = a * 256 + b" using assms by (intro div_nat_eqI) simp_all
  then show "x div 256 mod 256 = b" using assms(2) by simp
  have "x = c + (a * 256 + b) * 256" using assms(4) by simp
  then show "x mod 256 = c" using assms(3) by (simp only: mod_mult_self1 mod_less)
qed

lemma char_of_mod: "x mod 256 = of_char c \<Longrightarrow> char_of (x :: nat) = c"
  by (metis char_of_mod_256 char_of_char)

lemma join_digits:
  fixes x :: nat
  shows "x div 4096 * 4096 + x div 64 mod 64 * 64 + x mod 64 = x"
    "x div 262144 * 262144 + x div 4096 mod 64 * 4096 + x div 64 mod 64 * 64 + x mod 64 = x"
proof -
  have "x div 64 = x div 4096 * 64 + x div 64 mod 64"
    using div_mult_mod_eq [of "x div 64" 64] by (simp add: div_mult2_eq [symmetric])
  moreover have "x div 4096 = x div 262144 * 64 + x div 4096 mod 64"
    using div_mult_mod_eq [of "x div 4096" 64] by (simp add: div_mult2_eq [symmetric])
  moreover have "x = x div 64 * 64 + x mod 64" by (rule div_mult_mod_eq [symmetric])
  ultimately show "x div 4096 * 4096 + x div 64 mod 64 * 64 + x mod 64 = x"
    "x div 262144 * 262144 + x div 4096 mod 64 * 4096 + x div 64 mod 64 * 64 + x mod 64 = x"
    by linarith+
qed

lemma b64_encode_clean: "filter (\<lambda>c. c \<noteq> CHR 0x0A \<and> c \<noteq> CHR 0x0D) (b64_encode s) = b64_encode s"
proof (induction s rule: b64_encode.induct)
  case (2 a)
  show ?case
    using group1(1) [OF of_char_bound [of a]]
    by (simp only: b64_encode.simps Let_def filter.simps b64_char_facts mod_less_divisor) simp
next
  case (3 a b)
  show ?case
    using group2(1) [OF of_char_bound [of a] of_char_bound [of b] refl]
    by (simp only: b64_encode.simps Let_def filter.simps b64_char_facts mod_less_divisor) simp
next
  case (4 a b c s)
  then show ?case
    using group3(1) [OF of_char_bound [of a] of_char_bound [of b] of_char_bound [of c] refl]
    by (simp only: b64_encode.simps Let_def filter_append filter.simps b64_char_facts mod_less_divisor) simp
qed simp

lemma b64_groups_encode: "b64_groups (b64_encode s) = Some s"
proof (induction s rule: b64_encode.induct)
  case (2 a)
  note g = group1 [OF of_char_bound [of a]]
  define x where "x = (of_char a :: nat) * 16"
  show ?case
    using g unfolding b64_encode.simps Let_def x_def [symmetric]
    by (simp add: b64_char_facts b64_val_pad)
next
  case (3 a b)
  define x where "x = ((of_char a :: nat) * 256 + of_char b) * 4"
  note g = group2 [OF of_char_bound [of a] of_char_bound [of b] x_def]
  show ?case
    using g unfolding b64_encode.simps Let_def x_def [symmetric]
    by (simp add: b64_char_facts b64_val_pad join_digits char_of_mod)
next
  case (4 a b c s)
  define x where "x = (of_char a :: nat) * 65536 + of_char b * 256 + of_char c"
  note g = group3 [OF of_char_bound [of a] of_char_bound [of b] of_char_bound [of c] x_def]
  show ?case
    using g 4 unfolding b64_encode.simps Let_def x_def [symmetric]
    by (simp add: b64_char_facts join_digits char_of_mod)
qed simp

lemma b64_decode_encode [simp]: "b64_decode (b64_encode s) = Some s"
  by (simp add: b64_decode_def b64_encode_clean b64_groups_encode)

end
