(* ===== verification/ConfigStore.thy ===== *)
theory ConfigStore
  imports ConfigTypes GoEncoding GoPath
begin

text \<open>
  How the configuration reaches the disk and comes back: \<open>crypto.go\<close>, \<open>secrets.go\<close> and the
  load and save half of \<open>config.go\<close> in \<open>internal/config\<close>.

  A file system is a map from names to contents. The AEAD cipher, the YAML library and the
  random source are parameters. An operation that can fail in the kernel takes the outcome of
  each call from its environment record; \<open>atomicWrite\<close> returns the operations it performed on the
  disk, in order. What a crash leaves is defined from them: some of them done, the rest not, and
  nothing known of a file whose contents were not synced.
\<close>

type_synonym fs = "string \<rightharpoonup> string"

section \<open>Atomic replacement\<close>

record aw_env =
  aw_tmp :: string
  aw_create :: bool
  aw_write :: "nat option"
  aw_sync :: bool
  aw_close :: bool
  aw_rename :: bool
  aw_remove :: bool

text \<open>\<open>aw_write\<close> is \<open>None\<close> when the write succeeds, otherwise how many bytes reached the file
  before it failed.\<close>

datatype disk_op =
    CreateFile string
  | WriteFile string string
  | SyncFile string
  | RenameFile string string
  | RemoveFile string

text \<open>\<open>fs_op\<close> is what running processes see; \<open>dirty_op\<close> follows the files whose contents may not
  have reached the disk.\<close>

fun fs_op :: "fs \<Rightarrow> disk_op \<Rightarrow> fs" where
  "fs_op s (CreateFile f) = s(f \<mapsto> [])"
| "fs_op s (WriteFile f data) = s(f \<mapsto> data)"
| "fs_op s (SyncFile f) = s"
| "fs_op s (RenameFile f g) = (s(g := s f))(f := None)"
| "fs_op s (RemoveFile f) = s(f := None)"

fun dirty_op :: "string set \<Rightarrow> disk_op \<Rightarrow> string set" where
  "dirty_op D (CreateFile f) = insert f D"
| "dirty_op D (WriteFile f data) = insert f D"
| "dirty_op D (SyncFile f) = D - {f}"
| "dirty_op D (RenameFile f g) = (if f \<in> D then insert g (D - {f}) else D - {f, g})"
| "dirty_op D (RemoveFile f) = D - {f}"

text \<open>What can be found after a crash during or after \<open>ops\<close>: the first few of them have taken effect
  on the disk, as the kernel may hold back later changes to the directory, and a file that was
  not synced by then holds anything or is missing.\<close>

definition after_crash :: "fs \<Rightarrow> disk_op list \<Rightarrow> fs \<Rightarrow> bool" where
  "after_crash s ops t =
     (\<exists>kept lost. ops = kept @ lost \<and> (\<forall>f. f \<notin> run dirty_op {} kept \<longrightarrow> t f = run fs_op s kept f))"

definition aw_fail :: "aw_env \<Rightarrow> string \<Rightarrow> disk_op list \<Rightarrow> string check \<times> disk_op list" where
  "aw_fail env msg ops = (Inl msg, if aw_remove env then ops @ [RemoveFile (aw_tmp env)] else ops)"

definition atomicWrite :: "aw_env \<Rightarrow> string \<Rightarrow> string \<Rightarrow> string check \<times> disk_op list" where
  "atomicWrite env path data =
     (let tmp = aw_tmp env;
          created = [CreateFile tmp];
          written = created @ [WriteFile tmp data];
          synced = written @ [SyncFile tmp];
          renamed = synced @ [RenameFile tmp path] in
      if \<not> aw_create env then (Inl ''create temp file'', [])
      else (case aw_write env of
              Some n \<Rightarrow> aw_fail env ''write temp'' (created @ [WriteFile tmp (take n data)])
            | None \<Rightarrow>
                if \<not> aw_sync env then aw_fail env ''fsync temp'' written
                else if \<not> aw_close env then aw_fail env ''close temp'' synced
                else if \<not> aw_rename env then aw_fail env ''rename temp to config'' synced
                else (ok, renamed)))"

definition aw_ok :: "aw_env \<Rightarrow> bool" where
  "aw_ok env = (aw_create env \<and> aw_write env = None \<and> aw_sync env \<and> aw_close env \<and> aw_rename env)"

lemma atomicWrite_ok_iff: "fst (atomicWrite env path data) = ok \<longleftrightarrow> aw_ok env"
  by (auto simp: atomicWrite_def aw_fail_def aw_ok_def Let_def split: option.splits)

lemma atomicWrite_ok:
  assumes "aw_ok env" "aw_tmp env \<noteq> path"
  shows "run fs_op s (snd (atomicWrite env path data)) = (s(path \<mapsto> data))(aw_tmp env := None)"
  using assms by (auto simp: atomicWrite_def aw_ok_def Let_def fun_eq_iff)

text \<open>Operations on one file, and what a crash during them leaves of the others.\<close>

fun op_on :: "string \<Rightarrow> disk_op \<Rightarrow> bool" where
  "op_on f (CreateFile g) = (g = f)"
| "op_on f (WriteFile g data) = (g = f)"
| "op_on f (SyncFile g) = (g = f)"
| "op_on f (RenameFile g h) = False"
| "op_on f (RemoveFile g) = (g = f)"

lemma op_on_others:
  "list_all (op_on tmp) ops \<Longrightarrow> f \<noteq> tmp \<Longrightarrow>
   run fs_op s ops f = s f \<and> (f \<in> run dirty_op D ops \<longleftrightarrow> f \<in> D)"
proof (induction ops arbitrary: s D)
  case (Cons e ops)
  then show ?case by (cases e) auto
qed simp

lemma after_crash_op_on:
  assumes "list_all (op_on tmp) ops" "after_crash s ops t" "f \<noteq> tmp"
  shows "t f = s f"
proof -
  from assms(2) obtain kept lost where k: "ops = kept @ lost"
      "\<forall>f. f \<notin> run dirty_op {} kept \<longrightarrow> t f = run fs_op s kept f"
    by (auto simp: after_crash_def)
  from k(1) assms(1) have "list_all (op_on tmp) kept" by simp
  from op_on_others [OF this assms(3), of s "{}"] k(2) show ?thesis by auto
qed

lemma after_crash_snoc:
  "after_crash s (ops @ [e]) t \<longleftrightarrow>
   after_crash s ops t \<or> (\<forall>f. f \<notin> run dirty_op {} (ops @ [e]) \<longrightarrow> t f = run fs_op s (ops @ [e]) f)"
proof
  assume "after_crash s (ops @ [e]) t"
  then obtain kept lost where k: "ops @ [e] = kept @ lost"
      "\<forall>f. f \<notin> run dirty_op {} kept \<longrightarrow> t f = run fs_op s kept f"
    by (auto simp: after_crash_def)
  then show "after_crash s ops t \<or> (\<forall>f. f \<notin> run dirty_op {} (ops @ [e]) \<longrightarrow> t f = run fs_op s (ops @ [e]) f)"
    unfolding after_crash_def by (cases lost rule: rev_cases) auto
next
  assume "after_crash s ops t \<or> (\<forall>f. f \<notin> run dirty_op {} (ops @ [e]) \<longrightarrow> t f = run fs_op s (ops @ [e]) f)"
  then show "after_crash s (ops @ [e]) t"
    unfolding after_crash_def by (metis append.assoc append_Nil2)
qed

lemma aw_fail_op_on:
  "list_all (op_on (aw_tmp env)) ops \<Longrightarrow> list_all (op_on (aw_tmp env)) (snd (aw_fail env msg ops))"
  by (simp add: aw_fail_def)

text \<open>A failed replacement touches the temporary file only; a successful one ends with the rename
  of a file that is synced.\<close>

lemma atomicWrite_failed:
  assumes "fst (atomicWrite env path data) \<noteq> ok"
  shows "list_all (op_on (aw_tmp env)) (snd (atomicWrite env path data))"
  using assms by (auto simp: atomicWrite_def Let_def intro!: aw_fail_op_on split: option.splits if_splits)

lemma atomicWrite_succeeded:
  assumes "fst (atomicWrite env path data) = ok"
  shows "\<exists>ops. snd (atomicWrite env path data) = ops @ [RenameFile (aw_tmp env) path] \<and>
    list_all (op_on (aw_tmp env)) ops \<and> run fs_op s ops (aw_tmp env) = Some data \<and> run dirty_op {} ops = {}"
  using assms atomicWrite_ok_iff [of env path data]
  by (intro exI [of _ "[CreateFile (aw_tmp env), WriteFile (aw_tmp env) data, SyncFile (aw_tmp env)]"])
     (auto simp: atomicWrite_def aw_ok_def Let_def)

section \<open>Keys and authenticated encryption\<close>

text \<open>\<open>gcm_Seal\<close> and \<open>gcm_Open\<close> stand for AES-GCM's \<open>Seal\<close> and \<open>Open\<close> under a key and a nonce.\<close>

record aead =
  gcm_Seal :: "string \<Rightarrow> string \<Rightarrow> string \<Rightarrow> string"
  gcm_Open :: "string \<Rightarrow> string \<Rightarrow> string \<Rightarrow> string option"

definition nonceSize :: nat where "nonceSize = 12"

definition valid_key_length :: "string \<Rightarrow> bool" where
  "valid_key_length key = (length key \<in> {16, 24, 32})"

definition Encrypt :: "aead \<Rightarrow> string option \<Rightarrow> string \<Rightarrow> string \<Rightarrow> string + string" where
  "Encrypt A rnd plaintext key =
     (if \<not> valid_key_length key then Inl ''create cipher''
      else (case rnd of
              None \<Rightarrow> Inl ''generate nonce''
            | Some nonce \<Rightarrow> Inr (nonce @ gcm_Seal A key nonce plaintext)))"

definition Decrypt :: "aead \<Rightarrow> string \<Rightarrow> string \<Rightarrow> string + string" where
  "Decrypt A ciphertext key =
     (if \<not> valid_key_length key then Inl ''create cipher''
      else if length ciphertext < nonceSize then Inl ''ciphertext too short''
      else (case gcm_Open A key (take nonceSize ciphertext) (drop nonceSize ciphertext) of
              None \<Rightarrow> Inl ''decrypt''
            | Some p \<Rightarrow> Inr p))"

definition GenerateKey :: "string option \<Rightarrow> string + string" where
  "GenerateKey rnd = (case rnd of None \<Rightarrow> Inl ''generate key'' | Some key \<Rightarrow> Inr key)"

datatype key_error = KeyMissing | KeyBad string

definition LoadKey :: "fs \<Rightarrow> string \<Rightarrow> key_error + string" where
  "LoadKey s path =
     (case s path of
        None \<Rightarrow> Inl KeyMissing
      | Some data \<Rightarrow>
          (case hex_decode data of
             None \<Rightarrow> Inl (KeyBad ''decode key hex'')
           | Some key \<Rightarrow> if length key \<noteq> 32 then Inl (KeyBad ''invalid key length'') else Inr key))"

definition SaveKey :: "aw_env \<Rightarrow> string \<Rightarrow> string \<Rightarrow> fs \<Rightarrow> string check \<times> fs" where
  "SaveKey env path key s =
     (let (r, ops) = atomicWrite env path (hex_encode key) in (r, run fs_op s ops))"

definition secretPrefix :: string where "secretPrefix = ''enc:v1:''"

definition defaultConfigKeyPath :: string where
  "defaultConfigKeyPath = ''/var/lib/lankeeper/credentials/config.key''"

definition configKeyPath :: "string \<Rightarrow> string" where
  "configKeyPath override = (if override \<noteq> [] then override else defaultConfigKeyPath)"

text \<open>What the surroundings of one save decide: the environment override, the random bytes for
  a new key and for the nonce of each field, and the outcome of the calls.\<close>

record key_env =
  ke_override :: string
  ke_rand :: "string option"
  ke_mkdir :: bool
  ke_write :: aw_env
  ke_chmod :: bool

definition loadOrCreateConfigKey :: "key_env \<Rightarrow> fs \<Rightarrow> (string + string) \<times> fs" where
  "loadOrCreateConfigKey env s =
     (let path = configKeyPath (ke_override env) in
      case LoadKey s path of
        Inr key \<Rightarrow> (Inr key, s)
      | Inl (KeyBad e) \<Rightarrow> (Inl e, s)
      | Inl KeyMissing \<Rightarrow>
          (case GenerateKey (ke_rand env) of
             Inl e \<Rightarrow> (Inl e, s)
           | Inr key \<Rightarrow>
               if \<not> ke_mkdir env then (Inl ''create key directory'', s)
               else let (r, s') = SaveKey (ke_write env) path key s in
                    case r of
                      Inl e \<Rightarrow> (Inl e, s')
                    | Inr _ \<Rightarrow> if \<not> ke_chmod env then (Inl ''restrict key file'', s')
                              else (Inr key, s')))"

definition RestoreConfigKey :: "key_env \<Rightarrow> string \<Rightarrow> fs \<Rightarrow> string check \<times> fs" where
  "RestoreConfigKey env encoded s =
     (case hex_decode (TrimSpace encoded) of
        None \<Rightarrow> (Inl ''decode archived key'', s)
      | Some key \<Rightarrow>
          if length key \<noteq> 32 then (Inl ''archived key has the wrong length'', s)
          else let path = configKeyPath (ke_override env) in
               if \<not> ke_mkdir env then (Inl ''create key directory'', s)
               else let (r, s') = SaveKey (ke_write env) path key s in
                    case r of
                      Inl e \<Rightarrow> (Inl e, s')
                    | Inr _ \<Rightarrow> if ke_chmod env then (ok, s') else (Inl ''chmod'', s'))"

definition loadConfigKeyForRead :: "string \<Rightarrow> fs \<Rightarrow> key_error + string" where
  "loadConfigKeyForRead override s = LoadKey s (configKeyPath override)"

section \<open>One secret\<close>

definition isEncrypted :: "string \<Rightarrow> bool" where
  "isEncrypted v = HasPrefix v secretPrefix"

definition encryptSecret :: "aead \<Rightarrow> string option \<Rightarrow> string \<Rightarrow> string \<Rightarrow> string + string" where
  "encryptSecret A rnd plaintext key =
     (if plaintext = [] \<or> isEncrypted plaintext then Inr plaintext
      else (case Encrypt A rnd plaintext key of
              Inl e \<Rightarrow> Inl e
            | Inr ciphertext \<Rightarrow> Inr (secretPrefix @ b64_encode ciphertext)))"

definition decryptSecret :: "aead \<Rightarrow> string \<Rightarrow> string \<Rightarrow> string + string" where
  "decryptSecret A v key =
     (if \<not> isEncrypted v then Inr v
      else (case b64_decode (TrimPrefix v secretPrefix) of
              None \<Rightarrow> Inl ''decode secret''
            | Some raw \<Rightarrow> Decrypt A raw key))"

definition decryptInPlace :: "aead \<Rightarrow> string \<Rightarrow> string \<Rightarrow> string" where
  "decryptInPlace A key field = (case decryptSecret A field key of Inl _ \<Rightarrow> [] | Inr v \<Rightarrow> v)"

section \<open>The secret fields\<close>

text \<open>\<open>secretFields\<close> returns pointers; here it reads the values they point to and \<open>putSecrets\<close>
  writes through them, in the same order.\<close>

definition secretFields :: "Config \<Rightarrow> string list" where
  "secretFields c =
     [bk_Passphrase (cfg_Backup c),
      wgs_PrivateKey (vpn_Server (cfg_VPN c)),
      sys_SessionSecret (cfg_System c),
      dc_APIToken (acme_DNSChallenge (tls_ACME (sys_TLS (cfg_System c))))] @
     concat (map (\<lambda>t. [bt_SecretAccessKey t, bt_Password t]) (bk_Targets (cfg_Backup c))) @
     concat (map (\<lambda>p. [wgp_PrivateKey p, wgp_PresharedKey p]) (wgs_Peers (vpn_Server (cfg_VPN c)))) @
     concat (map (\<lambda>t. [wgc_PrivateKey t, wgc_PresharedKey t]) (vpn_Clients (cfg_VPN c)))"

fun put_pairs :: "('a \<Rightarrow> string \<Rightarrow> string \<Rightarrow> 'a) \<Rightarrow> 'a list \<Rightarrow> string list \<Rightarrow> 'a list" where
  "put_pairs f (x # xs) (u # v # vs) = f x u v # put_pairs f xs vs"
| "put_pairs f xs vs = xs"

definition put_backup :: "string \<Rightarrow> string list \<Rightarrow> BackupConfig \<Rightarrow> BackupConfig" where
  "put_backup p vs b = b\<lparr>bk_Passphrase := p, bk_Targets :=
     put_pairs (\<lambda>t u v. t\<lparr>bt_SecretAccessKey := u, bt_Password := v\<rparr>) (bk_Targets b) vs\<rparr>"

definition put_server :: "string \<Rightarrow> string list \<Rightarrow> WGServerConfig \<Rightarrow> WGServerConfig" where
  "put_server k vs w = w\<lparr>wgs_PrivateKey := k, wgs_Peers :=
     put_pairs (\<lambda>p u v. p\<lparr>wgp_PrivateKey := u, wgp_PresharedKey := v\<rparr>) (wgs_Peers w) vs\<rparr>"

definition put_vpn :: "string \<Rightarrow> string list \<Rightarrow> string list \<Rightarrow> VPNConfig \<Rightarrow> VPNConfig" where
  "put_vpn k ps vs v = v\<lparr>vpn_Server := put_server k ps (vpn_Server v), vpn_Clients :=
     put_pairs (\<lambda>t u w. t\<lparr>wgc_PrivateKey := u, wgc_PresharedKey := w\<rparr>) (vpn_Clients v) vs\<rparr>"

definition put_token :: "string \<Rightarrow> TLSConfig \<Rightarrow> TLSConfig" where
  "put_token k t = t\<lparr>tls_ACME := (tls_ACME t)\<lparr>acme_DNSChallenge :=
     (acme_DNSChallenge (tls_ACME t))\<lparr>dc_APIToken := k\<rparr>\<rparr>\<rparr>"

definition put_system :: "string \<Rightarrow> string \<Rightarrow> SystemConfig \<Rightarrow> SystemConfig" where
  "put_system sec tok y = y\<lparr>sys_SessionSecret := sec, sys_TLS := put_token tok (sys_TLS y)\<rparr>"

definition putSecrets :: "string list \<Rightarrow> Config \<Rightarrow> Config" where
  "putSecrets vs c =
     (let nt = 2 * length (bk_Targets (cfg_Backup c));
          np = 2 * length (wgs_Peers (vpn_Server (cfg_VPN c)));
          vt = drop 4 vs; vp = drop nt vt; vc = drop np vp in
      c\<lparr>cfg_Backup := put_backup (vs ! 0) (take nt vt) (cfg_Backup c),
        cfg_VPN := put_vpn (vs ! 1) (take np vp) vc (cfg_VPN c),
        cfg_System := put_system (vs ! 2) (vs ! 3) (cfg_System c)\<rparr>)"

definition hasSecrets :: "Config \<Rightarrow> bool" where
  "hasSecrets c = list_ex (\<lambda>f. f \<noteq> []) (secretFields c)"

definition hasEncryptedSecrets :: "Config \<Rightarrow> bool" where
  "hasEncryptedSecrets c = list_ex isEncrypted (secretFields c)"

fun encrypt_fields :: "aead \<Rightarrow> (nat \<Rightarrow> string option) \<Rightarrow> string \<Rightarrow> nat \<Rightarrow> string list \<Rightarrow> string + string list" where
  "encrypt_fields A rnd key i [] = Inr []"
| "encrypt_fields A rnd key i (f # fs) =
     (case encryptSecret A (rnd i) f key of
        Inl e \<Rightarrow> Inl ''encrypt secret''
      | Inr v \<Rightarrow> (case encrypt_fields A rnd key (Suc i) fs of Inl e \<Rightarrow> Inl e | Inr vs \<Rightarrow> Inr (v # vs)))"

definition withEncryptedSecrets ::
    "aead \<Rightarrow> (nat \<Rightarrow> string option) \<Rightarrow> key_env \<Rightarrow> Config \<Rightarrow> fs \<Rightarrow> (string + Config) \<times> fs" where
  "withEncryptedSecrets A rnd env cfg s =
     (if \<not> hasSecrets cfg then (Inr cfg, s)
      else (case loadOrCreateConfigKey env s of
              (Inl e, s') \<Rightarrow> (Inl ''credential encryption key'', s')
            | (Inr key, s') \<Rightarrow>
                (case encrypt_fields A rnd key 0 (secretFields cfg) of
                   Inl e \<Rightarrow> (Inl e, s')
                 | Inr vs \<Rightarrow> (Inr (putSecrets vs cfg), s'))))"

definition clearEncryptedSecrets :: "Config \<Rightarrow> Config" where
  "clearEncryptedSecrets c = putSecrets (map (\<lambda>f. if isEncrypted f then [] else f) (secretFields c)) c"

text \<open>\<open>decryptSecretsInPlace\<close> in its order: the backup section, the WireGuard server with the
  private keys of its peers, the other VPN secrets, the session secret and the API token.\<close>

definition decrypt_backup :: "aead \<Rightarrow> string \<Rightarrow> BackupConfig \<Rightarrow> BackupConfig" where
  "decrypt_backup A key b = b\<lparr>
     bk_Passphrase := decryptInPlace A key (bk_Passphrase b),
     bk_Targets := map (\<lambda>t. t\<lparr>bt_SecretAccessKey := decryptInPlace A key (bt_SecretAccessKey t),
       bt_Password := decryptInPlace A key (bt_Password t)\<rparr>) (bk_Targets b)\<rparr>"

definition decrypt_server :: "aead \<Rightarrow> string \<Rightarrow> WGServerConfig \<Rightarrow> WGServerConfig" where
  "decrypt_server A key w = w\<lparr>
     wgs_PrivateKey := decryptInPlace A key (wgs_PrivateKey w),
     wgs_Peers := map (\<lambda>p. p\<lparr>wgp_PrivateKey := decryptInPlace A key (wgp_PrivateKey p)\<rparr>) (wgs_Peers w)\<rparr>"

definition decryptVPNPeerSecrets :: "aead \<Rightarrow> string \<Rightarrow> VPNConfig \<Rightarrow> VPNConfig" where
  "decryptVPNPeerSecrets A key v = v\<lparr>
     vpn_Server := (vpn_Server v)\<lparr>
       wgs_Peers := map (\<lambda>p. p\<lparr>wgp_PresharedKey := decryptInPlace A key (wgp_PresharedKey p)\<rparr>)
         (wgs_Peers (vpn_Server v))\<rparr>,
     vpn_Clients := map (\<lambda>t. t\<lparr>wgc_PrivateKey := decryptInPlace A key (wgc_PrivateKey t),
       wgc_PresharedKey := decryptInPlace A key (wgc_PresharedKey t)\<rparr>) (vpn_Clients v)\<rparr>"

definition decrypt_system :: "aead \<Rightarrow> string \<Rightarrow> SystemConfig \<Rightarrow> SystemConfig" where
  "decrypt_system A key y = y\<lparr>
     sys_SessionSecret := decryptInPlace A key (sys_SessionSecret y),
     sys_TLS := (sys_TLS y)\<lparr>tls_ACME := (tls_ACME (sys_TLS y))\<lparr>
       acme_DNSChallenge := (acme_DNSChallenge (tls_ACME (sys_TLS y)))\<lparr>
         dc_APIToken := decryptInPlace A key (dc_APIToken (acme_DNSChallenge (tls_ACME (sys_TLS y))))\<rparr>\<rparr>\<rparr>\<rparr>"

definition decryptSecretsInPlace :: "aead \<Rightarrow> string \<Rightarrow> fs \<Rightarrow> Config \<Rightarrow> Config" where
  "decryptSecretsInPlace A override s c =
     (if \<not> hasEncryptedSecrets c then c
      else (case loadConfigKeyForRead override s of
              Inl e \<Rightarrow> clearEncryptedSecrets c
            | Inr key \<Rightarrow>
                c\<lparr>cfg_Backup := decrypt_backup A key (cfg_Backup c),
                  cfg_VPN := decryptVPNPeerSecrets A key
                    ((cfg_VPN c)\<lparr>vpn_Server := decrypt_server A key (vpn_Server (cfg_VPN c))\<rparr>),
                  cfg_System := decrypt_system A key (cfg_System c)\<rparr>))"

section \<open>Load and save\<close>

text \<open>\<open>Y\<close> stands for the YAML library on \<open>Config\<close>; it never touches the unexported \<open>filePath\<close>.\<close>

record yaml =
  Marshal :: "Config \<Rightarrow> string option"
  Unmarshal :: "string \<Rightarrow> Config option"

definition DNSSourceUser :: string where "DNSSourceUser = ''user''"
definition DNSSourceDHCPStatic :: string where "DNSSourceDHCPStatic = ''dhcp-static''"

definition migrate_sources :: "Config \<Rightarrow> Config" where
  "migrate_sources c = c\<lparr>cfg_DNS := (cfg_DNS c)\<lparr>dns_StaticRecords :=
     map (\<lambda>r. if sr_Source r = [] then r\<lparr>sr_Source := DNSSourceUser\<rparr> else r)
       (dns_StaticRecords (cfg_DNS c))\<rparr>\<rparr>"

datatype load_error = OpenConfig | ParseConfig | InvalidConfig "string list"

definition Load :: "yaml \<Rightarrow> aead \<Rightarrow> string \<Rightarrow> string \<Rightarrow> fs \<Rightarrow> load_error + Config" where
  "Load Y A override path s =
     (case s path of
        None \<Rightarrow> Inl OpenConfig
      | Some data \<Rightarrow>
          (case Unmarshal Y data of
             None \<Rightarrow> Inl ParseConfig
           | Some cfg \<Rightarrow>
               let cfg2 = decryptSecretsInPlace A override s (migrate_sources cfg);
                   errs = Validate cfg2 in
               if errs \<noteq> [] then Inl (InvalidConfig errs) else Inr (cfg2\<lparr>cfg_filePath := path\<rparr>)))"

definition ValidateBytes :: "yaml \<Rightarrow> string \<Rightarrow> load_error check" where
  "ValidateBytes Y data =
     (case Unmarshal Y data of
        None \<Rightarrow> Inl ParseConfig
      | Some cfg \<Rightarrow> if Validate cfg \<noteq> [] then Inl (InvalidConfig (Validate cfg)) else ok)"

definition Save ::
    "yaml \<Rightarrow> aead \<Rightarrow> (nat \<Rightarrow> string option) \<Rightarrow> key_env \<Rightarrow> aw_env \<Rightarrow> string \<Rightarrow> Config \<Rightarrow> fs \<Rightarrow> string check \<times> fs" where
  "Save Y A rnd kenv wenv path cfg s =
     (case withEncryptedSecrets A rnd kenv cfg s of
        (Inl e, s') \<Rightarrow> (Inl e, s')
      | (Inr toWrite, s') \<Rightarrow>
          (case Marshal Y toWrite of
             None \<Rightarrow> (Inl ''marshal config'', s')
           | Some data \<Rightarrow> let (r, ops) = atomicWrite wenv path data in (r, run fs_op s' ops)))"

definition SetFilePath :: "string \<Rightarrow> Config \<Rightarrow> Config" where
  "SetFilePath path c = c\<lparr>cfg_filePath := path\<rparr>"

definition SaveToFile ::
    "yaml \<Rightarrow> aead \<Rightarrow> (nat \<Rightarrow> string option) \<Rightarrow> key_env \<Rightarrow> aw_env \<Rightarrow> Config \<Rightarrow> fs \<Rightarrow> string check \<times> fs" where
  "SaveToFile Y A rnd kenv wenv c s =
     (if cfg_filePath c = [] then (Inl ''config file path not set'', s)
      else Save Y A rnd kenv wenv (cfg_filePath c) c s)"

section \<open>Records with a list of addressable fields\<close>

locale field_list =
  fixes get :: "'s \<Rightarrow> 'v list" and put :: "'v list \<Rightarrow> 's \<Rightarrow> 's"
  assumes get_put: "length vs = length (get s) \<Longrightarrow> get (put vs s) = vs"
    and put_get: "put (get s) s = s"
    and put_put: "length us = length (get s) \<Longrightarrow> length vs = length (get s) \<Longrightarrow> put vs (put us s) = put vs s"
begin

lemma update_update:
  "put (map g (get (put (map f (get s)) s))) (put (map f (get s)) s) = put (map (g \<circ> f) (get s)) s"
  by (simp add: get_put put_put)

lemma update_id: "(\<And>v. v \<in> set (get s) \<Longrightarrow> f v = v) \<Longrightarrow> put (map f (get s)) s = s"
  using put_get [of s] by (simp add: map_idI)

lemma update_back:
  assumes "length vs = length (get s)" "list_all2 (\<lambda>v w. g w = v) (get s) vs"
  shows "put (map g (get (put vs s))) (put vs s) = s"
proof -
  have "map g vs = get s"
    using assms(2) by (induction rule: list_all2_induct) simp_all
  with assms(1) show ?thesis by (simp add: get_put put_put put_get)
qed

end

lemma put_pairs_lens:
  assumes g: "\<And>x u v. g (f x u v) = u" and h: "\<And>x u v. h (f x u v) = v"
  shows "length vs = 2 * length xs \<Longrightarrow> concat (map (\<lambda>x. [g x, h x]) (put_pairs f xs vs)) = vs"
proof (induction xs arbitrary: vs)
  case (Cons x xs)
  then obtain u v ws where "vs = u # v # ws" by (cases vs; cases "tl vs") auto
  with Cons show ?case by (simp add: g h)
qed simp

lemma put_pairs_get:
  assumes "\<And>x. f x (g x) (h x) = x"
  shows "put_pairs f xs (concat (map (\<lambda>x. [g x, h x]) xs)) = xs"
  using assms by (induction xs) simp_all

lemma put_pairs_map:
  "put_pairs f xs (map d (concat (map (\<lambda>x. [g x, h x]) xs))) = map (\<lambda>x. f x (d (g x)) (d (h x))) xs"
  by (induction xs) simp_all

lemma length_put_pairs [simp]: "length (put_pairs f xs vs) = length xs"
  by (induction f xs vs rule: put_pairs.induct) simp_all

lemma put_pairs_put:
  assumes "\<And>x u v u' v'. f (f x u v) u' v' = f x u' v'"
  shows "length us = length vs \<Longrightarrow> put_pairs f (put_pairs f xs us) vs = put_pairs f xs vs"
proof (induction xs arbitrary: us vs)
  case (Cons x xs)
  then show ?case
    using assms by (cases us; cases "tl us"; cases vs; cases "tl vs") auto
qed simp

lemma length_pairs [simp]: "length (concat (map (\<lambda>x. [g x, h x]) xs)) = 2 * length xs"
  by (induction xs) simp_all

lemmas put_defs = put_backup_def put_server_def put_vpn_def put_token_def put_system_def

lemma split4:
  assumes "length vs = 4 + n"
  shows "vs = vs ! 0 # vs ! 1 # vs ! 2 # vs ! 3 # drop 4 vs"
  using assms by (cases vs; cases "tl vs"; cases "tl (tl vs)"; cases "tl (tl (tl vs))") auto

lemma length_secretFields:
  "length (secretFields c) =
     4 + (2 * length (bk_Targets (cfg_Backup c)) + (2 * length (wgs_Peers (vpn_Server (cfg_VPN c))) +
          2 * length (vpn_Clients (cfg_VPN c))))"
  by (simp add: secretFields_def)

lemma secretFields_put:
  assumes "length vs = length (secretFields c)"
  shows "secretFields (putSecrets vs c) = vs"
proof -
  define nt where "nt = 2 * length (bk_Targets (cfg_Backup c))"
  define np where "np = 2 * length (wgs_Peers (vpn_Server (cfg_VPN c)))"
  define nc where "nc = 2 * length (vpn_Clients (cfg_VPN c))"
  have len: "length vs = 4 + (nt + (np + nc))"
    using assms by (simp add: length_secretFields nt_def np_def nc_def)
  have "secretFields (putSecrets vs c) =
      [vs ! 0, vs ! 1, vs ! 2, vs ! 3] @ take nt (drop 4 vs) @ take np (drop nt (drop 4 vs)) @
      drop np (drop nt (drop 4 vs))"
    unfolding secretFields_def putSecrets_def put_defs Let_def nt_def [symmetric] np_def [symmetric]
    using len by (simp add: put_pairs_lens nt_def np_def nc_def)
  also have "\<dots> = vs ! 0 # vs ! 1 # vs ! 2 # vs ! 3 # drop 4 vs"
    using append_take_drop_id [of nt "drop 4 vs"] append_take_drop_id [of np "drop nt (drop 4 vs)"]
    by simp
  finally show ?thesis using split4 [OF len] by simp
qed

lemma putSecrets_get: "putSecrets (secretFields c) c = c"
  unfolding putSecrets_def secretFields_def put_defs Let_def
  by (simp add: put_pairs_get numeral_3_eq_3)

lemma putSecrets_put:
  assumes "length us = length (secretFields c)" "length vs = length (secretFields c)"
  shows "putSecrets vs (putSecrets us c) = putSecrets vs c"
  unfolding putSecrets_def put_defs Let_def
  using assms by (simp add: put_pairs_put length_secretFields)

interpretation secret_fields: field_list secretFields putSecrets
  by unfold_locales (rule secretFields_put putSecrets_get putSecrets_put; assumption)+

text \<open>The hand-written sequence of decryptions visits exactly the fields of \<open>secretFields\<close>.\<close>

lemma decrypt_parts:
  "decrypt_backup A key b = put_backup (decryptInPlace A key (bk_Passphrase b))
     (map (decryptInPlace A key) (concat (map (\<lambda>t. [bt_SecretAccessKey t, bt_Password t]) (bk_Targets b)))) b"
  "decryptVPNPeerSecrets A key (v\<lparr>vpn_Server := decrypt_server A key (vpn_Server v)\<rparr>) =
     put_vpn (decryptInPlace A key (wgs_PrivateKey (vpn_Server v)))
       (map (decryptInPlace A key)
         (concat (map (\<lambda>p. [wgp_PrivateKey p, wgp_PresharedKey p]) (wgs_Peers (vpn_Server v)))))
       (map (decryptInPlace A key) (concat (map (\<lambda>t. [wgc_PrivateKey t, wgc_PresharedKey t]) (vpn_Clients v)))) v"
  "decrypt_system A key y = put_system (decryptInPlace A key (sys_SessionSecret y))
     (decryptInPlace A key (dc_APIToken (acme_DNSChallenge (tls_ACME (sys_TLS y))))) y"
  unfolding put_pairs_map put_defs decrypt_backup_def decrypt_server_def decryptVPNPeerSecrets_def decrypt_system_def
  by (simp_all add: o_def)

lemma decryptSecretsInPlace_fields:
  assumes "loadConfigKeyForRead override s = Inr key"
  shows "decryptSecretsInPlace A override s c =
     putSecrets (map (decryptInPlace A key) (secretFields c)) c"
proof (cases "hasEncryptedSecrets c")
  case True
  then show ?thesis
    using assms
    by (simp add: decryptSecretsInPlace_def decrypt_parts putSecrets_def secretFields_def map_concat o_def)
next
  case False
  then have "decryptInPlace A key v = v" if "v \<in> set (secretFields c)" for v
    using that by (auto simp: hasEncryptedSecrets_def list_ex_iff decryptInPlace_def decryptSecret_def)
  then show ?thesis
    using False secret_fields.update_id [of c "decryptInPlace A key"] by (simp add: decryptSecretsInPlace_def)
qed

lemma decrypt_fields:
  "decryptSecretsInPlace A override s c =
     putSecrets (map (case loadConfigKeyForRead override s of
                        Inr key \<Rightarrow> decryptInPlace A key
                      | Inl _ \<Rightarrow> (\<lambda>f. if isEncrypted f then [] else f)) (secretFields c)) c"
proof (cases "loadConfigKeyForRead override s")
  case (Inl e)
  show ?thesis
  proof (cases "hasEncryptedSecrets c")
    case True
    with Inl show ?thesis by (simp add: decryptSecretsInPlace_def clearEncryptedSecrets_def)
  next
    case False
    then have "putSecrets (map (\<lambda>f. if isEncrypted f then [] else f) (secretFields c)) c = c"
      by (intro secret_fields.update_id) (auto simp: hasEncryptedSecrets_def list_ex_iff)
    with False Inl show ?thesis by (simp add: decryptSecretsInPlace_def)
  qed
next
  case (Inr key)
  then show ?thesis by (simp add: decryptSecretsInPlace_fields)
qed

section \<open>From memory to disk and back\<close>

lemma isEncrypted_prefix: "isEncrypted (secretPrefix @ v)" "TrimPrefix (secretPrefix @ v) secretPrefix = v"
  by (simp_all add: isEncrypted_def HasPrefix_def TrimPrefix_def)

lemma encryptSecret_decrypts:
  assumes aead: "gcm_Open A key nonce (gcm_Seal A key nonce p) = Some p"
    and n: "rnd = Some nonce" "length nonce = 12" and p: "\<not> isEncrypted p"
    and e: "encryptSecret A rnd p key = Inr w"
  shows "decryptSecret A w key = Inr p"
  using assms
  by (auto simp: encryptSecret_def Encrypt_def decryptSecret_def isEncrypted_prefix Decrypt_def nonceSize_def
      split: if_splits)

lemma encryptSecret_key:
  "encryptSecret A rnd p key = Inr w \<Longrightarrow> w = p \<and> (p = [] \<or> isEncrypted p) \<or> (\<exists>nonce. rnd = Some nonce)"
  by (auto simp: encryptSecret_def Encrypt_def split: if_splits option.splits)

lemma decryptInPlace_clear: "\<not> isEncrypted p \<Longrightarrow> decryptInPlace A key p = p"
  by (simp add: decryptInPlace_def decryptSecret_def)

lemma encrypt_fields_decrypt:
  assumes aead: "\<And>n p. length n = 12 \<Longrightarrow> gcm_Open A key n (gcm_Seal A key n p) = Some p"
    and rnd: "\<And>i n. rnd i = Some n \<Longrightarrow> length n = 12"
  shows "encrypt_fields A rnd key i fs = Inr vs \<Longrightarrow> \<forall>f \<in> set fs. \<not> isEncrypted f \<Longrightarrow>
    list_all2 (\<lambda>v w. decryptInPlace A key w = v) fs vs"
proof (induction fs arbitrary: i vs)
  case (Cons f fs)
  then obtain w ws where w: "encryptSecret A (rnd i) f key = Inr w" "vs = w # ws"
      "encrypt_fields A rnd key (Suc i) fs = Inr ws"
    by (auto split: sum.splits)
  have "decryptInPlace A key w = f"
    using encryptSecret_key [OF w(1)]
  proof
    assume "w = f \<and> (f = [] \<or> isEncrypted f)"
    with Cons.prems show ?thesis by (simp add: decryptInPlace_clear)
  next
    assume "\<exists>nonce. rnd i = Some nonce"
    then obtain nonce where n: "rnd i = Some nonce" ..
    have "decryptSecret A w key = Inr f"
      using encryptSecret_decrypts [OF aead n rnd [OF n] _ w(1)] rnd [OF n] Cons.prems by simp
    then show ?thesis by (simp add: decryptInPlace_def)
  qed
  with Cons.IH [OF w(3)] Cons.prems w(2) show ?case by simp
qed simp

lemma loadOrCreate_readable:
  assumes "loadOrCreateConfigKey env s = (Inr key, s')"
    and "\<And>k. ke_rand env = Some k \<Longrightarrow> length k = 32"
    and "aw_tmp (ke_write env) \<noteq> configKeyPath (ke_override env)"
  shows "LoadKey s' (configKeyPath (ke_override env)) = Inr key \<and> length key = 32"
proof (cases "LoadKey s (configKeyPath (ke_override env))")
  case (Inl e)
  with assms(1) have k: "ke_rand env = Some key"
      "SaveKey (ke_write env) (configKeyPath (ke_override env)) key s = (ok, s')"
    by (auto simp: loadOrCreateConfigKey_def Let_def GenerateKey_def
        split: key_error.splits option.splits if_splits prod.splits sum.splits)
  then have "aw_ok (ke_write env)"
    using atomicWrite_ok_iff [of "ke_write env" "configKeyPath (ke_override env)" "hex_encode key"]
    by (simp add: SaveKey_def split: prod.splits)
  moreover have "s' = run fs_op s (snd (atomicWrite (ke_write env) (configKeyPath (ke_override env)) (hex_encode key)))"
    using k(2) by (auto simp: SaveKey_def split: prod.splits)
  ultimately have "s' (configKeyPath (ke_override env)) = Some (hex_encode key)"
    using assms(3) by (simp add: atomicWrite_ok)
  then show ?thesis using assms(2) k(1) by (simp add: LoadKey_def)
next
  case (Inr k)
  then have "length k = 32" by (auto simp: LoadKey_def split: option.splits if_splits)
  with Inr assms(1) show ?thesis by (auto simp: loadOrCreateConfigKey_def Let_def)
qed

lemma clear_not_encrypted: "\<not> hasSecrets c \<Longrightarrow> \<not> hasEncryptedSecrets c"
  by (auto simp: hasSecrets_def hasEncryptedSecrets_def list_ex_iff isEncrypted_def HasPrefix_def secretPrefix_def)

lemma migrate_filePath: "migrate_sources (c\<lparr>cfg_filePath := p\<rparr>) = (migrate_sources c)\<lparr>cfg_filePath := p\<rparr>"
  by (simp add: migrate_sources_def)

lemma secretFields_migrate [simp]: "secretFields (migrate_sources c) = secretFields c"
  by (simp add: secretFields_def migrate_sources_def)

lemma putSecrets_migrate: "putSecrets vs (migrate_sources c) = migrate_sources (putSecrets vs c)"
  by (simp add: putSecrets_def migrate_sources_def Let_def)

lemma withEncrypted_migrate:
  assumes "withEncryptedSecrets A rnd kenv cfg s = (Inr out, s')"
  shows "withEncryptedSecrets A rnd kenv (migrate_sources cfg) s = (Inr (migrate_sources out), s')"
  using assms
  by (auto simp: withEncryptedSecrets_def hasSecrets_def putSecrets_migrate split: if_splits prod.splits sum.splits)

lemma putSecrets_frame:
  "cfg_DNS (putSecrets vs c) = cfg_DNS c"
  "(putSecrets vs c)\<lparr>cfg_filePath := path\<rparr> = putSecrets vs (c\<lparr>cfg_filePath := path\<rparr>)"
  by (simp_all add: putSecrets_def put_defs Let_def)

lemma secretFields_frame: "secretFields (c\<lparr>cfg_filePath := path\<rparr>) = secretFields c"
  by (simp add: secretFields_def)

lemma decrypt_withEncrypted:
  assumes w: "withEncryptedSecrets A rnd kenv cfg s = (Inr out, s')"
    and aead: "\<And>key n p. length key = 32 \<Longrightarrow> length n = 12 \<Longrightarrow> gcm_Open A key n (gcm_Seal A key n p) = Some p"
    and rnd: "\<And>i n. rnd i = Some n \<Longrightarrow> length n = 12"
    and krand: "\<And>k. ke_rand kenv = Some k \<Longrightarrow> length k = 32"
    and plain: "\<forall>f \<in> set (secretFields cfg). \<not> isEncrypted f"
    and tmp: "aw_tmp (ke_write kenv) \<noteq> configKeyPath (ke_override kenv)"
    and same: "t (configKeyPath (ke_override kenv)) = s' (configKeyPath (ke_override kenv))"
  shows "decryptSecretsInPlace A (ke_override kenv) t (out\<lparr>cfg_filePath := []\<rparr>) = cfg\<lparr>cfg_filePath := []\<rparr> \<and>
    cfg_DNS out = cfg_DNS cfg"
proof (cases "hasSecrets cfg")
  case False
  then have "out = cfg" using w by (simp add: withEncryptedSecrets_def)
  moreover have "\<not> hasEncryptedSecrets (cfg\<lparr>cfg_filePath := []\<rparr>)"
    using clear_not_encrypted [OF False] by (simp add: hasEncryptedSecrets_def secretFields_frame)
  ultimately show ?thesis by (simp add: decryptSecretsInPlace_def)
next
  case True
  with w obtain key vs where k: "loadOrCreateConfigKey kenv s = (Inr key, s')"
      and vs: "encrypt_fields A rnd key 0 (secretFields cfg) = Inr vs" and out: "out = putSecrets vs cfg"
    by (auto simp: withEncryptedSecrets_def split: prod.splits sum.splits)
  have key: "LoadKey s' (configKeyPath (ke_override kenv)) = Inr key" "length key = 32"
    using loadOrCreate_readable [OF k krand tmp] by auto
  then have read: "loadConfigKeyForRead (ke_override kenv) t = Inr key"
    using same by (simp add: loadConfigKeyForRead_def LoadKey_def)
  have l2: "list_all2 (\<lambda>v w. decryptInPlace A key w = v) (secretFields cfg) vs"
    by (rule encrypt_fields_decrypt [OF _ _ vs plain]) (use aead [OF key(2)] rnd in auto)
  show ?thesis
    using secret_fields.update_back [of vs "cfg\<lparr>cfg_filePath := []\<rparr>" "decryptInPlace A key"] l2
      list_all2_lengthD [OF l2]
    by (simp add: out decryptSecretsInPlace_fields [OF read] putSecrets_frame secretFields_frame)
qed

text \<open>A field that is already marked is kept by encryption.\<close>

lemma encrypt_fields_marked:
  "encrypt_fields A rnd key n fs = Inr vs \<Longrightarrow> length vs = length fs \<and>
   (\<forall>i < length fs. isEncrypted (fs ! i) \<longrightarrow> vs ! i = fs ! i)"
proof (induction fs arbitrary: n vs)
  case (Cons f fs)
  then obtain w ws where w: "encryptSecret A (rnd n) f key = Inr w" "vs = w # ws"
      "encrypt_fields A rnd key (Suc n) fs = Inr ws"
    by (auto split: sum.splits)
  from w(1) have "isEncrypted f \<Longrightarrow> w = f" by (simp add: encryptSecret_def)
  with Cons.IH [OF w(3)] w(2) show ?case by (auto simp: less_Suc_eq_0_disj)
qed simp

lemma withEncrypted_field:
  assumes "withEncryptedSecrets A rnd kenv cfg s = (Inr out, s')" "i < length (secretFields cfg)"
    and "isEncrypted (secretFields cfg ! i)"
  shows "secretFields out ! i = secretFields cfg ! i \<and> length (secretFields out) = length (secretFields cfg)"
proof (cases "hasSecrets cfg")
  case True
  with assms(1) obtain key vs where "encrypt_fields A rnd key 0 (secretFields cfg) = Inr vs" "out = putSecrets vs cfg"
    by (auto simp: withEncryptedSecrets_def split: prod.splits sum.splits)
  with encrypt_fields_marked [of A rnd key 0 "secretFields cfg" vs] assms(2,3) show ?thesis
    by (simp add: secretFields_put)
next
  case False
  with assms(1) show ?thesis by (simp add: withEncryptedSecrets_def)
qed

section \<open>Properties\<close>

text \<open>(C9) Replacing a file is safe against a crash at any point. Whatever part of the operations had
  reached the disk, and whatever an unsynced file then holds, the target has its old contents or
  all of the new ones, and no other file but the temporary one differs. After a failed
  replacement the target is as it was, crash or no crash; after a successful one running
  processes see the new contents and no temporary file.\<close>

theorem atomicWrite_crash_safe:
  assumes "aw_tmp env \<noteq> path" "atomicWrite env path data = (r, ops)"
  shows "(\<forall>t. after_crash s ops t \<longrightarrow>
            t path \<in> {s path, Some data} \<and> (\<forall>f. f \<noteq> path \<longrightarrow> f \<noteq> aw_tmp env \<longrightarrow> t f = s f)) \<and>
         (if r = ok
          then run fs_op s ops = (s(path \<mapsto> data))(aw_tmp env := None)
          else (\<forall>t. after_crash s ops t \<longrightarrow> t path = s path) \<and> run fs_op s ops path = s path)"
proof (cases "r = ok")
  case True
  with assms(2) have ok: "fst (atomicWrite env path data) = ok" by simp
  from atomicWrite_succeeded [OF this, of s] assms(2) obtain pre
    where ops: "ops = pre @ [RenameFile (aw_tmp env) path]" and pre: "list_all (op_on (aw_tmp env)) pre"
      and new: "run fs_op s pre (aw_tmp env) = Some data" "run dirty_op {} pre = {}"
    by auto
  have "t path \<in> {s path, Some data} \<and> (\<forall>f. f \<noteq> path \<longrightarrow> f \<noteq> aw_tmp env \<longrightarrow> t f = s f)"
    if crash: "after_crash s ops t" for t
    using crash [unfolded ops after_crash_snoc]
  proof
    assume "after_crash s pre t"
    from after_crash_op_on [OF pre this] assms(1) show ?thesis by auto
  next
    assume "\<forall>f. f \<notin> run dirty_op {} (pre @ [RenameFile (aw_tmp env) path]) \<longrightarrow>
              t f = run fs_op s (pre @ [RenameFile (aw_tmp env) path]) f"
    then have "t f = ((run fs_op s pre)(path \<mapsto> data, aw_tmp env := None)) f" for f
      using new by (simp add: run_append)
    with op_on_others [OF pre, of _ s "{}"] assms(1) show ?thesis by auto
  qed
  moreover have "run fs_op s ops = (s(path \<mapsto> data))(aw_tmp env := None)"
    using atomicWrite_ok [of env path s data] atomicWrite_ok_iff [of env path data] ok assms by simp
  ultimately show ?thesis using True by simp
next
  case False
  with assms(2) atomicWrite_failed [of env path data] have "list_all (op_on (aw_tmp env)) ops" by simp
  with after_crash_op_on [OF this] op_on_others [OF this, of path s "{}"] assms(1) False
  show ?thesis by auto
qed

theorem atomicWrite_crash_safe_witness:
  "run fs_op [''/etc/router.yaml'' \<mapsto> ''old'']
     [CreateFile ''/etc/.config-1.tmp'', WriteFile ''/etc/.config-1.tmp'' ''sys''] ''/etc/router.yaml'' = Some ''old''"
  using atomicWrite_crash_safe [of "\<lparr>aw_tmp = ''/etc/.config-1.tmp'', aw_create = True, aw_write = Some 3,
        aw_sync = True, aw_close = True, aw_rename = True, aw_remove = False\<rparr>" "''/etc/router.yaml''"
        "''system:''" "Inl ''write temp''"
        "[CreateFile ''/etc/.config-1.tmp'', WriteFile ''/etc/.config-1.tmp'' ''sys'']"
        "[''/etc/router.yaml'' \<mapsto> ''old'']"]
  by (simp add: atomicWrite_def aw_fail_def Let_def)

text \<open>(C8) Saving a configuration and loading the file again. If no secret of the configuration
  itself begins with the ciphertext marker, every save that reports success leaves a file system
  from which \<open>Load\<close> returns that configuration with every secret decrypted and every DNS record
  without a source given the source "user"; when the configuration does not validate, \<open>Load\<close> fails
  with exactly its validation errors, for \<open>Save\<close> does not check. The hypotheses on the parameters are
  that AES-GCM opens what it sealed, that the random source fills the buffers it is given, that
  YAML parses what it printed, and that the temporary files have names of their own.\<close>

theorem save_load_roundtrip:
  assumes aead: "\<And>key n p. length key = 32 \<Longrightarrow> length n = 12 \<Longrightarrow> gcm_Open A key n (gcm_Seal A key n p) = Some p"
    and rnd: "\<And>i n. rnd i = Some n \<Longrightarrow> length n = 12"
    and krand: "\<And>k. ke_rand kenv = Some k \<Longrightarrow> length k = 32"
    and yaml: "\<And>c d. Marshal Y c = Some d \<Longrightarrow> Unmarshal Y d = Some (c\<lparr>cfg_filePath := []\<rparr>)"
    and plain: "\<forall>f \<in> set (secretFields cfg). \<not> isEncrypted f"
    and names: "aw_tmp (ke_write kenv) \<noteq> configKeyPath (ke_override kenv)"
      "configKeyPath (ke_override kenv) \<noteq> path" "aw_tmp wenv \<noteq> configKeyPath (ke_override kenv)" "aw_tmp wenv \<noteq> path"
    and saved: "Save Y A rnd kenv wenv path cfg s = (ok, t)"
  shows "Load Y A (ke_override kenv) path t =
         (if Validate (migrate_sources cfg) = [] then Inr ((migrate_sources cfg)\<lparr>cfg_filePath := path\<rparr>)
          else Inl (InvalidConfig (Validate (migrate_sources cfg))))"
proof -
  from saved obtain out s' data where w: "withEncryptedSecrets A rnd kenv cfg s = (Inr out, s')"
      and m: "Marshal Y out = Some data" and a: "fst (atomicWrite wenv path data) = ok"
      and t: "t = run fs_op s' (snd (atomicWrite wenv path data))"
    by (auto simp: Save_def Let_def split: prod.splits sum.splits option.splits)
  have "aw_ok wenv" using atomicWrite_ok_iff [of wenv path data] a by simp
  then have t': "t = (s'(path \<mapsto> data))(aw_tmp wenv := None)"
    using atomicWrite_ok [OF _ names(4)] t by simp
  have "\<forall>f \<in> set (secretFields (migrate_sources cfg)). \<not> isEncrypted f" using plain by simp
  from decrypt_withEncrypted [OF withEncrypted_migrate [OF w] aead rnd krand this names(1), where t = t] names(2,3) t'
  have "decryptSecretsInPlace A (ke_override kenv) t ((migrate_sources out)\<lparr>cfg_filePath := []\<rparr>) =
        (migrate_sources cfg)\<lparr>cfg_filePath := []\<rparr>"
    by simp
  moreover have "Validate (c\<lparr>cfg_filePath := []\<rparr>) = Validate c" for c
    by (simp add: Validate_def validateSystem_def validateInterfaces_def validateModes_def validateVLANs_def)
  ultimately show ?thesis
    using yaml [OF m] names(4) t' by (simp add: Load_def Let_def migrate_filePath)
qed

text \<open>A configuration with a backup passphrase, and a YAML library restricted to it.\<close>

definition sample_config :: "string \<Rightarrow> Config" where
  "sample_config pass = zero_Config\<lparr>
     cfg_System := zero_SystemConfig\<lparr>sys_Hostname := ''gw'', sys_WebPort := 443\<rparr>,
     cfg_Backup := zero_BackupConfig\<lparr>bk_Passphrase := pass\<rparr>\<rparr>"

definition sample_yaml :: yaml where
  "sample_yaml = \<lparr>
     Marshal = (\<lambda>c. let p = bk_Passphrase (cfg_Backup c) in if c = sample_config p then Some p else None),
     Unmarshal = (\<lambda>d. Some (sample_config d))\<rparr>"

definition sample_env :: "string \<Rightarrow> aw_env" where
  "sample_env tmp = \<lparr>aw_tmp = tmp, aw_create = True, aw_write = None, aw_sync = True, aw_close = True,
     aw_rename = True, aw_remove = True\<rparr>"

definition sample_kenv :: key_env where
  "sample_kenv = \<lparr>ke_override = [], ke_rand = Some (replicate 32 (CHR ''k'')), ke_mkdir = True,
     ke_write = sample_env ''/var/lib/lankeeper/credentials/.config-1.tmp'', ke_chmod = True\<rparr>"

definition sample_aead :: aead where
  "sample_aead = \<lparr>gcm_Seal = (\<lambda>k n p. p), gcm_Open = (\<lambda>k n c. Some c)\<rparr>"

lemmas sample_defs = sample_env_def sample_kenv_def sample_aead_def sample_yaml_def configKeyPath_def
  defaultConfigKeyPath_def

lemma sample_fields: "secretFields (sample_config p) = [p, [], [], []]"
  by (simp add: secretFields_def sample_config_def zero_defs)

lemma sample_put: "putSecrets [q, [], [], []] (sample_config p) = sample_config q"
  by (simp add: putSecrets_def put_defs sample_config_def zero_defs Let_def numeral_3_eq_3)

lemma sample_passphrase: "bk_Passphrase (cfg_Backup (sample_config p)) = p"
  by (simp add: sample_config_def zero_defs)

lemma sample_saves:
  "Save sample_yaml sample_aead (\<lambda>_. Some (replicate 12 (CHR ''n''))) sample_kenv
     (sample_env ''/etc/lankeeper/.config-2.tmp'') ''/etc/lankeeper/router.yaml'' (sample_config ''pw'') Map.empty =
   (ok, snd (Save sample_yaml sample_aead (\<lambda>_. Some (replicate 12 (CHR ''n''))) sample_kenv
     (sample_env ''/etc/lankeeper/.config-2.tmp'') ''/etc/lankeeper/router.yaml'' (sample_config ''pw'') Map.empty))"
proof -
  have "hasSecrets (sample_config ''pw'')" by (simp add: hasSecrets_def sample_fields)
  moreover have "\<not> isEncrypted ''pw''" by code_simp
  ultimately show ?thesis
    by (simp add: Save_def withEncryptedSecrets_def loadOrCreateConfigKey_def LoadKey_def GenerateKey_def
        SaveKey_def sample_fields encryptSecret_def Encrypt_def valid_key_length_def sample_put atomicWrite_def
        sample_passphrase Let_def sample_defs)
qed

theorem save_load_roundtrip_witness:
  "Load sample_yaml sample_aead [] ''/etc/lankeeper/router.yaml''
     (snd (Save sample_yaml sample_aead (\<lambda>_. Some (replicate 12 (CHR ''n''))) sample_kenv
        (sample_env ''/etc/lankeeper/.config-2.tmp'') ''/etc/lankeeper/router.yaml'' (sample_config ''pw'') Map.empty)) =
   Inr ((sample_config ''pw'')\<lparr>cfg_filePath := ''/etc/lankeeper/router.yaml''\<rparr>)"
proof -
  have yaml: "Marshal sample_yaml c = Some d \<Longrightarrow> Unmarshal sample_yaml d = Some (c\<lparr>cfg_filePath := []\<rparr>)" for c d
  proof -
    assume "Marshal sample_yaml c = Some d"
    then have "c = sample_config d"
      by (auto simp: sample_yaml_def Let_def split: if_splits)
    then show ?thesis by (simp add: sample_yaml_def sample_config_def zero_defs)
  qed
  have valid: "Validate (sample_config ''pw'') = []"
    by (simp add: Validate_def validateSystem_def validateInterfaces_def validateModes_def validateVLANs_def
        sample_config_def zero_defs)
  have enc: "\<not> isEncrypted ''pw''" "\<not> isEncrypted []" by code_simp+
  have mig: "migrate_sources (sample_config ''pw'') = sample_config ''pw''"
    by (simp add: migrate_sources_def sample_config_def zero_defs)
  have "Load sample_yaml sample_aead (ke_override sample_kenv) ''/etc/lankeeper/router.yaml''
     (snd (Save sample_yaml sample_aead (\<lambda>_. Some (replicate 12 (CHR ''n''))) sample_kenv
        (sample_env ''/etc/lankeeper/.config-2.tmp'') ''/etc/lankeeper/router.yaml'' (sample_config ''pw'') Map.empty)) =
     Inr ((sample_config ''pw'')\<lparr>cfg_filePath := ''/etc/lankeeper/router.yaml''\<rparr>)"
    by (rule trans [OF save_load_roundtrip [OF _ _ _ yaml _ _ _ _ _ sample_saves]])
       (simp_all add: sample_defs sample_fields enc mig valid)
  then show ?thesis by (simp only: sample_kenv_def key_env.simps)
qed

text \<open>(C32) The hand-written sequence in \<open>decryptSecretsInPlace\<close> and the list \<open>secretFields\<close> name the
  same fields: on every configuration, decryption is the update of exactly the listed fields, with
  the readable key by the plaintext or nothing, and without it by clearing what is ciphertext.\<close>

theorem decrypt_visits_secretFields:
  "decryptSecretsInPlace A override s c =
     putSecrets (map (case loadConfigKeyForRead override s of
                        Inr key \<Rightarrow> decryptInPlace A key
                      | Inl _ \<Rightarrow> (\<lambda>f. if isEncrypted f then [] else f)) (secretFields c)) c"
  by (rule decrypt_fields)

text \<open>(C33) A secret that itself begins with the ciphertext marker is not protected and, as a rule, not
  kept. On every save the field is written as it is, in the clear; and the next load, which takes
  the marker at its word, puts in its place what the rest of the text decodes and decrypts to, and
  nothing when it does not decode, does not open under the key, or there is no key to read.\<close>

theorem marked_secret_stored_clear:
  assumes "withEncryptedSecrets A rnd kenv cfg s = (Inr out, s')"
    and "i < length (secretFields cfg)" "secretFields cfg ! i = secretPrefix @ rest"
  shows "secretFields out ! i = secretPrefix @ rest \<and>
         secretFields (decryptSecretsInPlace A override t out) ! i =
           (case (loadConfigKeyForRead override t, b64_decode rest) of
              (Inr key, Some raw) \<Rightarrow> (case Decrypt A raw key of Inr p \<Rightarrow> p | Inl _ \<Rightarrow> [])
            | _ \<Rightarrow> [])"
proof -
  have out: "secretFields out ! i = secretPrefix @ rest \<and> length (secretFields out) = length (secretFields cfg)"
    using withEncrypted_field [OF assms(1,2)] assms(3) isEncrypted_prefix(1) by metis
  have "secretFields (decryptSecretsInPlace A override t out) ! i =
      (case loadConfigKeyForRead override t of
         Inr key \<Rightarrow> decryptInPlace A key (secretPrefix @ rest) | Inl _ \<Rightarrow> [])"
    using out assms(2) isEncrypted_prefix(1) [of rest]
    by (simp add: decrypt_fields secretFields_put split: sum.split)
  with out show ?thesis
    by (auto simp: decryptInPlace_def decryptSecret_def isEncrypted_prefix split: sum.splits option.splits)
qed

definition marked_sample :: Config where
  "marked_sample = sample_config ''enc:v1:my-passphrase''"

lemma marked_encrypted:
  "withEncryptedSecrets sample_aead (\<lambda>_. None) sample_kenv marked_sample
     [configKeyPath [] \<mapsto> hex_encode (replicate 32 (CHR ''k''))] =
   (Inr marked_sample, [configKeyPath [] \<mapsto> hex_encode (replicate 32 (CHR ''k''))])"
proof -
  have e: "isEncrypted ''enc:v1:my-passphrase''" by code_simp
  have "ke_override sample_kenv = []" by (simp add: sample_kenv_def)
  then show ?thesis
    by (simp add: withEncryptedSecrets_def hasSecrets_def marked_sample_def sample_fields loadOrCreateConfigKey_def
        LoadKey_def encryptSecret_def e sample_put Let_def)
qed

theorem marked_secret_stored_clear_witness:
  "secretFields (decryptSecretsInPlace sample_aead [] [configKeyPath [] \<mapsto> hex_encode (replicate 32 (CHR ''k''))]
     marked_sample) ! 0 = []"
proof -
  have "b64_decode ''my-passphrase'' = None" by code_simp
  moreover have "''enc:v1:my-passphrase'' = secretPrefix @ ''my-passphrase''" by (simp add: secretPrefix_def)
  ultimately show ?thesis
    using marked_secret_stored_clear [OF marked_encrypted, of 0 "''my-passphrase''" "[]"
        "[configKeyPath [] \<mapsto> hex_encode (replicate 32 (CHR ''k''))]"]
    by (simp add: marked_sample_def sample_fields split: sum.splits)
qed

end
