(* ===== verification/WebAuth.thy ===== *)
theory WebAuth
  imports GoEncoding
begin

text \<open>
  Sessions and the request filters of the web process (\<open>internal/web/auth.go\<close>,
  \<open>internal/web/middleware.go\<close>).

  The signed cookie store is not part of the program: a request carries what the store
  decodes from its cookie, \<open>None\<close> when decoding or the signature check fails. \<open>bcrypt\<close> is the
  parameter \<open>matches\<close>.
\<close>

section \<open>Sessions\<close>

record session_values =
  sv_auth :: "bool option"
  sv_sid :: "string option"

record auth =
  passwordHash :: string
  sessions :: "string set"

type_synonym cookie = "session_values option"

definition NewAuth :: "string \<Rightarrow> auth" where
  "NewAuth hash = \<lparr>passwordHash = hash, sessions = {}\<rparr>"

definition SetPasswordHash :: "string \<Rightarrow> auth \<Rightarrow> auth" where
  "SetPasswordHash hash a = a\<lparr>passwordHash := hash\<rparr>"

definition sessionID :: "cookie \<Rightarrow> string" where
  "sessionID c = (case c of None \<Rightarrow> [] | Some v \<Rightarrow> (case sv_sid v of Some sid \<Rightarrow> sid | None \<Rightarrow> []))"

definition ChangePassword :: "cookie \<Rightarrow> string \<Rightarrow> auth \<Rightarrow> auth" where
  "ChangePassword c hash a =
     (let keep = sessionID c in
      a\<lparr>passwordHash := hash, sessions := {sid \<in> sessions a. \<not> sid \<noteq> keep}\<rparr>)"

definition VerifyPassword :: "(string \<Rightarrow> string \<Rightarrow> bool) \<Rightarrow> string \<Rightarrow> auth \<Rightarrow> bool" where
  "VerifyPassword matches password a = matches (passwordHash a) password"

text \<open>\<open>raw\<close> is what the random source delivers, \<open>None\<close> when it fails.\<close>

definition Login :: "string option \<Rightarrow> cookie \<Rightarrow> auth \<Rightarrow> cookie \<times> auth" where
  "Login raw c a =
     (case raw of
        None \<Rightarrow> (c, a)
      | Some bytes \<Rightarrow>
          let sid = hex_encode bytes in
          (Some \<lparr>sv_auth = Some True, sv_sid = Some sid\<rparr>, a\<lparr>sessions := insert sid (sessions a)\<rparr>))"

definition Logout :: "cookie \<Rightarrow> auth \<Rightarrow> cookie \<times> auth" where
  "Logout c a =
     (case c of
        None \<Rightarrow> (c, a)
      | Some v \<Rightarrow>
          (Some (v\<lparr>sv_auth := Some False\<rparr>),
           case sv_sid v of Some sid \<Rightarrow> a\<lparr>sessions := sessions a - {sid}\<rparr> | None \<Rightarrow> a))"

definition IsAuthenticated :: "cookie \<Rightarrow> auth \<Rightarrow> bool" where
  "IsAuthenticated c a =
     (case c of
        None \<Rightarrow> False
      | Some v \<Rightarrow>
          if sv_auth v \<noteq> Some True then False else sessionID c \<in> sessions a)"

section \<open>Histories of sessions\<close>

datatype auth_event =
    DoLogin string
  | DoLogout cookie
  | DoChange cookie string
  | DoSetHash string

fun auth_step :: "auth \<Rightarrow> auth_event \<Rightarrow> auth" where
  "auth_step a (DoLogin bytes) = snd (Login (Some bytes) None a)"
| "auth_step a (DoLogout c) = snd (Logout c a)"
| "auth_step a (DoChange c h) = ChangePassword c h a"
| "auth_step a (DoSetHash h) = SetPasswordHash h a"

text \<open>The specification: a session is opened by a login that drew its ID, and ended by a logout
  that carries it or by a password change made from any other session.\<close>

fun opens :: "string \<Rightarrow> auth_event \<Rightarrow> bool" where
  "opens sid (DoLogin bytes) = (hex_encode bytes = sid)"
| "opens sid _ = False"

fun ends :: "string \<Rightarrow> auth_event \<Rightarrow> bool" where
  "ends sid (DoLogout (Some v)) = (sv_sid v = Some sid)"
| "ends sid (DoChange c h) = (sessionID c \<noteq> sid)"
| "ends sid _ = False"

lemma auth_step_sessions:
  "sid \<in> sessions (auth_step a e) \<longleftrightarrow> opens sid e \<or> (sid \<in> sessions a \<and> \<not> ends sid e)"
proof (cases e)
  case (DoLogout c)
  then show ?thesis
    by (cases c) (auto simp: Logout_def split: option.splits)
qed (auto simp: Login_def ChangePassword_def SetPasswordHash_def Let_def)

definition open_session :: "auth_event list \<Rightarrow> string \<Rightarrow> bool" where
  "open_session h sid = (\<exists>h1 e h2. h = h1 @ e # h2 \<and> opens sid e \<and> (\<forall>e' \<in> set h2. \<not> ends sid e'))"

lemma opens_not_ends: "opens sid e \<Longrightarrow> \<not> ends sid e"
  by (cases e) auto

lemma open_session_snoc:
  "open_session (h @ [e]) sid \<longleftrightarrow> opens sid e \<or> (open_session h sid \<and> \<not> ends sid e)"
proof
  assume "open_session (h @ [e]) sid"
  then obtain h1 f h2 where o: "h @ [e] = h1 @ f # h2" "opens sid f" "\<forall>e' \<in> set h2. \<not> ends sid e'"
    by (auto simp: open_session_def)
  show "opens sid e \<or> (open_session h sid \<and> \<not> ends sid e)"
  proof (cases h2 rule: rev_cases)
    case Nil
    with o show ?thesis by auto
  next
    case (snoc ys y)
    with o(1) have "h = h1 @ f # ys" "y = e" by auto
    with o snoc show ?thesis by (auto simp: open_session_def)
  qed
next
  assume "opens sid e \<or> (open_session h sid \<and> \<not> ends sid e)"
  then show "open_session (h @ [e]) sid"
  proof
    assume "opens sid e"
    then show ?thesis unfolding open_session_def by (intro exI [of _ h] exI [of _ e] exI [of _ "[]"]) simp
  next
    assume a: "open_session h sid \<and> \<not> ends sid e"
    then obtain h1 f h2 where "h = h1 @ f # h2" "opens sid f" "\<forall>e' \<in> set h2. \<not> ends sid e'"
      by (auto simp: open_session_def)
    with a show ?thesis unfolding open_session_def
      by (intro exI [of _ h1] exI [of _ f] exI [of _ "h2 @ [e]"]) auto
  qed
qed

lemma sessions_run: "sid \<in> sessions (run auth_step (NewAuth hash) h) \<longleftrightarrow> open_session h sid"
proof (induction h rule: rev_induct)
  case Nil
  then show ?case by (simp add: NewAuth_def open_session_def)
next
  case (snoc e h)
  then show ?case by (simp add: run_append auth_step_sessions open_session_snoc)
qed

text \<open>(C13) Sessions refine their specification: after any history of logins, logouts and password
  changes, a cookie is authenticated exactly when its signed values say so and name a session the
  history opened and has not since ended, by a logout that carried it or by a password change made
  from any other session.\<close>

theorem session_valid_iff:
  "IsAuthenticated c (run auth_step (NewAuth hash) h) \<longleftrightarrow>
     (case c of None \<Rightarrow> False | Some v \<Rightarrow> sv_auth v = Some True \<and> open_session h (sessionID c))"
  by (cases c) (auto simp: IsAuthenticated_def sessions_run)

end
