(* ===== verification/LoginGuard.thy ===== *)
theory LoginGuard
  imports Prelude
begin

text \<open>
  The two brakes on password guessing in the web process: the per-address lockout
  (\<open>internal/web/login_guard.go\<close>) and the budget across all addresses
  (\<open>internal/web/login_budget.go\<close>). Instants are nanoseconds on one clock as \<open>int\<close>; the zero
  \<open>time.Time\<close> of a record that was never locked is \<open>None\<close>.
\<close>

section \<open>Lockout per address\<close>

definition loginFailureThreshold :: nat where "loginFailureThreshold = 5"
definition loginLockoutBase :: int where "loginLockoutBase = Minute"
definition loginLockoutMax :: int where "loginLockoutMax = 15 * Minute"
definition loginFailureIdleReset :: int where "loginFailureIdleReset = Hour"

record loginRecord =
  failures :: nat
  lockedUntil :: "int option"
  lastSeen :: int

type_synonym loginGuard = "string \<rightharpoonup> loginRecord"

definition cleanup :: "int \<Rightarrow> loginGuard \<Rightarrow> loginGuard" where
  "cleanup now g = (\<lambda>ip. case g ip of
       None \<Rightarrow> None
     | Some rec \<Rightarrow>
         if now - lastSeen rec > loginFailureIdleReset \<and>
            (case lockedUntil rec of None \<Rightarrow> True | Some u \<Rightarrow> now > u)
         then None else Some rec)"

definition LockedFor :: "int \<Rightarrow> string \<Rightarrow> loginGuard \<Rightarrow> int \<times> loginGuard" where
  "LockedFor now ip g =
     (case g ip of
        None \<Rightarrow> (0, g)
      | Some rec \<Rightarrow>
          if now - lastSeen rec > loginFailureIdleReset then (0, g(ip := None))
          else case lockedUntil rec of
                 None \<Rightarrow> (0, g)
               | Some u \<Rightarrow> if u - now > 0 then (u - now, g) else (0, g))"

text \<open>\<open>loginLockoutBase << k\<close> on a 64-bit duration: the bits shifted out are lost.\<close>

definition lockout_after :: "nat \<Rightarrow> int" where
  "lockout_after n =
     (let lockout = wrap64 (loginLockoutBase * 2 ^ (n - loginFailureThreshold)) in
      if lockout > loginLockoutMax \<or> lockout \<le> 0 then loginLockoutMax else lockout)"

definition RecordFailure :: "int \<Rightarrow> string \<Rightarrow> loginGuard \<Rightarrow> int \<times> loginGuard" where
  "RecordFailure now ip g =
     (let rec0 = (case g ip of
                    None \<Rightarrow> \<lparr>failures = 0, lockedUntil = None, lastSeen = now\<rparr>
                  | Some r \<Rightarrow> if now - lastSeen r > loginFailureIdleReset
                             then \<lparr>failures = 0, lockedUntil = None, lastSeen = now\<rparr> else r);
          rec = rec0\<lparr>failures := failures rec0 + 1, lastSeen := now\<rparr> in
      if failures rec < loginFailureThreshold then (0, g(ip \<mapsto> rec))
      else let lockout = lockout_after (failures rec) in
           (lockout, g(ip \<mapsto> rec\<lparr>lockedUntil := Some (now + lockout)\<rparr>)))"

definition RecordSuccess :: "string \<Rightarrow> loginGuard \<Rightarrow> loginGuard" where
  "RecordSuccess ip g = g(ip := None)"

definition failureCount :: "string \<Rightarrow> loginGuard \<Rightarrow> nat" where
  "failureCount ip g = (case g ip of Some rec \<Rightarrow> failures rec | None \<Rightarrow> 0)"

section \<open>The lockout is the ideal doubling, capped\<close>

definition ideal_lockout :: "nat \<Rightarrow> int" where
  "ideal_lockout n = (if n < 5 then 0 else min (15 * Minute) (2 ^ (n - 5) * Minute))"

lemma wrap64_multiple:
  assumes "i = 2 ^ 40 * j"
  shows "\<exists>m. wrap64 i = 2 ^ 40 * m"
proof -
  have "i = wrap64 i + 2 ^ 64 * ((i + 2 ^ 63) div 2 ^ 64)"
    unfolding wrap64_def by (simp add: algebra_simps flip: mult_div_mod_eq)
  then have "wrap64 i = 2 ^ 40 * (j - 2 ^ 24 * ((i + 2 ^ 63) div 2 ^ 64))"
    using assms by (simp add: algebra_simps)
  then show ?thesis by blast
qed

lemma lockout_large:
  assumes "29 \<le> k"
  shows "wrap64 (Minute * 2 ^ k) > 15 * Minute \<or> wrap64 (Minute * 2 ^ k) \<le> 0"
proof -
  have "2 ^ k = (2 :: int) ^ 29 * 2 ^ (k - 29)" using assms by (metis le_add_diff_inverse power_add)
  then have "Minute * 2 ^ k = 2 ^ 40 * (29296875 * 2 ^ (k - 29))" by simp
  then obtain m where "wrap64 (Minute * 2 ^ k) = 2 ^ 40 * m" using wrap64_multiple by blast
  then show ?thesis by (cases "m \<le> 0") auto
qed

lemma lockout_small:
  assumes "4 \<le> k" "k < 29"
  shows "wrap64 (Minute * 2 ^ k) > 15 * Minute \<or> wrap64 (Minute * 2 ^ k) \<le> 0"
proof (cases "k = 28")
  case True
  then show ?thesis by (simp add: wrap64_def)
next
  case False
  have "(2 :: int) ^ 4 \<le> 2 ^ k" "(2 :: int) ^ k \<le> 2 ^ 27"
    using assms False by (intro power_increasing; simp)+
  then have "16 \<le> (2 :: int) ^ k" "(2 :: int) ^ k \<le> 134217728" by simp_all
  then have "wrap64 (Minute * 2 ^ k) = Minute * 2 ^ k" by (intro wrap64_id) (simp add: in_int64_def)
  with \<open>16 \<le> (2 :: int) ^ k\<close> show ?thesis by simp
qed

lemma lockout_after_ideal:
  assumes "5 \<le> n"
  shows "lockout_after n = ideal_lockout n"
proof (cases "n - 5 < 4")
  case True
  with assms have "n \<in> {5, 6, 7, 8}" by auto
  then show ?thesis
    by (auto simp: lockout_after_def ideal_lockout_def loginLockoutBase_def loginLockoutMax_def
        loginFailureThreshold_def wrap64_def)
next
  case False
  let ?k = "n - 5"
  have "wrap64 (Minute * 2 ^ ?k) > 15 * Minute \<or> wrap64 (Minute * 2 ^ ?k) \<le> 0"
    using False lockout_small [of ?k] lockout_large [of ?k] by (cases "?k < 29") auto
  then have l: "lockout_after n = 15 * Minute"
    by (auto simp: lockout_after_def loginLockoutBase_def loginLockoutMax_def
        loginFailureThreshold_def Let_def)
  have "(2 :: int) ^ 4 \<le> 2 ^ ?k" using False by (intro power_increasing) auto
  then have "15 * Minute \<le> 2 ^ ?k * Minute" by simp
  then show ?thesis using l assms by (simp add: ideal_lockout_def)
qed

lemma ideal_lockout_bounds: "5 \<le> n \<Longrightarrow> Minute \<le> ideal_lockout n \<and> ideal_lockout n \<le> 15 * Minute"
  by (simp add: ideal_lockout_def)

lemma RecordFailure_lockout:
  "fst (RecordFailure now ip g) = ideal_lockout (failureCount ip (snd (RecordFailure now ip g)))"
  by (simp add: RecordFailure_def failureCount_def Let_def lockout_after_ideal
      loginFailureThreshold_def ideal_lockout_def)

text \<open>A run of failures from one address, each within an hour of the one before.\<close>

fun record_failures :: "string \<Rightarrow> int list \<Rightarrow> loginGuard \<Rightarrow> loginGuard" where
  "record_failures ip [] g = g"
| "record_failures ip (t # ts) g = record_failures ip ts (snd (RecordFailure t ip g))"

fun close_run :: "int list \<Rightarrow> bool" where
  "close_run (s # t # ts) = (t - s \<le> Hour \<and> close_run (t # ts))"
| "close_run _ = True"

lemma RecordFailure_next:
  assumes "g ip = Some r" "t - lastSeen r \<le> Hour"
  shows "\<exists>r'. snd (RecordFailure t ip g) ip = Some r' \<and> failures r' = failures r + 1 \<and> lastSeen r' = t \<and>
     (failures r' \<ge> 5 \<longrightarrow> lockedUntil r' = Some (t + ideal_lockout (failures r')))"
  using assms
  by (auto simp: RecordFailure_def Let_def loginFailureIdleReset_def loginFailureThreshold_def
      lockout_after_ideal)

lemma record_failures_run:
  assumes "g ip = Some r" "close_run (lastSeen r # ts)" "ts \<noteq> []"
  shows "\<exists>r'. record_failures ip ts g ip = Some r' \<and> failures r' = failures r + length ts \<and>
     lastSeen r' = last ts \<and>
     (failures r' \<ge> 5 \<longrightarrow> lockedUntil r' = Some (last ts + ideal_lockout (failures r')))"
  using assms
proof (induction ts arbitrary: g r)
  case Nil
  then show ?case by simp
next
  case (Cons t ts)
  from Cons.prems have "t - lastSeen r \<le> Hour" by simp
  from RecordFailure_next [of g ip r t, OF Cons.prems(1) this] obtain r1 where
    r1: "snd (RecordFailure t ip g) ip = Some r1" "failures r1 = failures r + 1" "lastSeen r1 = t"
      "failures r1 \<ge> 5 \<longrightarrow> lockedUntil r1 = Some (t + ideal_lockout (failures r1))" by blast
  show ?case
  proof (cases "ts = []")
    case True
    with r1 show ?thesis by auto
  next
    case False
    have "close_run (lastSeen r1 # ts)" using Cons.prems(2) r1(3) by simp
    from Cons.IH [of "snd (RecordFailure t ip g)" r1, OF r1(1) this False] r1 False show ?thesis by auto
  qed
qed

lemma record_failures_fresh:
  assumes "g ip = None" "close_run ts" "ts \<noteq> []"
  shows "\<exists>r. record_failures ip ts g ip = Some r \<and> failures r = length ts \<and> lastSeen r = last ts \<and>
     (failures r \<ge> 5 \<longrightarrow> lockedUntil r = Some (last ts + ideal_lockout (failures r)))"
proof -
  obtain t ts' where ts: "ts = t # ts'" using assms(3) by (cases ts) auto
  have g1: "snd (RecordFailure t ip g) ip = Some \<lparr>failures = 1, lockedUntil = None, lastSeen = t\<rparr>"
    using assms(1) by (simp add: RecordFailure_def Let_def loginFailureThreshold_def)
  show ?thesis
  proof (cases "ts' = []")
    case True
    with ts g1 show ?thesis by simp
  next
    case False
    from record_failures_run [of "snd (RecordFailure t ip g)" ip, OF g1 _ this] assms(2) False show ?thesis by (auto simp: ts)
  qed
qed

lemma LockedFor_cleanup:
  assumes "now \<le> t"
  shows "fst (LockedFor t ip (cleanup now g)) = fst (LockedFor t ip g)"
proof (cases "g ip")
  case None
  then show ?thesis by (simp add: LockedFor_def cleanup_def)
next
  case (Some r)
  show ?thesis
  proof (cases "cleanup now g ip = None")
    case True
    with Some have "now - lastSeen r > loginFailureIdleReset" by (auto simp: cleanup_def split: if_splits)
    with assms have "t - lastSeen r > loginFailureIdleReset" by simp
    with Some True show ?thesis by (simp add: LockedFor_def)
  next
    case False
    with Some have "cleanup now g ip = Some r" by (auto simp: cleanup_def split: if_splits)
    with Some show ?thesis by (auto simp: LockedFor_def split: option.splits)
  qed
qed

section \<open>The budget across addresses\<close>

definition loginBudgetFailures :: nat where "loginBudgetFailures = 30"
definition loginBudgetWindow :: int where "loginBudgetWindow = Hour"
definition loginBudgetSpacing :: int where "loginBudgetSpacing = 30 * Second"
definition loginBudgetMaxWait :: int where "loginBudgetMaxWait = 30 * Second"

record loginBudget =
  bfailures :: "int list"
  bnext :: "int option"
  bwarned :: "int option"

definition prune :: "int \<Rightarrow> loginBudget \<Rightarrow> loginBudget" where
  "prune now b = b\<lparr>bfailures := dropWhile (\<lambda>t. now - t > loginBudgetWindow) (bfailures b)\<rparr>"

definition Reserve :: "int \<Rightarrow> loginBudget \<Rightarrow> (int \<times> bool) \<times> loginBudget" where
  "Reserve now b0 =
     (let b = prune now b0 in
      if length (bfailures b) < loginBudgetFailures then ((0, True), b)
      else let start = (case bnext b of Some n \<Rightarrow> if n > now then n else now | None \<Rightarrow> now);
               wait = start - now in
           if wait > loginBudgetMaxWait then ((wait, False), b)
           else ((wait, True), b\<lparr>bnext := Some (start + loginBudgetSpacing)\<rparr>))"

definition budget_failure :: "int \<Rightarrow> loginBudget \<Rightarrow> loginBudget" where
  "budget_failure now b0 =
     (let b1 = prune now b0;
          b = b1\<lparr>bfailures := bfailures b1 @ [now]\<rparr> in
      if length (bfailures b) \<ge> loginBudgetFailures \<and>
         (case bwarned b of None \<Rightarrow> True | Some w \<Rightarrow> now - w > loginBudgetWindow)
      then b\<lparr>bwarned := Some now\<rparr> else b)"

datatype budget_event = Attempt int | Failed int

text \<open>The instants at which password checks are let through while the budget is spent, in
  the order they were granted.\<close>

fun spent_checks :: "loginBudget \<Rightarrow> budget_event list \<Rightarrow> int list" where
  "spent_checks b [] = []"
| "spent_checks b (Failed now # es) = spent_checks (budget_failure now b) es"
| "spent_checks b (Attempt now # es) =
     (case Reserve now b of
        ((wait, granted), b') \<Rightarrow>
          (if granted \<and> length (bfailures b') \<ge> loginBudgetFailures then [now + wait] else []) @
          spent_checks b' es)"

definition spaced :: "int list \<Rightarrow> bool" where
  "spaced ts = (\<forall>i. Suc i < length ts \<longrightarrow> ts ! i + loginBudgetSpacing \<le> ts ! Suc i)"

lemma spaced_Cons: "spaced (t # ts) \<longleftrightarrow> (ts = [] \<or> t + loginBudgetSpacing \<le> hd ts) \<and> spaced ts"
proof (cases ts)
  case Nil
  then show ?thesis by (simp add: spaced_def)
next
  case (Cons s ss)
  then show ?thesis by (auto simp: spaced_def less_Suc_eq_0_disj nth_Cons split: nat.splits)
qed

lemma Reserve_cases:
  assumes "Reserve now b = ((wait, granted), b')"
  shows "bfailures b' = bfailures (prune now b)"
    and "length (bfailures b') < loginBudgetFailures \<Longrightarrow> wait = 0 \<and> granted \<and> bnext b' = bnext b"
    and "granted \<Longrightarrow> length (bfailures b') \<ge> loginBudgetFailures \<Longrightarrow>
           bnext b' = Some (now + wait + loginBudgetSpacing) \<and> 0 \<le> wait \<and> wait \<le> loginBudgetMaxWait \<and>
           (\<forall>n. bnext b = Some n \<longrightarrow> n \<le> now + wait)"
    and "\<not> granted \<Longrightarrow> bnext b' = bnext b"
  using assms
  by (auto simp: Reserve_def Let_def prune_def split: if_splits option.splits)

lemma bnext_failure: "bnext (budget_failure now b) = bnext b"
  by (simp add: budget_failure_def prune_def Let_def)

lemma spent_checks_spaced:
  "spaced (spent_checks b es) \<and>
   (\<forall>n. bnext b = Some n \<longrightarrow> spent_checks b es \<noteq> [] \<longrightarrow> n \<le> hd (spent_checks b es))"
proof (induction b es rule: spent_checks.induct)
  case (1 b)
  then show ?case by (simp add: spaced_def)
next
  case (2 b now es)
  then show ?case by (simp add: bnext_failure)
next
  case (3 b now es)
  obtain wait granted b' where r: "Reserve now b = ((wait, granted), b')" by (metis surj_pair)
  note IH = 3 [OF r [symmetric] refl]
  note rc = Reserve_cases [OF r]
  show ?case
  proof (cases "granted \<and> length (bfailures b') \<ge> loginBudgetFailures")
    case True
    with rc(3) have n: "bnext b' = Some (now + wait + loginBudgetSpacing)"
      "\<forall>n. bnext b = Some n \<longrightarrow> n \<le> now + wait" by auto
    from True r have s: "spent_checks b (Attempt now # es) = (now + wait) # spent_checks b' es" by simp
    show ?thesis unfolding s using IH n by (auto simp: spaced_Cons)
  next
    case False
    have "bnext b' = bnext b" using False rc(2,4) by (cases granted) auto
    moreover have "spent_checks b (Attempt now # es) = spent_checks b' es" using False r by auto
    ultimately show ?thesis using IH by simp
  qed
qed

lemma prune_sorted:
  assumes "sorted (bfailures b)"
  shows "bfailures (prune now b) = filter (\<lambda>t. now - t \<le> loginBudgetWindow) (bfailures b)"
proof -
  have "dropWhile (\<lambda>t. now - t > w) ts = filter (\<lambda>t. now - t \<le> w) ts" if "sorted ts" for ts and w :: int
    using that
  proof (induction ts)
    case (Cons t ts)
    show ?case
    proof (cases "now - t > w")
      case False
      with Cons.prems have "\<forall>s \<in> set ts. now - s \<le> w" by auto
      then have "filter (\<lambda>t. now - t \<le> w) ts = ts" by (simp add: filter_id_conv)
      with False show ?thesis by simp
    qed (use Cons in simp)
  qed simp
  with assms show ?thesis by (simp add: prune_def)
qed

section \<open>Properties\<close>

text \<open>(C30) The lockout a failure earns is the ideal one, although it is computed by shifting a
  64-bit duration that wraps for long runs: nothing below five failures, then one minute
  doubled per further failure, capped at fifteen minutes, for every length of the run. It is
  never zero or negative past the threshold and never above the cap.\<close>

theorem lockout_is_capped_doubling:
  "fst (RecordFailure now ip g) = ideal_lockout (failureCount ip (snd (RecordFailure now ip g))) \<and>
   (if failureCount ip (snd (RecordFailure now ip g)) < 5 then fst (RecordFailure now ip g) = 0
    else Minute \<le> fst (RecordFailure now ip g) \<and> fst (RecordFailure now ip g) \<le> 15 * Minute)"
  using RecordFailure_lockout [of now ip g] ideal_lockout_bounds
  by (simp add: ideal_lockout_def)

text \<open>(C31) A run of failures from one address, each within an hour of the one before, is counted
  in full: an address that fails \<open>n\<close> times is locked for the ideal time of \<open>n\<close> failures, at any
  instant within it only the rest remains, and once an hour has passed without an attempt it
  is free again.\<close>

theorem guard_locks_run:
  assumes "close_run ts" "ts \<noteq> []" "last ts \<le> t"
  shows "fst (LockedFor t ip (record_failures ip ts Map.empty)) =
     (if t - last ts \<le> Hour then max 0 (ideal_lockout (length ts) - (t - last ts)) else 0)"
proof -
  obtain r where r: "record_failures ip ts Map.empty ip = Some r" "failures r = length ts"
    "lastSeen r = last ts"
    "failures r \<ge> 5 \<longrightarrow> lockedUntil r = Some (last ts + ideal_lockout (failures r))"
    using record_failures_fresh [of Map.empty ip ts] assms(1,2) by auto
  have "lockedUntil r = None" if "length ts < 5"
  proof -
    have "\<And>g. (\<forall>q. g ip = Some q \<longrightarrow> failures q + length us < 5 \<and> lockedUntil q = None) \<Longrightarrow>
      length us < 5 \<Longrightarrow> record_failures ip us g ip = Some q' \<Longrightarrow> lockedUntil q' = None" for us q'
    proof (induction us)
      case (Cons u us)
      show ?case
        using Cons.prems(2,3)
        by (intro Cons.IH [of "snd (RecordFailure u ip g)"])
           (use Cons.prems(1) in \<open>auto simp: RecordFailure_def Let_def loginFailureThreshold_def split: if_splits option.splits\<close>)
    qed auto
    with that r(1) show ?thesis by fastforce
  qed
  with r show ?thesis
    using assms(3) by (cases "length ts < 5") (auto simp: LockedFor_def loginFailureIdleReset_def ideal_lockout_def)
qed

theorem guard_locks_run_witness:
  "fst (LockedFor (6 * Second) ''10.0.0.7'' (record_failures ''10.0.0.7'' [0, Second, 2 * Second, 3 * Second, 4 * Second, 5 * Second] Map.empty)) =
     119 * Second"
  using guard_locks_run [of "[0, Second, 2 * Second, 3 * Second, 4 * Second, 5 * Second]" "6 * Second" "''10.0.0.7''"]
  by (simp add: ideal_lockout_def)

text \<open>The hourly sweep that keeps the table small is not observable: at any later time every
  address is locked for exactly as long as it would have been without the sweep.\<close>

theorem cleanup_unobservable:
  assumes "now \<le> t"
  shows "fst (LockedFor t ip (cleanup now g)) = fst (LockedFor t ip g)"
  using assms by (rule LockedFor_cleanup)

theorem cleanup_unobservable_witness:
  "fst (LockedFor (5 * Second) ''a'' (cleanup Second
     [''a'' \<mapsto> \<lparr>failures = 5, lockedUntil = Some (60 * Second), lastSeen = 0\<rparr>])) = 55 * Second"
  using cleanup_unobservable [of Second "5 * Second" "''a''"
      "[''a'' \<mapsto> \<lparr>failures = 5, lockedUntil = Some (60 * Second), lastSeen = 0\<rparr>]"]
  by (simp add: LockedFor_def loginFailureIdleReset_def)

text \<open>(C11) While thirty failures lie within the last hour, password checks are let through at
  most one every thirty seconds across all addresses, in any sequence of attempts and
  failures, even if the clock steps; an attempt is let through exactly when it has to wait
  at most thirty seconds.\<close>

theorem budget_spaces_checks:
  "spaced (spent_checks b es) \<and>
   (snd (fst (Reserve now b)) \<longleftrightarrow> fst (fst (Reserve now b)) \<le> 30 * Second)"
proof
  show "spaced (spent_checks b es)" using spent_checks_spaced by blast
  show "snd (fst (Reserve now b)) \<longleftrightarrow> fst (fst (Reserve now b)) \<le> 30 * Second"
    by (simp add: Reserve_def Let_def loginBudgetMaxWait_def)
qed

end
