(* ===== verification/RateLimit.thy ===== *)
theory RateLimit
  imports Prelude Complex_Main
begin

text \<open>
  The token-bucket limiter of \<open>internal/web/middleware.go\<close>. Go computes the tokens in
  \<open>float64\<close>: an operation is the exact rational operation followed by \<open>rnd\<close>, the rounding to
  the nearest representable value, which is a parameter. Times are nanoseconds.
\<close>

record tokenBucket =
  tokens :: rat
  lastCheck :: int

record RateLimiter =
  rl_clients :: "string \<rightharpoonup> tokenBucket"
  rl_refill :: int
  rl_burst :: int

text \<open>\<open>None\<close> is the panic on a refill interval below one millisecond.\<close>

definition NewRateLimiter :: "int \<Rightarrow> int \<Rightarrow> RateLimiter option" where
  "NewRateLimiter refill burst =
     (if refill < Millisecond then None
      else Some \<lparr>rl_clients = Map.empty, rl_refill = refill, rl_burst = burst\<rparr>)"

definition rateLimiterIdleWindow :: int where "rateLimiterIdleWindow = 5 * Minute"

definition rl_cleanup :: "int \<Rightarrow> RateLimiter \<Rightarrow> RateLimiter" where
  "rl_cleanup now rl = rl\<lparr>rl_clients := (\<lambda>ip. case rl_clients rl ip of
      None \<Rightarrow> None
    | Some b \<Rightarrow> if now - lastCheck b > rateLimiterIdleWindow then None else Some b)\<rparr>"

text \<open>Conversion of a float to a \<open>time.Duration\<close> drops the fraction.\<close>

definition trunc :: "rat \<Rightarrow> int" where
  "trunc x = (if x < 0 then \<lceil>x\<rceil> else \<lfloor>x\<rfloor>)"

definition refilled :: "(rat \<Rightarrow> rat) \<Rightarrow> int \<Rightarrow> RateLimiter \<Rightarrow> tokenBucket \<Rightarrow> rat" where
  "refilled rnd now rl b =
     (let earned = rnd (rnd (of_int (now - lastCheck b)) / rnd (of_int (rl_refill rl)));
          t = rnd (tokens b + earned) in
      if t > rnd (of_int (rl_burst rl)) then rnd (of_int (rl_burst rl)) else t)"

definition allow :: "(rat \<Rightarrow> rat) \<Rightarrow> int \<Rightarrow> string \<Rightarrow> RateLimiter \<Rightarrow> (bool \<times> int) \<times> RateLimiter" where
  "allow rnd now ip rl =
     (case rl_clients rl ip of
        None \<Rightarrow>
          ((True, 0), rl\<lparr>rl_clients := (rl_clients rl)
             (ip \<mapsto> \<lparr>tokens = rnd (rnd (of_int (rl_burst rl)) - 1), lastCheck = now\<rparr>)\<rparr>)
      | Some b \<Rightarrow>
          let t = refilled rnd now rl b in
          if t < 1 then
            ((False, trunc (rnd (rnd (1 - t) * rnd (of_int (rl_refill rl))))),
             rl\<lparr>rl_clients := (rl_clients rl)(ip \<mapsto> \<lparr>tokens = t, lastCheck = now\<rparr>)\<rparr>)
          else
            ((True, 0),
             rl\<lparr>rl_clients := (rl_clients rl)(ip \<mapsto> \<lparr>tokens = rnd (t - 1), lastCheck = now\<rparr>)\<rparr>))"

definition Allow :: "(rat \<Rightarrow> rat) \<Rightarrow> int \<Rightarrow> string \<Rightarrow> RateLimiter \<Rightarrow> bool" where
  "Allow rnd now ip rl = fst (fst (allow rnd now ip rl))"

text \<open>\<open>Duration.Seconds\<close> and the value of the \<open>Retry-After\<close> header.\<close>

definition Seconds :: "(rat \<Rightarrow> rat) \<Rightarrow> int \<Rightarrow> rat" where
  "Seconds rnd d = rnd (rnd (of_int (d div Second)) + rnd (rnd (of_int (d mod Second)) / 1000000000))"

definition setRetryAfter :: "(rat \<Rightarrow> rat) \<Rightarrow> int \<Rightarrow> int" where
  "setRetryAfter rnd wait = max \<lceil>Seconds rnd wait\<rceil> 1"

section \<open>How many requests pass\<close>

fun allowed :: "(rat \<Rightarrow> rat) \<Rightarrow> string \<Rightarrow> int list \<Rightarrow> RateLimiter \<Rightarrow> nat" where
  "allowed rnd ip [] rl = 0"
| "allowed rnd ip (t # ts) rl =
     (let ((ok, _), rl') = allow rnd t ip rl in (if ok then 1 else 0) + allowed rnd ip ts rl')"

text \<open>Within one instant nothing is earned, so a whole number of tokens is spent one by one.\<close>

lemma allowed_instant:
  assumes "rl_clients rl ip = Some \<lparr>tokens = of_int k, lastCheck = now\<rparr>" "0 \<le> k" "k \<le> rl_burst rl"
    and rn: "\<And>k. 0 \<le> k \<Longrightarrow> k \<le> rl_burst rl \<Longrightarrow> rnd (of_int k) = of_int k"
  shows "allowed rnd ip (replicate n now) rl = min n (nat k)"
  using assms
proof (induction n arbitrary: k rl)
  case 0
  then show ?case by simp
next
  case (Suc n)
  have r: "rnd 0 = 0" "rnd (of_int k) = of_int k" "rnd (of_int (rl_burst rl)) = of_int (rl_burst rl)"
    using Suc.prems(4) [of 0] Suc.prems(2-4) by simp_all
  have t: "refilled rnd now rl \<lparr>tokens = of_int k, lastCheck = now\<rparr> = of_int k"
    using r Suc.prems(3) by (simp add: refilled_def)
  show ?case
  proof (cases "k = 0")
    case True
    let ?rl = "rl\<lparr>rl_clients := (rl_clients rl)(ip \<mapsto> \<lparr>tokens = of_int k, lastCheck = now\<rparr>)\<rparr>"
    have "allowed rnd ip (replicate n now) ?rl = min n (nat k)"
      by (rule Suc.IH) (use Suc.prems in simp_all)
    then show ?thesis using True Suc.prems(1) t by (simp add: allow_def Let_def)
  next
    case False
    let ?rl = "rl\<lparr>rl_clients := (rl_clients rl)(ip \<mapsto> \<lparr>tokens = of_int (k - 1), lastCheck = now\<rparr>)\<rparr>"
    have "allowed rnd ip (replicate n now) ?rl = min n (nat (k - 1))"
      by (rule Suc.IH) (use Suc.prems False in simp_all)
    moreover have "rnd (of_int k - 1) = of_int (k - 1)"
      using Suc.prems(4) [of "k - 1"] Suc.prems(2,3) False by simp
    moreover have "Suc (nat (k - 1)) = nat k" using Suc.prems(2) False by simp
    ultimately show ?thesis
      using False Suc.prems(1,2) t by (simp add: allow_def Let_def)
  qed
qed

section \<open>Properties\<close>

text \<open>(C35) A client that has not been seen before gets exactly the first \<open>burst\<close> of the requests it
  sends at one instant through, however many those are: the floating-point bookkeeping neither
  loses nor creates a token. The rounding is only assumed to keep the whole numbers up to the
  burst.\<close>

theorem burst_bound:
  assumes rn: "\<And>k. 0 \<le> k \<Longrightarrow> k \<le> burst \<Longrightarrow> rnd (of_int k) = of_int k"
    and new: "NewRateLimiter refill burst = Some rl" "1 \<le> burst"
  shows "allowed rnd ip (replicate n now) rl = min n (nat burst)"
proof (cases n)
  case 0
  then show ?thesis by simp
next
  case (Suc m)
  have rl: "rl = \<lparr>rl_clients = Map.empty, rl_refill = refill, rl_burst = burst\<rparr>"
    using new(1) by (simp add: NewRateLimiter_def split: if_splits)
  let ?rl = "rl\<lparr>rl_clients := [ip \<mapsto> \<lparr>tokens = of_int (burst - 1), lastCheck = now\<rparr>]\<rparr>"
  have "allowed rnd ip (replicate m now) ?rl = min m (nat (burst - 1))"
    by (rule allowed_instant) (use rl rn new(2) in simp_all)
  moreover have "rnd (of_int burst - 1) = of_int (burst - 1)"
    using rn [of "burst - 1"] new(2) by simp
  moreover have "Suc (nat (burst - 1)) = nat burst" using new(2) by simp
  ultimately show ?thesis
    using Suc rl rn [of burst] new(2) by (simp add: allow_def)
qed

theorem burst_bound_witness:
  "allowed (\<lambda>x. x) ''10.0.0.9'' (replicate 9 0)
     \<lparr>rl_clients = Map.empty, rl_refill = 5 * Second, rl_burst = 5\<rparr> = 5"
  using burst_bound [of 5 "\<lambda>x. x" "5 * Second" "\<lparr>rl_clients = Map.empty, rl_refill = 5 * Second, rl_burst = 5\<rparr>"
      "''10.0.0.9''" 9 0]
  by (simp add: NewRateLimiter_def)

end
