(* ===== verification/GoNet.thy ===== *)
theory GoNet
  imports GoStrings "HOL-Library.Word"
begin

text \<open>
  Go's \<open>net\<close> addresses: \<open>ParseIP\<close>, \<open>ParseCIDR\<close>, \<open>IPNet.Contains\<close>, \<open>IP.String\<close> for IPv4 and
  \<open>SplitHostPort\<close>. A \<open>net.IP\<close> is its 16-byte form, a \<open>128 word\<close>; an IPv4 address is the
  IPv4-mapped one, and \<open>To4\<close> gives it back.
\<close>

unbundle bit_operations_syntax

section \<open>Parsing addresses\<close>

definition is_hex :: "char \<Rightarrow> bool" where
  "is_hex c = (is_digit c \<or> byte_in 0x61 0x66 c \<or> byte_in 0x41 0x46 c)"

definition hex_val :: "char \<Rightarrow> nat" where
  "hex_val c = (if is_digit c then digit_val c
                else if byte_in 0x61 0x66 c then of_char c - 87 else of_char c - 55)"

definition dec_val :: "string \<Rightarrow> int" where
  "dec_val ds = foldl (\<lambda>n c. 10 * n + int (digit_val c)) 0 ds"

text \<open>One dotted field: decimal digits, no leading zero, at most 255.\<close>

definition parse_octet :: "string \<Rightarrow> int option" where
  "parse_octet f =
     (if f = [] \<or> length f > 3 \<or> \<not> list_all is_digit f then None
      else if length f > 1 \<and> hd f = CHR ''0'' then None
      else if dec_val f > 255 then None
      else Some (dec_val f))"

definition parseIPv4 :: "string \<Rightarrow> int list option" where
  "parseIPv4 s =
     (case map parse_octet (split_on (CHR ''.'') s) of
        [Some a, Some b, Some c, Some d] \<Rightarrow> Some [a, b, c, d]
      | _ \<Rightarrow> None)"

text \<open>The end of \<open>parseIPv6\<close>: nothing may be left, and a short address needs its ellipsis.\<close>

definition v6_finish :: "string \<Rightarrow> int list \<Rightarrow> nat option \<Rightarrow> int list option" where
  "v6_finish s gs ell =
     (if s \<noteq> [] then None
      else if length gs < 8 then
        (case ell of
           None \<Rightarrow> None
         | Some e \<Rightarrow> Some (take e gs @ replicate (8 - length gs) 0 @ drop e gs))
      else if ell \<noteq> None then None
      else Some gs)"

function v6_loop :: "string \<Rightarrow> int list \<Rightarrow> nat option \<Rightarrow> int list option" where
  "v6_loop s gs ell =
     (if length gs \<ge> 8 then v6_finish s gs ell
      else
        let hex = takeWhile is_hex s; rest = dropWhile is_hex s in
        if hex = [] \<or> length hex > 4 then None
        else if rest \<noteq> [] \<and> hd rest = CHR ''.'' then
          (if ell = None \<and> length gs \<noteq> 6 then None
           else if length gs > 6 then None
           else case parseIPv4 s of
                  Some [a, b, c, d] \<Rightarrow> v6_finish [] (gs @ [256 * a + b, 256 * c + d]) ell
                | _ \<Rightarrow> None)
        else
          let gs' = gs @ [foldl (\<lambda>n c. 16 * n + int (hex_val c)) 0 hex] in
          if rest = [] then v6_finish [] gs' ell
          else if hd rest \<noteq> CHR '':'' \<or> length rest = 1 then None
          else if hd (tl rest) = CHR '':'' then
            (if ell \<noteq> None then None
             else if tl (tl rest) = [] then v6_finish [] gs' (Some (length gs'))
             else v6_loop (tl (tl rest)) gs' (Some (length gs')))
          else v6_loop (tl rest) gs' ell)"
  by pat_completeness auto
termination
proof (relation "measure (length \<circ> fst)", goal_cases)
  case 1
  then show ?case by simp
next
  case (2 s gs ell hex rest gs')
  then have "rest \<noteq> []" "length rest \<le> length s" by (auto simp: length_dropWhile_le)
  then show ?case by (auto simp: less_eq_Suc_le diff_le_mono2 neq_Nil_conv)
next
  case (3 s gs ell hex rest gs')
  then have "rest \<noteq> []" "length rest \<le> length s" by (auto simp: length_dropWhile_le)
  then show ?case by (auto simp: less_eq_Suc_le neq_Nil_conv)
qed

declare v6_loop.simps [simp del]

definition parseIPv6 :: "string \<Rightarrow> int list option" where
  "parseIPv6 s =
     (if HasPrefix s ''::''
      then (if drop 2 s = [] then Some (replicate 8 0) else v6_loop (drop 2 s) [] (Some 0))
      else v6_loop s [] None)"

text \<open>\<open>netip.ParseAddr\<close>: the first '.', ':' or '%' decides. An IPv6 zone is what follows '%'.\<close>

datatype addr = Addr4 "int list" | Addr6 "int list" string

definition ParseAddr :: "string \<Rightarrow> addr option" where
  "ParseAddr s =
     (case find (\<lambda>c. c \<in> set ''.:%'') s of
        None \<Rightarrow> None
      | Some c \<Rightarrow>
          if c = CHR ''.'' then map_option Addr4 (parseIPv4 s)
          else if c = CHR '':'' then
            (case Cut s (CHR ''%'') of
               None \<Rightarrow> map_option (\<lambda>g. Addr6 g []) (parseIPv6 s)
             | Some (a, zone) \<Rightarrow>
                 if zone = [] then None else map_option (\<lambda>g. Addr6 g zone) (parseIPv6 a))
          else None)"

type_synonym ip = "128 word"

definition ip4 :: "32 word \<Rightarrow> ip" where
  "ip4 w = 0xFFFF00000000 + ucast w"

definition To4 :: "ip \<Rightarrow> (32 word) option" where
  "To4 i = (if drop_bit 32 i = 0xFFFF then Some (ucast i) else None)"

definition octets_word :: "int list \<Rightarrow> 32 word" where
  "octets_word os = word_of_int (foldl (\<lambda>n b. 256 * n + b) 0 os)"

definition groups_word :: "int list \<Rightarrow> ip" where
  "groups_word gs = word_of_int (foldl (\<lambda>n g. 65536 * n + g) 0 gs)"

definition As16 :: "addr \<Rightarrow> ip" where
  "As16 a = (case a of Addr4 os \<Rightarrow> ip4 (octets_word os) | Addr6 gs _ \<Rightarrow> groups_word gs)"

definition zoneless :: "addr \<Rightarrow> bool" where
  "zoneless a = (case a of Addr4 _ \<Rightarrow> True | Addr6 _ z \<Rightarrow> z = [])"

definition ParseIP :: "string \<Rightarrow> ip option" where
  "ParseIP s =
     (case ParseAddr s of None \<Rightarrow> None | Some a \<Rightarrow> if zoneless a then Some (As16 a) else None)"

section \<open>Networks\<close>

datatype ipnet = Net4 "32 word" nat | Net6 ip nat

definition mask32 :: "nat \<Rightarrow> 32 word" where
  "mask32 n = NOT (mask (32 - n))"

definition mask128 :: "nat \<Rightarrow> 128 word" where
  "mask128 n = NOT (mask (128 - n))"

text \<open>\<open>dtoi\<close> on the whole of the mask part: digits only, below 0xFFFFFF.\<close>

definition parse_bits :: "string \<Rightarrow> nat option" where
  "parse_bits m = (if m = [] \<or> \<not> list_all is_digit m \<or> dec_val m \<ge> 16777215 then None else Some (nat (dec_val m)))"

definition ParseCIDR :: "string \<Rightarrow> (ip \<times> ipnet) option" where
  "ParseCIDR s =
     (case Cut s (CHR ''/'') of
        None \<Rightarrow> None
      | Some (a, m) \<Rightarrow>
          (case ParseAddr a of
             None \<Rightarrow> None
           | Some ad \<Rightarrow>
               if \<not> zoneless ad then None
               else (case parse_bits m of
                       None \<Rightarrow> None
                     | Some n \<Rightarrow>
                         (case ad of
                            Addr4 os \<Rightarrow>
                              if n > 32 then None
                              else Some (As16 ad, Net4 (octets_word os AND mask32 n) n)
                          | Addr6 gs _ \<Rightarrow>
                              if n > 128 then None
                              else Some (As16 ad, Net6 (groups_word gs AND mask128 n) n)))))"

definition Contains_ip :: "ipnet \<Rightarrow> ip \<Rightarrow> bool" where
  "Contains_ip n i =
     (case n of
        Net4 a k \<Rightarrow> (case To4 i of None \<Rightarrow> False | Some w \<Rightarrow> w AND mask32 k = a)
      | Net6 a k \<Rightarrow>
          (case To4 a of
             Some a4 \<Rightarrow> (case To4 i of None \<Rightarrow> False | Some w \<Rightarrow> w AND mask32 (k - 96) = a4)
           | None \<Rightarrow> (case To4 i of Some _ \<Rightarrow> False | None \<Rightarrow> i AND mask128 k = a)))"

definition IsLoopback :: "ip \<Rightarrow> bool" where
  "IsLoopback i = (case To4 i of Some w \<Rightarrow> drop_bit 24 w = 127 | None \<Rightarrow> i = 1)"

text \<open>\<open>IP.String\<close> of an IPv4 address.\<close>

definition ip4_string :: "32 word \<Rightarrow> string" where
  "ip4_string w =
     join_with ''.'' (map (\<lambda>k. Itoa (uint w div 256 ^ k mod 256)) [3, 2, 1, 0])"

section \<open>Host and port\<close>

definition LastCut :: "string \<Rightarrow> char \<Rightarrow> (string \<times> string) option" where
  "LastCut s c = (case Cut (rev s) c of None \<Rightarrow> None | Some (b, a) \<Rightarrow> Some (rev a, rev b))"

definition SplitHostPort :: "string \<Rightarrow> (string \<times> string) option" where
  "SplitHostPort hp =
     (case LastCut hp (CHR '':'') of
        None \<Rightarrow> None
      | Some (pre, port) \<Rightarrow>
          if hd hp = CHR ''['' then
            (case Cut hp (CHR '']'') of
               None \<Rightarrow> None
             | Some (h, after) \<Rightarrow>
                 if after \<noteq> CHR '':'' # port then None
                 else if CHR ''['' \<in> set (tl hp) \<or> CHR '']'' \<in> set port then None
                 else Some (tl h, port))
          else if CHR '':'' \<in> set pre then None
          else if CHR ''['' \<in> set hp \<or> CHR '']'' \<in> set hp then None
          else Some (pre, port))"

section \<open>What an accepted address can contain\<close>

definition addr_char :: "char \<Rightarrow> bool" where
  "addr_char c = (is_hex c \<or> c = CHR ''.'' \<or> c = CHR '':'')"

lemma parse_octet_digits: "parse_octet f = Some v \<Longrightarrow> list_all is_digit f \<and> 0 \<le> v \<and> v \<le> 255"
proof -
  assume p: "parse_octet f = Some v"
  have "0 \<le> foldl (\<lambda>n c. 10 * n + int (digit_val c)) m f" if "0 \<le> m" for m
    using that by (induction f arbitrary: m) auto
  then have "0 \<le> dec_val f" by (simp add: dec_val_def)
  with p show ?thesis by (auto simp: parse_octet_def split: if_splits)
qed

lemma parseIPv4_fields:
  assumes "parseIPv4 s = Some os"
  shows "\<forall>f \<in> set (split_on (CHR ''.'') s). \<exists>v. parse_octet f = Some v"
  using assms unfolding parseIPv4_def
  by (auto split: list.splits option.splits simp: map_eq_Cons_conv)

lemma set_split_cover: "c \<in> set s \<Longrightarrow> c = sep \<or> (\<exists>f \<in> set (split_on sep s). c \<in> set f)"
  using set_join_with [of "[sep]" "split_on sep s"] by auto

lemma parseIPv4_chars:
  assumes "parseIPv4 s = Some os" "c \<in> set s"
  shows "addr_char c"
proof -
  from set_split_cover [OF assms(2), of "CHR ''.''"] parseIPv4_fields [OF assms(1)]
  have "c = CHR ''.'' \<or> (\<exists>f v. parse_octet f = Some v \<and> c \<in> set f)" by blast
  then show ?thesis
    using parse_octet_digits by (auto simp: addr_char_def is_hex_def list_all_iff)
qed

lemma v6_loop_chars: "v6_loop s gs ell = Some r \<Longrightarrow> c \<in> set s \<Longrightarrow> addr_char c"
proof (induction s gs ell rule: v6_loop.induct)
  case (1 s gs ell)
  let ?hex = "takeWhile is_hex s" and ?rest = "dropWhile is_hex s"
  show ?case
  proof (cases "length gs \<ge> 8")
    case True
    then have "s = []" using 1(3) by (subst (asm) v6_loop.simps) (auto simp: v6_finish_def split: if_splits)
    with 1(4) show ?thesis by simp
  next
    case len: False
    have c: "c \<in> set ?hex \<or> c \<in> set ?rest"
      using 1(4) by (metis Un_iff set_append takeWhile_dropWhile_id)
    have hex: "c \<in> set ?hex \<Longrightarrow> addr_char c"
      by (auto simp: addr_char_def dest: set_takeWhileD)
    note eq = 1(3) [unfolded v6_loop.simps [of s gs ell] Let_def]
    have ok: "\<not> (?hex = [] \<or> length ?hex > 4)" using eq len by (auto split: if_splits)
    show ?thesis
    proof (cases "?rest \<noteq> [] \<and> hd ?rest = CHR ''.''")
      case True
      then have "\<exists>os. parseIPv4 s = Some os" using eq len ok by (auto split: if_splits option.splits)
      with parseIPv4_chars 1(4) show ?thesis by blast
    next
      case nodot: False
      show ?thesis
      proof (cases "?rest = []")
        case True
        with c hex show ?thesis by simp
      next
        case False
        then obtain x y zs where r: "?rest = x # y # zs" "x = CHR '':''"
          using eq len ok nodot by (cases ?rest; cases "tl ?rest") (auto split: if_splits)
        show ?thesis
        proof (cases "y = CHR '':''")
          case True
          have "ell = None" using eq len ok nodot r True by (auto split: if_splits)
          show ?thesis
          proof (cases "zs = []")
            case zs: True
            with c hex r True show ?thesis by (auto simp: addr_char_def)
          next
            case zs: False
            have "c \<in> set zs \<Longrightarrow> addr_char c"
              using 1(1) [OF len refl refl ok nodot refl] eq len ok nodot r True zs \<open>ell = None\<close> by simp
            with c hex r True show ?thesis by (auto simp: addr_char_def)
          qed
        next
          case False
          have "c \<in> set (y # zs) \<Longrightarrow> addr_char c"
            using 1(2) [OF len refl refl ok nodot refl] eq len ok nodot r False by simp
          with c hex r show ?thesis by (auto simp: addr_char_def)
        qed
      qed
    qed
  qed
qed

lemma ParseIP_chars: "ParseIP s = Some i \<Longrightarrow> c \<in> set s \<Longrightarrow> addr_char c"
proof -
  assume p: "ParseIP s = Some i" and c: "c \<in> set s"
  then obtain a where a: "ParseAddr s = Some a" "zoneless a"
    by (auto simp: ParseIP_def split: option.splits if_splits)
  then consider os where "parseIPv4 s = Some os" | gs where "parseIPv6 s = Some gs"
    by (auto simp: ParseAddr_def zoneless_def split: option.splits if_splits)
  then show "addr_char c"
  proof cases
    case 1
    then show ?thesis using parseIPv4_chars c by blast
  next
    case (2 gs)
    show ?thesis
    proof (cases "HasPrefix s ''::''")
      case True
      then obtain t where s: "s = ''::'' @ t" by (auto simp: HasPrefix_iff)
      with 2 have "t = [] \<or> (\<exists>r. v6_loop t [] (Some 0) = Some r)"
        by (auto simp: parseIPv6_def split: if_splits)
      then have "c \<in> set t \<Longrightarrow> addr_char c" using v6_loop_chars by fastforce
      with s c show ?thesis by (auto simp: addr_char_def)
    next
      case False
      with 2 have "v6_loop s [] None = Some gs" by (simp add: parseIPv6_def)
      with v6_loop_chars c show ?thesis by blast
    qed
  qed
qed

lemma ParseCIDR_parts:
  assumes "ParseCIDR s = Some (i, n)"
  shows "\<exists>a m. s = a @ CHR ''/'' # m \<and> ParseIP a = Some i \<and> list_all is_digit m \<and> m \<noteq> []"
proof -
  from assms obtain a m ad where "Cut s (CHR ''/'') = Some (a, m)" "ParseAddr a = Some ad" "zoneless ad"
    "parse_bits m \<noteq> None" "i = As16 ad"
    by (auto simp: ParseCIDR_def split: option.splits if_splits addr.splits)
  then show ?thesis
    by (intro exI [of _ a] exI [of _ m])
       (auto simp: Cut_eq_Some_iff ParseIP_def parse_bits_def split: if_splits)
qed

lemma ParseCIDR_chars: "ParseCIDR s = Some r \<Longrightarrow> c \<in> set s \<Longrightarrow> addr_char c \<or> c = CHR ''/''"
proof -
  assume p: "ParseCIDR s = Some r" and c: "c \<in> set s"
  obtain i n where "r = (i, n)" by (cases r)
  with p ParseCIDR_parts obtain a m where
    s: "s = a @ CHR ''/'' # m" "ParseIP a = Some i" "list_all is_digit m" by blast
  with c ParseIP_chars [OF s(2)] show ?thesis by (auto simp: addr_char_def is_hex_def list_all_iff)
qed

section \<open>Printing and parsing IPv4 addresses\<close>

lemma digit_char_eq_0:
  assumes "d < 10"
  shows "digit_char d = CHR ''0'' \<longleftrightarrow> d = 0"
proof -
  have "digit_val (CHR ''0'') = 0" by (simp add: digit_val_def)
  moreover have "digit_char 0 = CHR ''0''" by code_simp
  ultimately show ?thesis using digit_char_props(2) [OF assms] by metis
qed

lemma nat_dec_small: "n < 10 \<Longrightarrow> nat_dec n = [digit_char n]"
  by (subst nat_dec.simps) simp

lemma nat_dec_large: "10 \<le> n \<Longrightarrow> nat_dec n = nat_dec (n div 10) @ [digit_char (n mod 10)]"
  by (subst nat_dec.simps) simp

lemma parse_octet_1: "a < 10 \<Longrightarrow> parse_octet [digit_char a] = Some (int a)"
  by (simp add: parse_octet_def dec_val_def)

lemma parse_octet_2:
  "0 < a \<Longrightarrow> a < 10 \<Longrightarrow> b < 10 \<Longrightarrow> parse_octet [digit_char a, digit_char b] = Some (int (10 * a + b))"
  by (simp add: parse_octet_def dec_val_def digit_char_eq_0)

lemma parse_octet_3:
  "0 < a \<Longrightarrow> a < 10 \<Longrightarrow> b < 10 \<Longrightarrow> c < 10 \<Longrightarrow> 100 * a + 10 * b + c \<le> 255 \<Longrightarrow>
   parse_octet [digit_char a, digit_char b, digit_char c] = Some (int (100 * a + 10 * b + c))"
  by (simp add: parse_octet_def dec_val_def digit_char_eq_0)

lemma parse_octet_nat_dec:
  assumes "n \<le> 255"
  shows "parse_octet (nat_dec n) = Some (int n)"
proof -
  consider "n < 10" | "10 \<le> n" "n < 100" | "100 \<le> n" by linarith
  then show ?thesis
  proof cases
    case 1
    then show ?thesis by (simp add: nat_dec_small parse_octet_1)
  next
    case 2
    then have "n div 10 < 10" "0 < n div 10" by auto
    with 2 parse_octet_2 [of "n div 10" "n mod 10"] show ?thesis
      by (simp add: nat_dec_large nat_dec_small)
  next
    case 3
    define q where "q = n div 10"
    have q: "10 \<le> q" "q div 10 < 10" "0 < q div 10" using 3 assms by (auto simp: q_def)
    have n: "100 * (q div 10) + 10 * (q mod 10) + n mod 10 = n"
      using mult_div_mod_eq [of 10 q] mult_div_mod_eq [of 10 n] unfolding q_def [symmetric] by linarith
    have "nat_dec n = [digit_char (q div 10), digit_char (q mod 10), digit_char (n mod 10)]"
      using 3 q nat_dec_large [of n] nat_dec_large [of q] nat_dec_small [of "q div 10"]
      unfolding q_def [symmetric] by simp
    then show ?thesis
      using parse_octet_3 [of "q div 10" "q mod 10" "n mod 10"] q n assms by simp
  qed
qed

lemma parse_octet_Itoa: "0 \<le> i \<Longrightarrow> i \<le> 255 \<Longrightarrow> parse_octet (Itoa i) = Some i"
  using parse_octet_nat_dec [of "nat i"] by (simp add: Itoa_def)

lemma Itoa_digits: "0 \<le> i \<Longrightarrow> list_all is_digit (Itoa i)"
  by (simp add: Itoa_def nat_dec_digits)

lemma dot_not_digit: "list_all is_digit s \<Longrightarrow> CHR ''.'' \<notin> set s"
  by (auto simp: list_all_iff is_digit_def)

lemma parseIPv4_string:
  "parseIPv4 (ip4_string w) = Some (map (\<lambda>k. uint w div 256 ^ k mod 256) [3, 2, 1, 0])"
proof -
  let ?o = "\<lambda>k. uint w div 256 ^ k mod 256"
  have "split_on (CHR ''.'') (ip4_string w) = map (\<lambda>k. Itoa (?o k)) [3, 2, 1, 0]"
    unfolding ip4_string_def
    by (rule split_on_join) (auto intro!: dot_not_digit Itoa_digits)
  moreover have "parse_octet (Itoa (x mod 256)) = Some (x mod 256)" for x
    using pos_mod_bound [of 256 x] by (intro parse_octet_Itoa) simp_all
  ultimately show ?thesis by (simp add: parseIPv4_def)
qed

lemma octets_sum:
  fixes u :: int
  assumes "0 \<le> u" "u < 4294967296"
  shows "256 * (256 * (256 * (256 * 0 + u div 256 ^ 3 mod 256) + u div 256 ^ 2 mod 256) + u div 256 ^ 1 mod 256) +
         u div 256 ^ 0 mod 256 = u"
proof -
  define q where "q = u div 256"
  define r where "r = q div 256"
  define t where "t = r div 256"
  have d2: "u div 65536 = r" using zdiv_zmult2_eq [of 256 u 256] by (simp add: q_def r_def)
  have "u div 16777216 = u div 65536 div 256" using zdiv_zmult2_eq [of 256 u 65536] by simp
  then have d3: "u div 16777216 = t" by (simp only: d2 t_def)
  have p: "u div 256 ^ 1 = q" "u div 256 ^ 2 = r" "u div 256 ^ 3 = t" "u div 256 ^ 0 = u"
    using d2 d3 by (simp_all add: q_def)
  have e: "256 * q + u mod 256 = u" "256 * r + q mod 256 = q" "256 * t + r mod 256 = r"
    by (simp_all add: q_def r_def t_def)
  have "t mod 256 = t"
  proof (rule mod_pos_pos_trivial)
    have "t \<le> 4294967295 div 256 div 256 div 256"
      unfolding t_def r_def q_def using assms(2) by (intro zdiv_mono1) simp_all
    then show "t < 256" by simp
    show "0 \<le> t" unfolding t_def r_def q_def using assms(1) by (simp add: pos_imp_zdiv_nonneg_iff)
  qed
  then show ?thesis unfolding p by (simp only: e mult_zero_right add_0)
qed

lemma octets_of_word: "octets_word (map (\<lambda>k. uint w div 256 ^ k mod 256) [3, 2, 1, 0]) = w"
proof -
  have "uint w < 4294967296" using uint_lt2p [of w] by simp
  from octets_sum [OF uint_ge_0 this] show ?thesis
    unfolding octets_word_def list.map foldl.simps by (simp only: word_of_int_uint)
qed

lemma find_dot_ip4: "find (\<lambda>c. c \<in> set ''.:%'') (ip4_string w) = Some (CHR ''.'')"
proof -
  let ?o = "Itoa (uint w div 256 ^ 3 mod 256)"
  obtain r where "ip4_string w = ?o @ CHR ''.'' # r"
    by (simp add: ip4_string_def)
  moreover have "find (\<lambda>c. c \<in> set ''.:%'') (ds @ CHR ''.'' # r) = Some (CHR ''.'')"
    if "list_all is_digit ds" for ds
    using that by (induction ds) (auto simp: is_digit_def)
  ultimately show ?thesis using Itoa_digits by simp
qed

lemma ParseAddr_ip4_string:
  "ParseAddr (ip4_string w) = Some (Addr4 (map (\<lambda>k. uint w div 256 ^ k mod 256) [3, 2, 1, 0]))"
  unfolding ParseAddr_def find_dot_ip4 parseIPv4_string by simp

lemma ParseIP_ip4_string: "ParseIP (ip4_string w) = Some (ip4 w)"
  unfolding ParseIP_def ParseAddr_ip4_string
  by (simp only: zoneless_def As16_def addr.case option.case octets_of_word if_True)

lemma uint_ip4: "uint (ip4 w) = 0xFFFF00000000 + uint w"
proof -
  have lt: "uint w < 4294967296" using uint_lt2p [of w] by simp
  have u: "uint (ucast w :: 128 word) = uint w" by (simp add: uint_up_ucast is_up)
  show ?thesis unfolding ip4_def uint_word_ariths u using lt by simp
qed

lemma To4_ip4: "To4 (ip4 w) = Some w"
proof -
  have lt: "uint w < 4294967296" "0 \<le> uint w" using uint_lt2p [of w] by simp_all
  have u: "uint (ip4 w) = uint w + 65535 * 4294967296" by (simp add: uint_ip4)
  have "uint (drop_bit 32 (ip4 w)) = uint (ip4 w) div 2 ^ 32"
    by (simp add: drop_bit_eq_div uint_div_distrib)
  also have "\<dots> = (uint w + 65535 * 4294967296) div 4294967296" by (simp add: u)
  also have "\<dots> = 65535" using lt by (subst div_mult_self1) simp_all
  finally have "drop_bit 32 (ip4 w) = 0xFFFF" by (simp add: word_uint_eq_iff)
  moreover have "uint (ucast (ip4 w) :: 32 word) = uint w"
  proof -
    have "uint (ucast (ip4 w) :: 32 word) = uint (ip4 w) mod 4294967296"
      by (simp add: unsigned_ucast_eq take_bit_eq_mod)
    also have "\<dots> = uint w" unfolding u mod_mult_self1 using lt by simp
    finally show ?thesis .
  qed
  ultimately show ?thesis by (simp add: To4_def word_uint_eq_iff)
qed

end
