(* ===== verification/WebGate.thy ===== *)
theory WebGate
  imports WebAuth LoginGuard RateLimit ConfigTypes GoNet
begin

text \<open>
  The gates every request to the web process passes: the middleware of
  \<open>internal/web/middleware.go\<close> in the order \<open>NewServer\<close> composes it, the route table, and the
  handlers of \<open>internal/web/server.go\<close> that open and close sessions.

  A handler is a function from the server's state and a request to a response and a new state; a
  middleware wraps one. The page handlers are the parameter \<open>app\<close>, indexed by the name the
  route table gives them. What the standard library parses out of a request (cookies, header and
  form values, the segments of the path) are fields of the request; rendering and translation are
  not modelled.
\<close>

section \<open>Requests and responses\<close>

record request =
  rq_method :: string
  rq_segs :: "string list"
  rq_remote :: string
  rq_now :: int
  rq_session :: cookie
  rq_csrf_cookie :: "string option"
  rq_csrf_header :: string
  rq_multipart :: bool
  rq_multipart_err :: bool
  rq_csrf_form :: string
  rq_password :: string
  rq_hx :: bool
  rq_accept :: string
  rq_rand_csrf :: "string option"
  rq_rand_sid :: "string option"
  rq_gone :: bool

record response =
  wr_status :: int
  wr_handler :: "string option"
  wr_location :: "string option"
  wr_hx_redirect :: "string option"
  wr_csrf :: "string list"
  wr_session :: cookie
  wr_retry :: "int option"
  wr_headers :: "(string \<times> string) list"

record web_state =
  ws_auth :: auth
  ws_guard :: loginGuard
  ws_budget :: loginBudget
  ws_limiter :: RateLimiter
  ws_login_limiter :: RateLimiter
  ws_probe_limiter :: RateLimiter

type_synonym handler_fn = "web_state \<Rightarrow> request \<Rightarrow> response \<times> web_state"

definition status :: "int \<Rightarrow> response" where
  "status code = \<lparr>wr_status = code, wr_handler = None, wr_location = None, wr_hx_redirect = None, wr_csrf = [],
     wr_session = None, wr_retry = None, wr_headers = []\<rparr>"

definition url_path :: "request \<Rightarrow> string" where
  "url_path r = ''/'' @ join_with ''/'' (rq_segs r)"

section \<open>Middleware\<close>

definition AuthRequired :: "handler_fn \<Rightarrow> handler_fn" where
  "AuthRequired nxt s r =
     (if \<not> IsAuthenticated (rq_session r) (ws_auth s) then
        (if rq_hx r then (status 401)\<lparr>wr_hx_redirect := Some ''/login''\<rparr>
         else if Contains (rq_accept r) ''text/event-stream'' then status 401
         else (status 303)\<lparr>wr_location := Some ''/login''\<rparr>, s)
      else nxt s r)"

definition rotateCSRFToken :: "string option \<Rightarrow> string + string" where
  "rotateCSRFToken rand = (case rand of None \<Rightarrow> Inl ''generate csrf token'' | Some b \<Rightarrow> Inr (hex_encode b))"

text \<open>The token, and the cookie to set for it if it is new.\<close>

definition getOrCreateCSRFToken :: "request \<Rightarrow> string + string \<times> string list" where
  "getOrCreateCSRFToken r =
     (case rq_csrf_cookie r of
        Some v \<Rightarrow> Inr (v, [])
      | None \<Rightarrow> (case rotateCSRFToken (rq_rand_csrf r) of Inl e \<Rightarrow> Inl e | Inr t \<Rightarrow> Inr (t, [t])))"

definition maxRequestBodyBytes :: int where "maxRequestBodyBytes = 1048576"
definition maxImportBodyBytes :: int where "maxImportBodyBytes = 67108864"

definition requestBodyLimit :: "request \<Rightarrow> int" where
  "requestBodyLimit r =
     (if rq_method r = ''POST'' \<and> url_path r = ''/system/backup/import'' then maxImportBodyBytes
      else maxRequestBodyBytes)"

definition formCSRFToken :: "request \<Rightarrow> string" where
  "formCSRFToken r = (if rq_multipart r \<and> rq_multipart_err r then [] else rq_csrf_form r)"

definition csrf_token_of :: "request \<Rightarrow> string" where
  "csrf_token_of r = (if rq_csrf_header r = [] then formCSRFToken r else rq_csrf_header r)"

definition CSRFProtect :: "handler_fn \<Rightarrow> handler_fn" where
  "CSRFProtect nxt s r =
     (if rq_method r = ''GET'' \<or> rq_method r = ''HEAD'' then
        (case getOrCreateCSRFToken r of
           Inl e \<Rightarrow> (status 500, s)
         | Inr (token, set_cookie) \<Rightarrow>
             (let (w, s') = nxt s r in
              (w\<lparr>wr_csrf := set_cookie @ wr_csrf w, wr_headers := (''X-CSRF-Token'', token) # wr_headers w\<rparr>, s')))
      else (case rq_csrf_cookie r of
              None \<Rightarrow> (status 403, s)
            | Some v \<Rightarrow>
                let token = csrf_token_of r in
                if token = [] \<or> token \<noteq> v then (status 403, s) else nxt s r))"

text \<open>\<open>clientIP\<close>, and the networks and the test of \<open>LANOnly\<close>.\<close>

definition clientIP :: "request \<Rightarrow> string" where
  "clientIP r = (case SplitHostPort (rq_remote r) of None \<Rightarrow> rq_remote r | Some (host, _) \<Rightarrow> host)"

fun interface_nets :: "InterfaceConfig list \<Rightarrow> ipnet list" where
  "interface_nets [] = []"
| "interface_nets (iface # rest) =
     (if ic_Role iface \<noteq> ''lan'' \<or> ic_Address iface = [] then interface_nets rest
      else (case ParseCIDR (ic_Address iface) of
              Some (_, n) \<Rightarrow> n # interface_nets rest
            | None \<Rightarrow> interface_nets rest))"

definition lanAllowedNets :: "Config \<Rightarrow> ipnet list" where
  "lanAllowedNets cfg =
     (case ParseCIDR ''10.10.10.0/24'' of Some (_, n) \<Rightarrow> [n] | None \<Rightarrow> []) @ interface_nets (cfg_Interfaces cfg)"

definition lan_admits :: "ipnet list \<Rightarrow> string \<Rightarrow> bool" where
  "lan_admits nets remote =
     (let host = (case SplitHostPort remote of None \<Rightarrow> remote | Some (h, _) \<Rightarrow> h) in
      case ParseIP host of
        None \<Rightarrow> False
      | Some i \<Rightarrow> IsLoopback i \<or> list_ex (\<lambda>n. Contains_ip n i) nets)"

definition LANOnly :: "ipnet list \<Rightarrow> handler_fn \<Rightarrow> handler_fn" where
  "LANOnly nets nxt s r = (if lan_admits nets (rq_remote r) then nxt s r else (status 403, s))"

text \<open>One limiter of the state, selected by its field and updated through \<open>put\<close>.\<close>

definition RateLimit_Middleware ::
    "(rat \<Rightarrow> rat) \<Rightarrow> (web_state \<Rightarrow> RateLimiter) \<Rightarrow> (RateLimiter \<Rightarrow> web_state \<Rightarrow> web_state) \<Rightarrow> handler_fn \<Rightarrow> handler_fn" where
  "RateLimit_Middleware rnd get put nxt s r =
     (let ((ok, wait), rl) = allow rnd (rq_now r) (clientIP r) (get s);
          s' = put rl s in
      if \<not> ok then ((status 429)\<lparr>wr_retry := Some (setRetryAfter rnd wait)\<rparr>, s') else nxt s' r)"

definition security_headers :: "(string \<times> string) list" where
  "security_headers =
     [(''Content-Security-Policy'', ''default-src '' @ quoted ''self'' @ ''; script-src '' @ quoted ''self'' @
         ''; style-src '' @ quoted ''self'' @ '' '' @ quoted ''unsafe-inline'' @ ''; img-src '' @ quoted ''self'' @
         '' data:; connect-src '' @ quoted ''self'' @ ''; font-src '' @ quoted ''self'' @ ''; base-uri '' @ quoted ''self'' @
         ''; form-action '' @ quoted ''self'' @ ''; frame-ancestors '' @ quoted ''none''),
      (''X-Content-Type-Options'', ''nosniff''), (''X-Frame-Options'', ''DENY''),
      (''Referrer-Policy'', ''strict-origin-when-cross-origin''), (''Cache-Control'', ''no-store'')]"

definition SecurityHeaders :: "handler_fn \<Rightarrow> handler_fn" where
  "SecurityHeaders nxt s r = (let (w, s') = nxt s r in (w\<lparr>wr_headers := security_headers @ wr_headers w\<rparr>, s'))"

section \<open>Sessions\<close>

definition handleLoginPage :: handler_fn where
  "handleLoginPage s r =
     (if IsAuthenticated (rq_session r) (ws_auth s) then ((status 303)\<lparr>wr_location := Some ''/''\<rparr>, s)
      else (case getOrCreateCSRFToken r of
              Inl e \<Rightarrow> (status 500, s)
            | Inr (token, c) \<Rightarrow> ((status 200)\<lparr>wr_csrf := c\<rparr>, s)))"

definition renderLoginError :: "request \<Rightarrow> int \<Rightarrow> response" where
  "renderLoginError r code =
     (case getOrCreateCSRFToken r of Inl e \<Rightarrow> status 500 | Inr (token, c) \<Rightarrow> (status code)\<lparr>wr_csrf := c\<rparr>)"

text \<open>\<open>awaitLoginBudget\<close> returns the instant at which the attempt goes on, or the answer.\<close>

definition awaitLoginBudget :: "(rat \<Rightarrow> rat) \<Rightarrow> web_state \<Rightarrow> request \<Rightarrow> (response + int) \<times> web_state" where
  "awaitLoginBudget rnd s r =
     (let ((wait, granted), b) = Reserve (rq_now r) (ws_budget s);
          s' = s\<lparr>ws_budget := b\<rparr> in
      if \<not> granted then (Inl ((renderLoginError r 429)\<lparr>wr_retry := Some (setRetryAfter rnd wait)\<rparr>), s')
      else if wait = 0 then (Inr (rq_now r), s')
      else if rq_gone r then (Inl (status 200), s')
      else (Inr (rq_now r + wait), s'))"

definition handleLogin :: "(rat \<Rightarrow> rat) \<Rightarrow> (string \<Rightarrow> string \<Rightarrow> bool) \<Rightarrow> handler_fn" where
  "handleLogin rnd matches s r =
     (let ip = clientIP r;
          (wait, g) = LockedFor (rq_now r) ip (ws_guard s);
          s0 = s\<lparr>ws_guard := g\<rparr> in
      if wait > 0 then ((renderLoginError r 429)\<lparr>wr_retry := Some (setRetryAfter rnd wait)\<rparr>, s0)
      else (case awaitLoginBudget rnd s0 r of
              (Inl w, s1) \<Rightarrow> (w, s1)
            | (Inr t, s1) \<Rightarrow>
                if \<not> VerifyPassword matches (rq_password r) (ws_auth s1) then
                  (let b = budget_failure t (ws_budget s1);
                       (lockout, g1) = RecordFailure t ip (ws_guard s1);
                       s2 = s1\<lparr>ws_budget := b, ws_guard := g1\<rparr> in
                   if lockout > 0 then ((renderLoginError r 429)\<lparr>wr_retry := Some (setRetryAfter rnd lockout)\<rparr>, s2)
                   else (renderLoginError r 401, s2))
                else
                  (let s2 = s1\<lparr>ws_guard := RecordSuccess ip (ws_guard s1)\<rparr> in
                   case rotateCSRFToken (rq_rand_csrf r) of
                     Inl e \<Rightarrow> (status 500, s2)
                   | Inr token \<Rightarrow>
                       if rq_rand_sid r = None then ((status 500)\<lparr>wr_csrf := [token]\<rparr>, s2)
                       else
                         (let (c, a) = Login (rq_rand_sid r) (rq_session r) (ws_auth s2);
                              s3 = s2\<lparr>ws_auth := a\<rparr> in
                          if rq_hx r then
                            ((status 200)\<lparr>wr_csrf := [token], wr_session := c, wr_hx_redirect := Some ''/''\<rparr>, s3)
                          else
                            ((status 303)\<lparr>wr_csrf := [token], wr_session := c, wr_location := Some ''/''\<rparr>, s3)))))"

definition handleLogout :: handler_fn where
  "handleLogout s r =
     (let (c, a) = Logout (rq_session r) (ws_auth s);
          s' = s\<lparr>ws_auth := a\<rparr>;
          toks = (case rotateCSRFToken (rq_rand_csrf r) of Inl e \<Rightarrow> [] | Inr t \<Rightarrow> [t]) in
      if rq_hx r then ((status 200)\<lparr>wr_csrf := toks, wr_session := c, wr_hx_redirect := Some ''/login''\<rparr>, s')
      else ((status 303)\<lparr>wr_csrf := toks, wr_session := c, wr_location := Some ''/login''\<rparr>, s'))"

section \<open>Routes\<close>

datatype access = Open | Authed
datatype limit = Unlimited | LoginLimited | ProbeLimited

record route =
  rt_method :: string
  rt_pattern :: "string list"
  rt_access :: access
  rt_limit :: limit
  rt_handler :: string

definition rt :: "string \<Rightarrow> string \<Rightarrow> access \<Rightarrow> limit \<Rightarrow> string \<Rightarrow> route" where
  "rt m pat a l h =
     \<lparr>rt_method = m, rt_pattern = split_on (CHR ''/'') (tl pat), rt_access = a, rt_limit = l, rt_handler = h\<rparr>"

definition routes :: "route list" where
  "routes = [
   rt ''GET'' ''/static/'' Open Unlimited ''static'',
   rt ''GET'' ''/login'' Open Unlimited ''handleLoginPage'',
   rt ''POST'' ''/login'' Open LoginLimited ''handleLogin'',
   rt ''POST'' ''/logout'' Open Unlimited ''handleLogout'',
   rt ''POST'' ''/settings/lang'' Open Unlimited ''handleLangSwitch'',
   rt ''GET'' ''/{$}'' Authed Unlimited ''dashboard.HandlePage'',
   rt ''GET'' ''/events/stats'' Authed Unlimited ''sse.ServeHTTP'',
   rt ''GET'' ''/events/qos'' Authed Unlimited ''qosSse.ServeHTTP'',
   rt ''GET'' ''/settings'' Authed Unlimited ''settings.HandleSettingsPage'',
   rt ''POST'' ''/settings/web-password'' Authed Unlimited ''settings.HandleChangeWebPassword'',
   rt ''POST'' ''/settings/root-password'' Authed Unlimited ''settings.HandleChangeRootPassword'',
   rt ''POST'' ''/settings/hostname'' Authed Unlimited ''settings.HandleUpdateHostname'',
   rt ''POST'' ''/settings/timezone'' Authed Unlimited ''settings.HandleUpdateTimezone'',
   rt ''POST'' ''/settings/tls/regenerate'' Authed Unlimited ''settings.HandleRegenerateTLS'',
   rt ''POST'' ''/settings/tls/mode'' Authed Unlimited ''settings.HandleSetTLSMode'',
   rt ''GET'' ''/settings/tls/ca'' Authed Unlimited ''settings.HandleDownloadMkcertCA'',
   rt ''POST'' ''/settings/tls/acme'' Authed Unlimited ''settings.HandleConfigureACME'',
   rt ''POST'' ''/system/reboot'' Authed Unlimited ''settings.HandleReboot'',
   rt ''POST'' ''/system/factory-reset'' Authed Unlimited ''settings.HandleFactoryReset'',
   rt ''GET'' ''/system/backup/export'' Authed Unlimited ''settings.HandleExport'',
   rt ''POST'' ''/system/backup/import'' Authed Unlimited ''settings.HandleImport'',
   rt ''GET'' ''/backup'' Authed Unlimited ''backuph.HandleBackupPage'',
   rt ''POST'' ''/backup/schedule'' Authed Unlimited ''backuph.HandleSaveSchedule'',
   rt ''POST'' ''/backup/target'' Authed Unlimited ''backuph.HandleAddTarget'',
   rt ''DELETE'' ''/backup/target/{name}'' Authed Unlimited ''backuph.HandleDeleteTarget'',
   rt ''POST'' ''/backup/run'' Authed Unlimited ''backuph.HandleRunNow'',
   rt ''GET'' ''/backup/history'' Authed Unlimited ''backuph.HandleHistory'',
   rt ''GET'' ''/system/update/check'' Authed Unlimited ''settings.HandleCheckUpdate'',
   rt ''POST'' ''/system/update/apply'' Authed Unlimited ''settings.HandleApplyUpdate'',
   rt ''POST'' ''/system/update/confirm'' Authed Unlimited ''settings.HandleConfirmUpdate'',
   rt ''POST'' ''/system/update/rollback'' Authed Unlimited ''settings.HandleRollbackUpdate'',
   rt ''GET'' ''/api/version'' Open Unlimited ''settings.HandleVersion'',
   rt ''GET'' ''/metrics'' Open Unlimited ''metricsh.HandleMetrics'',
   rt ''GET'' ''/network'' Authed Unlimited ''network.HandlePage'',
   rt ''POST'' ''/network/pppoe/connect'' Authed Unlimited ''pppoe.HandleConnect'',
   rt ''POST'' ''/network/pppoe/disconnect'' Authed Unlimited ''pppoe.HandleDisconnect'',
   rt ''POST'' ''/network/pppoe/sniff/start'' Authed Unlimited ''pppoe.HandleSniffStart'',
   rt ''POST'' ''/network/pppoe/sniff/stop'' Authed Unlimited ''pppoe.HandleSniffStop'',
   rt ''POST'' ''/network/first-boot/complete'' Authed Unlimited ''network.HandleCompleteFirstBoot'',
   rt ''POST'' ''/network/interface'' Authed Unlimited ''network.HandleSetInterface'',
   rt ''DELETE'' ''/network/interface/{id}'' Authed Unlimited ''network.HandleRemoveInterface'',
   rt ''POST'' ''/network/usb/enable'' Authed Unlimited ''network.HandleUSBEnable'',
   rt ''POST'' ''/network/usb/disable'' Authed Unlimited ''network.HandleUSBDisable'',
   rt ''POST'' ''/network/usb/auto-failover'' Authed Unlimited ''network.HandleUSBAutoFailover'',
   rt ''POST'' ''/network/usb/activate'' Authed Unlimited ''network.HandleUSBActivate'',
   rt ''POST'' ''/network/usb/deactivate'' Authed Unlimited ''network.HandleUSBDeactivate'',
   rt ''GET'' ''/network/healthcheck/status'' Authed Unlimited ''health.HandleStatus'',
   rt ''POST'' ''/network/healthcheck/{name}/reset'' Authed Unlimited ''health.HandleReset'',
   rt ''POST'' ''/network/vlan'' Authed Unlimited ''vlan.HandleAdd'',
   rt ''DELETE'' ''/network/vlan/{id}'' Authed Unlimited ''vlan.HandleDelete'',
   rt ''GET'' ''/firewall'' Authed Unlimited ''firewall.HandlePage'',
   rt ''POST'' ''/firewall/apply'' Authed Unlimited ''firewall.HandleApply'',
   rt ''POST'' ''/firewall/confirm'' Authed Unlimited ''firewall.HandleConfirm'',
   rt ''POST'' ''/firewall/rollback'' Authed Unlimited ''firewall.HandleRollback'',
   rt ''POST'' ''/firewall/ttl-fix'' Authed Unlimited ''firewall.HandleSetTTLFix'',
   rt ''POST'' ''/firewall/port-forwards'' Authed Unlimited ''firewall.HandleAddPortForward'',
   rt ''DELETE'' ''/firewall/port-forwards/{index}'' Authed Unlimited ''firewall.HandleDeletePortForward'',
   rt ''POST'' ''/firewall/open-ports'' Authed Unlimited ''firewall.HandleAddOpenPort'',
   rt ''DELETE'' ''/firewall/open-ports/{index}'' Authed Unlimited ''firewall.HandleDeleteOpenPort'',
   rt ''POST'' ''/firewall/open-ports/{index}/toggle'' Authed Unlimited ''firewall.HandleToggleOpenPort'',
   rt ''POST'' ''/firewall/rules'' Authed Unlimited ''firewall.HandleAddRule'',
   rt ''DELETE'' ''/firewall/rules/{index}'' Authed Unlimited ''firewall.HandleDeleteRule'',
   rt ''POST'' ''/firewall/rules/{index}/toggle'' Authed Unlimited ''firewall.HandleToggleRule'',
   rt ''GET'' ''/dns'' Authed Unlimited ''dns.HandlePage'',
   rt ''POST'' ''/dns/clear-log'' Authed Unlimited ''dns.HandleClearLog'',
   rt ''POST'' ''/dns/blocklist/update'' Authed Unlimited ''dns.HandleUpdateBlocklist'',
   rt ''POST'' ''/dns/dot'' Authed Unlimited ''dns.HandleSaveDoT'',
   rt ''POST'' ''/dns/dot/probe'' Authed ProbeLimited ''dns.HandleProbeDoT'',
   rt ''POST'' ''/dns/doh/probe'' Authed ProbeLimited ''dns.HandleProbeDoH'',
   rt ''POST'' ''/dns/records'' Authed Unlimited ''dns.HandleAddRecord'',
   rt ''DELETE'' ''/dns/records/{index}'' Authed Unlimited ''dns.HandleDeleteRecord'',
   rt ''GET'' ''/dhcp'' Authed Unlimited ''dhcp.HandlePage'',
   rt ''POST'' ''/dhcp/static'' Authed Unlimited ''dhcp.HandleAddStatic'',
   rt ''DELETE'' ''/dhcp/static/{index}'' Authed Unlimited ''dhcp.HandleDeleteStatic'',
   rt ''GET'' ''/ipv6'' Authed Unlimited ''ipv6.HandlePage'',
   rt ''POST'' ''/ipv6/save'' Authed Unlimited ''ipv6.HandleSave'',
   rt ''POST'' ''/ipv6/renew'' Authed Unlimited ''ipv6.HandleRenew'',
   rt ''POST'' ''/ipv6/release'' Authed Unlimited ''ipv6.HandleRelease'',
   rt ''POST'' ''/ipv6/start'' Authed Unlimited ''ipv6.HandleStart'',
   rt ''POST'' ''/ipv6/stop'' Authed Unlimited ''ipv6.HandleStop'',
   rt ''POST'' ''/ipv6/tunnel/update'' Authed Unlimited ''ipv6.HandleTunnelUpdateNow'',
   rt ''POST'' ''/ipv6/subnet-map'' Authed Unlimited ''ipv6.HandleSubnetMap'',
   rt ''GET'' ''/qos'' Authed Unlimited ''qos.HandlePage'',
   rt ''POST'' ''/qos/apply'' Authed Unlimited ''qos.HandleApply'',
   rt ''POST'' ''/qos/clear'' Authed Unlimited ''qos.HandleClear'',
   rt ''GET'' ''/vpn'' Authed Unlimited ''vpn.HandlePage'',
   rt ''POST'' ''/vpn/server/peer'' Authed Unlimited ''vpn.HandleAddPeer'',
   rt ''GET'' ''/vpn/server/peer/{name}/config'' Authed Unlimited ''vpn.HandleDownloadPeerConfig'',
   rt ''DELETE'' ''/vpn/server/peer/{name}'' Authed Unlimited ''vpn.HandleRemovePeer'',
   rt ''POST'' ''/vpn/server/start'' Authed Unlimited ''vpn.HandleServerStart'',
   rt ''POST'' ''/vpn/server/stop'' Authed Unlimited ''vpn.HandleServerStop'',
   rt ''POST'' ''/vpn/client/{name}/connect'' Authed Unlimited ''vpn.HandleConnectClient'',
   rt ''POST'' ''/vpn/client/{name}/disconnect'' Authed Unlimited ''vpn.HandleDisconnectClient'',
   rt ''GET'' ''/vpn/s2s'' Authed Unlimited ''vpn.HandleS2SWizardPage'',
   rt ''POST'' ''/vpn/s2s/invite'' Authed Unlimited ''vpn.HandleS2SInvite'',
   rt ''POST'' ''/vpn/s2s/join'' Authed Unlimited ''vpn.HandleS2SJoin'',
   rt ''POST'' ''/vpn/s2s/finalize'' Authed Unlimited ''vpn.HandleS2SFinalize'',
   rt ''DELETE'' ''/vpn/s2s/{name}'' Authed Unlimited ''vpn.HandleS2SCancel'',
   rt ''GET'' ''/vpn/s2s/{name}/health'' Authed Unlimited ''vpn.HandleS2SHealth'',
   rt ''POST'' ''/vpn/s2s/{name}/reachability'' Authed Unlimited ''vpn.HandleS2SReachability'',
   rt ''GET'' ''/openvpn'' Authed Unlimited ''ovpn.HandlePage'',
   rt ''POST'' ''/openvpn/init-pki'' Authed Unlimited ''ovpn.HandleInitPKI'',
   rt ''POST'' ''/openvpn/server/start'' Authed Unlimited ''ovpn.HandleServerStart'',
   rt ''POST'' ''/openvpn/server/stop'' Authed Unlimited ''ovpn.HandleServerStop'',
   rt ''POST'' ''/openvpn/server/client'' Authed Unlimited ''ovpn.HandleAddClient'',
   rt ''DELETE'' ''/openvpn/server/client/{name}'' Authed Unlimited ''ovpn.HandleRevokeClient'',
   rt ''GET'' ''/openvpn/server/client/{name}/config'' Authed Unlimited ''ovpn.HandleDownloadOVPN'',
   rt ''POST'' ''/openvpn/client'' Authed Unlimited ''ovpn.HandleAddOutboundClient'',
   rt ''POST'' ''/openvpn/client/{name}/connect'' Authed Unlimited ''ovpn.HandleConnectOutbound'',
   rt ''POST'' ''/openvpn/client/{name}/disconnect'' Authed Unlimited ''ovpn.HandleDisconnectOutbound'',
   rt ''GET'' ''/routing'' Authed Unlimited ''routing.HandlePage'',
   rt ''POST'' ''/routing/policy'' Authed Unlimited ''routing.HandleAddPolicy'',
   rt ''DELETE'' ''/routing/policy/{name}'' Authed Unlimited ''routing.HandleDeletePolicy'',
   rt ''POST'' ''/routing/reorder'' Authed Unlimited ''routing.HandleReorder'',
   rt ''GET'' ''/nas'' Authed Unlimited ''nas.HandlePage'',
   rt ''POST'' ''/nas/shares'' Authed Unlimited ''nas.HandleAddShare'',
   rt ''DELETE'' ''/nas/shares/{name}'' Authed Unlimited ''nas.HandleDeleteShare'',
   rt ''POST'' ''/nas/m3u/sync'' Authed Unlimited ''nas.HandleSyncM3U'',
   rt ''POST'' ''/nas/m3u/discover-groups'' Authed Unlimited ''nas.HandleDiscoverGroups'',
   rt ''GET'' ''/storage'' Authed Unlimited ''storageh.HandlePage'',
   rt ''GET'' ''/syslog'' Authed Unlimited ''syslogh.HandlePage'',
   rt ''POST'' ''/syslog/server'' Authed Unlimited ''syslogh.HandleSaveServerConfig'',
   rt ''POST'' ''/syslog/client'' Authed Unlimited ''syslogh.HandleSaveClientConfig'',
   rt ''POST'' ''/syslog/client/facilities'' Authed Unlimited ''syslogh.HandleAddFacility'',
   rt ''DELETE'' ''/syslog/client/facilities/{index}'' Authed Unlimited ''syslogh.HandleRemoveFacility'',
   rt ''GET'' ''/ntp'' Authed Unlimited ''ntph.HandlePage'',
   rt ''POST'' ''/ntp/force-sync'' Authed Unlimited ''ntph.HandleForceSync'',
   rt ''POST'' ''/ntp/sources'' Authed Unlimited ''ntph.HandleAddSource'',
   rt ''DELETE'' ''/ntp/sources/{index}'' Authed Unlimited ''ntph.HandleRemoveSource'',
   rt ''POST'' ''/ntp/allow'' Authed Unlimited ''ntph.HandleAddAllowSubnet'',
   rt ''DELETE'' ''/ntp/allow/{index}'' Authed Unlimited ''ntph.HandleRemoveAllowSubnet'',
   rt ''POST'' ''/ntp/settings'' Authed Unlimited ''ntph.HandleSaveSettings'']"

text \<open>Pattern matching of \<open>http.ServeMux\<close> on the segments of a cleaned path: \<open>{name}\<close> is one
  non-empty segment, \<open>{$}\<close> the end of the path after a slash, a final slash any remainder; a
  \<open>GET\<close> pattern also serves \<open>HEAD\<close>. A path that is not clean is answered with a redirect.\<close>

fun seg_match :: "string list \<Rightarrow> string list \<Rightarrow> bool" where
  "seg_match [] [] = True"
| "seg_match (p # ps) (x # xs) =
     (if p = ''{$}'' then x = [] \<and> ps = [] \<and> xs = []
      else if p = [] then ps = []
      else if hd p = CHR ''{'' then x \<noteq> [] \<and> seg_match ps xs
      else p = x \<and> seg_match ps xs)"
| "seg_match _ _ = False"

definition route_matches :: "request \<Rightarrow> route \<Rightarrow> bool" where
  "route_matches r e =
     ((rt_method e = rq_method r \<or> rt_method e = ''GET'' \<and> rq_method r = ''HEAD'') \<and>
      seg_match (rt_pattern e) (rq_segs r))"

definition clean_segs :: "string list \<Rightarrow> bool" where
  "clean_segs segs =
     (segs \<noteq> [] \<and> list_all (\<lambda>x. x \<noteq> ''.'' \<and> x \<noteq> ''..'') segs \<and> list_all (\<lambda>x. x \<noteq> []) (butlast segs))"

definition limited :: "(rat \<Rightarrow> rat) \<Rightarrow> limit \<Rightarrow> handler_fn \<Rightarrow> handler_fn" where
  "limited rnd l h =
     (case l of
        Unlimited \<Rightarrow> h
      | LoginLimited \<Rightarrow> RateLimit_Middleware rnd ws_login_limiter (\<lambda>rl s. s\<lparr>ws_login_limiter := rl\<rparr>) h
      | ProbeLimited \<Rightarrow> RateLimit_Middleware rnd ws_probe_limiter (\<lambda>rl s. s\<lparr>ws_probe_limiter := rl\<rparr>) h)"

definition route_target ::
    "(rat \<Rightarrow> rat) \<Rightarrow> (string \<Rightarrow> string \<Rightarrow> bool) \<Rightarrow> (string \<Rightarrow> handler_fn) \<Rightarrow> string \<Rightarrow> handler_fn" where
  "route_target rnd matches app h =
     (if h = ''handleLoginPage'' then handleLoginPage
      else if h = ''handleLogin'' then handleLogin rnd matches
      else if h = ''handleLogout'' then handleLogout
      else app h)"

definition mark :: "string \<Rightarrow> handler_fn \<Rightarrow> handler_fn" where
  "mark h nxt s r = (let (w, s') = nxt s r in (w\<lparr>wr_handler := Some h\<rparr>, s'))"

definition route_handler ::
    "(rat \<Rightarrow> rat) \<Rightarrow> (string \<Rightarrow> string \<Rightarrow> bool) \<Rightarrow> (string \<Rightarrow> handler_fn) \<Rightarrow> route \<Rightarrow> handler_fn" where
  "route_handler rnd matches app e =
     (let h = limited rnd (rt_limit e) (mark (rt_handler e) (route_target rnd matches app (rt_handler e))) in
      case rt_access e of Open \<Rightarrow> h | Authed \<Rightarrow> AuthRequired h)"

definition mux :: "(rat \<Rightarrow> rat) \<Rightarrow> (string \<Rightarrow> string \<Rightarrow> bool) \<Rightarrow> (string \<Rightarrow> handler_fn) \<Rightarrow> handler_fn" where
  "mux rnd matches app s r =
     (if \<not> clean_segs (rq_segs r) then (status 301, s)
      else (case find (route_matches r) routes of
              Some e \<Rightarrow> route_handler rnd matches app e s r
            | None \<Rightarrow> if list_ex (\<lambda>e. seg_match (rt_pattern e) (rq_segs r)) routes then (status 405, s)
                      else (status 404, s)))"

text \<open>The chain \<open>NewServer\<close> builds, outermost first. The request logger and the language middleware
  pass the request on unchanged.\<close>

definition serve ::
    "Config \<Rightarrow> (rat \<Rightarrow> rat) \<Rightarrow> (string \<Rightarrow> string \<Rightarrow> bool) \<Rightarrow> (string \<Rightarrow> handler_fn) \<Rightarrow> handler_fn" where
  "serve cfg rnd matches app =
     LANOnly (lanAllowedNets cfg)
       (RateLimit_Middleware rnd ws_limiter (\<lambda>rl s. s\<lparr>ws_limiter := rl\<rparr>)
         (CSRFProtect (SecurityHeaders (mux rnd matches app))))"

definition newServerState :: "string \<Rightarrow> web_state" where
  "newServerState hash = \<lparr>ws_auth = NewAuth hash, ws_guard = Map.empty,
     ws_budget = \<lparr>bfailures = [], bnext = None, bwarned = None\<rparr>,
     ws_limiter = the (NewRateLimiter (200 * Millisecond) 60),
     ws_login_limiter = the (NewRateLimiter (5 * Second) 5),
     ws_probe_limiter = the (NewRateLimiter Second 2)\<rparr>"

section \<open>Gates in sequence\<close>

text \<open>What a middleware promises: the handler behind it is only reached when its condition on the
  sessions and the request holds, and with the sessions as they were.\<close>

locale gate =
  fixes mw :: "handler_fn \<Rightarrow> handler_fn" and pass :: "auth \<Rightarrow> request \<Rightarrow> bool"
  assumes reached: "wr_handler (fst (mw nxt s r)) = Some h \<Longrightarrow>
    pass (ws_auth s) r \<and> (\<exists>s'. ws_auth s' = ws_auth s \<and> wr_handler (fst (nxt s' r)) = Some h)"

locale gate_pair = outer: gate mw1 pass1 + inner: gate mw2 pass2 for mw1 pass1 mw2 pass2
begin

lemma both: "wr_handler (fst (mw1 (mw2 nxt) s r)) = Some h \<Longrightarrow>
    (pass1 (ws_auth s) r \<and> pass2 (ws_auth s) r) \<and>
    (\<exists>s'. ws_auth s' = ws_auth s \<and> wr_handler (fst (nxt s' r)) = Some h)"
  by (metis outer.reached inner.reached)

end

sublocale gate_pair \<subseteq> pair: gate "\<lambda>nxt. mw1 (mw2 nxt)" "\<lambda>a r. pass1 a r \<and> pass2 a r"
  by unfold_locales (rule both)

interpretation lan: gate "LANOnly nets" "\<lambda>a r. lan_admits nets (rq_remote r)" for nets
  by unfold_locales (auto simp: LANOnly_def status_def split: if_splits)

lemma limiter_reached:
  assumes "\<And>rl s. ws_auth (put rl s) = ws_auth s" "wr_handler (fst (RateLimit_Middleware rnd get put nxt s r)) = Some h"
  shows "\<exists>s'. ws_auth s' = ws_auth s \<and> wr_handler (fst (nxt s' r)) = Some h"
proof -
  obtain ok wait rl where a: "allow rnd (rq_now r) (clientIP r) (get s) = ((ok, wait), rl)"
    by (metis prod.collapse)
  with assms(2) have "wr_handler (fst (nxt (put rl s) r)) = Some h"
    by (simp add: RateLimit_Middleware_def status_def Let_def split: if_splits)
  with assms(1) show ?thesis by blast
qed

interpretation global_limit: gate "RateLimit_Middleware rnd ws_limiter (\<lambda>rl s. s\<lparr>ws_limiter := rl\<rparr>)" "\<lambda>a r. True" for rnd
proof
  fix nxt s r h
  assume "wr_handler (fst (RateLimit_Middleware rnd ws_limiter (\<lambda>rl s. s\<lparr>ws_limiter := rl\<rparr>) nxt s r)) = Some h"
  then show "True \<and> (\<exists>s'. ws_auth s' = ws_auth s \<and> wr_handler (fst (nxt s' r)) = Some h)"
    using limiter_reached [of "\<lambda>rl s. s\<lparr>ws_limiter := rl\<rparr>" rnd ws_limiter nxt s r h] by simp
qed

definition csrf_checked :: "request \<Rightarrow> bool" where
  "csrf_checked r =
     (rq_method r = ''GET'' \<or> rq_method r = ''HEAD'' \<or>
      csrf_token_of r \<noteq> [] \<and> rq_csrf_cookie r = Some (csrf_token_of r))"

interpretation csrf: gate CSRFProtect "\<lambda>a r. csrf_checked r"
  by unfold_locales
     (auto simp: CSRFProtect_def csrf_checked_def status_def Let_def case_prod_unfold
       split: if_splits sum.splits option.splits)

interpretation headers: gate SecurityHeaders "\<lambda>a r. True"
  by unfold_locales (auto simp: SecurityHeaders_def Let_def case_prod_unfold)

interpretation authed: gate AuthRequired "\<lambda>a r. IsAuthenticated (rq_session r) a"
  by unfold_locales (auto simp: AuthRequired_def status_def split: if_splits)

interpretation csrf_headers: gate_pair CSRFProtect "\<lambda>a r. csrf_checked r" SecurityHeaders "\<lambda>a r. True"
  by unfold_locales

interpretation limit_csrf: gate_pair "RateLimit_Middleware rnd ws_limiter (\<lambda>rl s. s\<lparr>ws_limiter := rl\<rparr>)" "\<lambda>a r. True"
    "\<lambda>nxt. CSRFProtect (SecurityHeaders nxt)" "\<lambda>a r. csrf_checked r \<and> True" for rnd
  by unfold_locales

interpretation chain: gate_pair "LANOnly nets" "\<lambda>a r. lan_admits nets (rq_remote r)"
    "\<lambda>nxt. RateLimit_Middleware rnd ws_limiter (\<lambda>rl s. s\<lparr>ws_limiter := rl\<rparr>) (CSRFProtect (SecurityHeaders nxt))"
    "\<lambda>a r. True \<and> (csrf_checked r \<and> True)" for nets rnd
  by unfold_locales

section \<open>The route table\<close>

definition open_handlers :: "string list" where
  "open_handlers = [''static'', ''handleLoginPage'', ''handleLogin'', ''handleLogout'', ''handleLangSwitch'',
     ''settings.HandleVersion'', ''metricsh.HandleMetrics'']"

lemma open_routes: "list_all (\<lambda>e. rt_access e = Open \<longrightarrow> rt_handler e \<in> set open_handlers) routes"
  by code_simp

lemma limited_reached:
  "wr_handler (fst (limited rnd l nxt s r)) = Some h \<Longrightarrow>
   \<exists>s'. ws_auth s' = ws_auth s \<and> wr_handler (fst (nxt s' r)) = Some h"
proof (cases l)
  case LoginLimited
  assume "wr_handler (fst (limited rnd l nxt s r)) = Some h"
  with LoginLimited show ?thesis
    using limiter_reached [of "\<lambda>rl s. s\<lparr>ws_login_limiter := rl\<rparr>" rnd ws_login_limiter nxt s r h]
    by (simp add: limited_def)
next
  case ProbeLimited
  assume "wr_handler (fst (limited rnd l nxt s r)) = Some h"
  with ProbeLimited show ?thesis
    using limiter_reached [of "\<lambda>rl s. s\<lparr>ws_probe_limiter := rl\<rparr>" rnd ws_probe_limiter nxt s r h]
    by (simp add: limited_def)
qed (auto simp: limited_def)

lemma mark_handler: "wr_handler (fst (mark h nxt s r)) = Some h' \<Longrightarrow> h' = h"
  by (simp add: mark_def Let_def case_prod_unfold)

lemma mux_reached:
  assumes "wr_handler (fst (mux rnd matches app s r)) = Some h"
  shows "h \<in> set open_handlers \<or> IsAuthenticated (rq_session r) (ws_auth s)"
proof -
  obtain e where e: "find (route_matches r) routes = Some e"
      and w: "wr_handler (fst (route_handler rnd matches app e s r)) = Some h"
    using assms by (auto simp: mux_def status_def split: if_splits option.splits)
  from e have mem: "e \<in> set routes" by (auto simp: find_Some_iff)
  let ?h = "limited rnd (rt_limit e) (mark (rt_handler e) (route_target rnd matches app (rt_handler e)))"
  show ?thesis
  proof (cases "rt_access e")
    case Open
    with w have "wr_handler (fst (?h s r)) = Some h" by (simp add: route_handler_def)
    then have "h = rt_handler e" using limited_reached mark_handler by blast
    with Open open_routes mem show ?thesis by (auto simp: list_all_iff)
  next
    case Authed
    with w have "wr_handler (fst (AuthRequired ?h s r)) = Some h" by (simp add: route_handler_def)
    then show ?thesis using authed.reached by blast
  qed
qed

text \<open>Whether some path matches both patterns.\<close>

fun overlap :: "string list \<Rightarrow> string list \<Rightarrow> bool" where
  "overlap [] [] = True"
| "overlap (p # ps) (q # qs) =
     (if p = [] \<or> q = [] then True
      else if p = ''{$}'' \<or> q = ''{$}'' then p = q \<and> ps = [] \<and> qs = []
      else if hd p = CHR ''{'' \<or> hd q = CHR ''{'' \<or> p = q then overlap ps qs
      else False)"
| "overlap _ _ = False"

lemma overlap_sound: "seg_match p x \<Longrightarrow> seg_match q x \<Longrightarrow> overlap p q"
proof (induction p x arbitrary: q rule: seg_match.induct)
  case 1
  then show ?case by (cases q) auto
next
  case (2 p ps x xs)
  then show ?case by (cases q) (auto split: if_splits)
qed auto

text \<open>The table is compared by the fingerprints of its words: different fingerprints come from
  different words.\<close>

definition fingerprint :: "string \<Rightarrow> int" where
  "fingerprint w = (if w = [] then -1 else if w = ''{$}'' then -2 else if hd w = CHR ''{'' then -3
     else foldl (\<lambda>n c. 2 * n + of_char c) 0 w)"

fun overlap_fp :: "int list \<Rightarrow> int list \<Rightarrow> bool" where
  "overlap_fp [] [] = True"
| "overlap_fp (p # ps) (q # qs) =
     (if p = q then p < 0 \<and> p \<noteq> -3 \<or> overlap_fp ps qs
      else if p = -1 \<or> q = -1 then True
      else if p = -3 \<or> q = -3 then overlap_fp ps qs
      else False)"
| "overlap_fp _ _ = False"

fun no_conflict :: "(int \<times> int list) list \<Rightarrow> bool" where
  "no_conflict [] = True"
| "no_conflict (e # es) =
     (list_all (\<lambda>f. fst e \<noteq> fst f \<or> \<not> overlap_fp (snd e) (snd f)) es \<and> no_conflict es)"

definition route_fp :: "route \<Rightarrow> int \<times> int list" where
  "route_fp e = (fingerprint (rt_method e), map fingerprint (rt_pattern e))"

lemma of_char_nonneg: "0 \<le> (of_char c :: int)"
  by (metis of_nat_0_le_iff of_nat_of_char)

lemma fingerprint_pos: "0 \<le> foldl (\<lambda>n c. 2 * n + of_char c) (0 :: int) w"
  by (induction w rule: rev_induct) (simp_all add: of_char_nonneg)

lemma fingerprint_cases:
  "fingerprint w = -1 \<longleftrightarrow> w = []" "fingerprint w = -2 \<longleftrightarrow> w = ''{$}''"
  "fingerprint w = -3 \<longleftrightarrow> w \<noteq> [] \<and> w \<noteq> ''{$}'' \<and> hd w = CHR ''{''"
  using fingerprint_pos [of w] by (auto simp: fingerprint_def)

lemma overlap_fingerprint: "overlap ps qs \<Longrightarrow> overlap_fp (map fingerprint ps) (map fingerprint qs)"
proof (induction ps qs rule: overlap.induct)
  case (2 p ps q qs)
  show ?case
  proof (cases "fingerprint p = fingerprint q")
    case True
    with 2 show ?thesis
      using fingerprint_cases [of p] fingerprint_cases [of q]
      by (cases "p = []"; cases "q = []"; cases "p = ''{$}''"; cases "q = ''{$}''") (auto split: if_splits)
  next
    case False
    with 2 show ?thesis
      using fingerprint_cases [of p] fingerprint_cases [of q]
      by (cases "p = []"; cases "q = []"; cases "p = ''{$}''"; cases "q = ''{$}''") (auto split: if_splits)
  qed
qed auto

lemma routes_methods: "list_all (\<lambda>e. rt_method e \<in> set [''GET'', ''POST'', ''DELETE'']) routes"
  by code_simp

lemma no_overlap: "no_conflict (map route_fp routes)"
  by code_simp

lemma no_conflict_unique:
  assumes m: "\<And>e. e \<in> set es \<Longrightarrow> route_matches r e \<Longrightarrow> rt_method e = m"
  shows "no_conflict (map route_fp es) \<Longrightarrow> length (filter (route_matches r) es) \<le> 1"
  using m
proof (induction es)
  case (Cons e es)
  have "filter (route_matches r) es = []" if e: "route_matches r e"
  proof (rule ccontr)
    assume "filter (route_matches r) es \<noteq> []"
    then obtain f where f: "f \<in> set es" "route_matches r f" by (metis filter_False)
    have "overlap (rt_pattern e) (rt_pattern f)"
      using e f(2) overlap_sound by (auto simp: route_matches_def)
    then have "overlap_fp (snd (route_fp e)) (snd (route_fp f))"
      using overlap_fingerprint by (simp add: route_fp_def)
    moreover have "fst (route_fp e) = fst (route_fp f)"
      using Cons.prems(2) [of e] Cons.prems(2) [of f] e f by (simp add: route_fp_def)
    ultimately show False using Cons.prems(1) f(1) by (auto simp: list_all_iff)
  qed
  with Cons show ?case by simp
qed simp

text \<open>A request of a signed-in operator to apply the firewall.\<close>

definition sample_session :: session_values where
  "sample_session = \<lparr>sv_auth = Some True, sv_sid = Some ''s1''\<rparr>"

definition sample_request :: request where
  "sample_request = \<lparr>rq_method = ''POST'', rq_segs = [''firewall'', ''apply''], rq_remote = ''127.0.0.1:50000'', rq_now = 0,
     rq_session = Some sample_session, rq_csrf_cookie = Some ''t1'', rq_csrf_header = ''t1'', rq_multipart = False,
     rq_multipart_err = False, rq_csrf_form = [], rq_password = [], rq_hx = False, rq_accept = [], rq_rand_csrf = None,
     rq_rand_sid = None, rq_gone = False\<rparr>"

definition sample_server :: web_state where
  "sample_server = (newServerState [])\<lparr>ws_auth := \<lparr>passwordHash = [], sessions = {''s1''}\<rparr>\<rparr>"

lemma sample_route:
  "find (route_matches sample_request) routes = Some (rt ''POST'' ''/firewall/apply'' Authed Unlimited ''firewall.HandleApply'')"
  by code_simp

lemma sample_reaches:
  "wr_handler (fst (serve zero_Config (\<lambda>x. x) (\<lambda>_ _. False) (\<lambda>_ s r. (status 200, s)) sample_server sample_request)) =
     Some ''firewall.HandleApply''"
proof -
  have "lan_admits (lanAllowedNets zero_Config) ''127.0.0.1:50000''" by code_simp
  moreover have "clean_segs [''firewall'', ''apply'']" by code_simp
  moreover note sample_route
  ultimately show ?thesis
    by (simp add: serve_def LANOnly_def RateLimit_Middleware_def sample_server_def newServerState_def NewRateLimiter_def
        allow_def CSRFProtect_def csrf_token_of_def SecurityHeaders_def mux_def route_handler_def rt_def AuthRequired_def
        IsAuthenticated_def sessionID_def limited_def mark_def route_target_def Let_def sample_session_def
        sample_request_def)
qed

section \<open>Properties\<close>

text \<open>(C3) No request reaches a page handler around the gates. Whatever the configuration, the state
  of the server and the page handlers do, if the handler a route names runs, then the peer's address
  is loopback or in a LAN network; unless the method is GET or HEAD, the request carried a CSRF
  token equal to its cookie and not empty; and unless the handler is one of the seven public ones,
  the session cookie was authenticated.\<close>

theorem handlers_behind_gates:
  assumes "wr_handler (fst (serve cfg rnd matches app s r)) = Some h"
  shows "lan_admits (lanAllowedNets cfg) (rq_remote r) \<and>
    (rq_method r = ''GET'' \<or> rq_method r = ''HEAD'' \<or>
     csrf_token_of r \<noteq> [] \<and> rq_csrf_cookie r = Some (csrf_token_of r)) \<and>
    (h \<in> set open_handlers \<or> IsAuthenticated (rq_session r) (ws_auth s))"
proof -
  from assms obtain s' where g: "lan_admits (lanAllowedNets cfg) (rq_remote r)" "csrf_checked r"
      and m: "ws_auth s' = ws_auth s" "wr_handler (fst (mux rnd matches app s' r)) = Some h"
    unfolding serve_def by (elim chain.both [elim_format] conjE exE) simp
  from g(1) g(2) [unfolded csrf_checked_def] mux_reached [OF m(2), unfolded m(1)] show ?thesis
    by (intro conjI)
qed

theorem handlers_behind_gates_witness:
  "lan_admits (lanAllowedNets zero_Config) ''127.0.0.1:50000'' \<and> csrf_token_of sample_request = ''t1'' \<and>
   IsAuthenticated (Some sample_session) (ws_auth sample_server)"
proof -
  have "''firewall.HandleApply'' \<notin> set open_handlers" by code_simp
  then show ?thesis
    using handlers_behind_gates [OF sample_reaches]
    by (simp add: sample_request_def csrf_token_of_def)
qed

text \<open>(C34) The route table is unambiguous: at most one route matches a request, so the order in which
  the routes are registered and the precedence rules of the multiplexer play no part.\<close>

theorem one_route_per_request: "length (filter (route_matches r) routes) \<le> 1"
proof -
  have "rt_method e = (if rq_method r = ''HEAD'' then ''GET'' else rq_method r)"
    if "e \<in> set routes" "route_matches r e" for e
    using that routes_methods by (auto simp: route_matches_def list_all_iff)
  then show ?thesis using no_overlap by (rule no_conflict_unique)
qed

text \<open>(C12) While an address is locked out its guesses are worth nothing: the answer to a login from it
  and the state it leaves do not depend on the password sent nor on what the password hash accepts,
  no session is opened, and the answer is 429 with the remaining time, or 500 when no CSRF token can
  be made for the page.\<close>

theorem locked_out_password_ignored:
  assumes "fst (LockedFor (rq_now r) (clientIP r) (ws_guard s)) > 0"
  shows "handleLogin rnd matches s r = handleLogin rnd matches' s (r\<lparr>rq_password := guess\<rparr>) \<and>
    ws_auth (snd (handleLogin rnd matches s r)) = ws_auth s \<and>
    wr_status (fst (handleLogin rnd matches s r)) \<in> {429, 500} \<and>
    wr_session (fst (handleLogin rnd matches s r)) = None \<and>
    wr_retry (fst (handleLogin rnd matches s r)) \<noteq> None"
proof -
  have frame: "clientIP (r\<lparr>rq_password := guess\<rparr>) = clientIP r"
    "renderLoginError (r\<lparr>rq_password := guess\<rparr>) = renderLoginError r" for guess
    by (simp_all add: clientIP_def renderLoginError_def getOrCreateCSRFToken_def fun_eq_iff cong: option.case_cong)
  have "wr_status (renderLoginError r 429) \<in> {429, 500}" "wr_session (renderLoginError r 429) = None"
    by (auto simp: renderLoginError_def status_def split: sum.split)
  with assms show ?thesis by (simp add: handleLogin_def Let_def case_prod_unfold frame)
qed

theorem locked_out_password_ignored_witness:
  "handleLogin (\<lambda>x. x) (\<lambda>_ p. p = ''right'') (sample_server\<lparr>ws_guard := [''127.0.0.1'' \<mapsto>
       \<lparr>failures = 5, lockedUntil = Some Minute, lastSeen = 0\<rparr>]\<rparr>) sample_request =
   handleLogin (\<lambda>x. x) (\<lambda>_ p. False) (sample_server\<lparr>ws_guard := [''127.0.0.1'' \<mapsto>
       \<lparr>failures = 5, lockedUntil = Some Minute, lastSeen = 0\<rparr>]\<rparr>) (sample_request\<lparr>rq_password := ''right''\<rparr>)"
proof -
  have "clientIP sample_request = ''127.0.0.1''" by code_simp
  then have "fst (LockedFor (rq_now sample_request) (clientIP sample_request) (ws_guard (sample_server\<lparr>ws_guard :=
      [''127.0.0.1'' \<mapsto> \<lparr>failures = 5, lockedUntil = Some Minute, lastSeen = 0\<rparr>]\<rparr>))) > 0"
    by (simp add: LockedFor_def sample_request_def loginFailureIdleReset_def)
  then show ?thesis by (rule locked_out_password_ignored [THEN conjunct1])
qed

end
