(* ===== verification/WebSSE.thy ===== *)
theory WebSSE
  imports Pool GoStrings "HOL-Library.Sublist"
begin

text \<open>
  The server-sent event broker of \<open>internal/web/sse.go\<close>. A channel is a number, fresh for each
  subscription, with its queue of undelivered frames; the broker's map is the list of the
  channels that are subscribed. The broker is one more \<open>bounded_pool\<close>.
\<close>

section \<open>The broker\<close>

definition maxSSESubscribers :: nat where "maxSSESubscribers = 32"
definition sseKeepAliveInterval :: int where "sseKeepAliveInterval = 30 * Second"
definition sseChannelBuffer :: nat where "sseChannelBuffer = 16"

definition sseKeepAliveFrame :: string where
  "sseKeepAliveFrame = '': keep-alive'' @ [CHR 0x0A, CHR 0x0A]"

record SSEBroker =
  sb_clients :: "(nat \<times> string list) list"
  sb_next :: nat

definition NewSSEBroker :: SSEBroker where
  "NewSSEBroker = \<lparr>sb_clients = [], sb_next = 0\<rparr>"

definition Subscribe :: "SSEBroker \<Rightarrow> nat option \<times> SSEBroker" where
  "Subscribe b =
     (if length (sb_clients b) \<ge> maxSSESubscribers then (None, b)
      else (Some (sb_next b), b\<lparr>sb_clients := sb_clients b @ [(sb_next b, [])], sb_next := Suc (sb_next b)\<rparr>))"

definition Unsubscribe :: "nat \<Rightarrow> SSEBroker \<Rightarrow> SSEBroker" where
  "Unsubscribe ch b = b\<lparr>sb_clients := filter (\<lambda>c. fst c \<noteq> ch) (sb_clients b)\<rparr>"

definition sse_frame :: "string \<Rightarrow> string \<Rightarrow> string" where
  "sse_frame event json = ''event: '' @ event @ [CHR 0x0A] @ ''data: '' @ json @ [CHR 0x0A, CHR 0x0A]"

definition offer :: "string \<Rightarrow> string list \<Rightarrow> string list" where
  "offer msg q = (if length q < sseChannelBuffer then q @ [msg] else q)"

text \<open>\<open>json\<close> is what \<open>json.Marshal\<close> returned, \<open>None\<close> for an error.\<close>

definition Publish :: "string \<Rightarrow> string option \<Rightarrow> SSEBroker \<Rightarrow> SSEBroker" where
  "Publish event json b =
     (case json of
        None \<Rightarrow> b
      | Some j \<Rightarrow> b\<lparr>sb_clients := map (\<lambda>(ch, q). (ch, offer (sse_frame event j) q)) (sb_clients b)\<rparr>)"

definition ClientCount :: "SSEBroker \<Rightarrow> nat" where
  "ClientCount b = length (sb_clients b)"

text \<open>The receive \<open>msg := <-ch\<close> of a stream.\<close>

definition receive :: "nat \<Rightarrow> SSEBroker \<Rightarrow> string option \<times> SSEBroker" where
  "receive ch b =
     (case map_of (sb_clients b) ch of
        Some (m # q) \<Rightarrow> (Some m, b\<lparr>sb_clients := map (\<lambda>(c, q'). (c, if c = ch then tl q' else q')) (sb_clients b)\<rparr>)
      | _ \<Rightarrow> (None, b))"

section \<open>One stream\<close>

datatype pump_event = CtxEnd | Tick bool | Msg string bool | ChanClosed

text \<open>\<open>pump\<close> on the events its \<open>select\<close> picks, each with whether the write succeeds: the frames it
  attempts to send, and whether it has returned.\<close>

fun pump :: "pump_event list \<Rightarrow> string list \<times> bool" where
  "pump [] = ([], False)"
| "pump (CtxEnd # es) = ([], True)"
| "pump (Tick sent # es) =
     (if sent then (let (fs, r) = pump es in (sseKeepAliveFrame # fs, r)) else ([sseKeepAliveFrame], True))"
| "pump (Msg m sent # es) = (if sent then (let (fs, r) = pump es in (m # fs, r)) else ([m], True))"
| "pump (ChanClosed # es) = ([], True)"

datatype sse_reply = StreamingUnsupported | TooManyStreams | Streamed "string list"

definition sse_ServeHTTP :: "bool \<Rightarrow> pump_event list \<Rightarrow> SSEBroker \<Rightarrow> sse_reply \<times> SSEBroker" where
  "sse_ServeHTTP flusher es b =
     (if \<not> flusher then (StreamingUnsupported, b)
      else (case Subscribe b of
              (None, b1) \<Rightarrow> (TooManyStreams, b1)
            | (Some ch, b1) \<Rightarrow> (Streamed (fst (pump es)), Unsubscribe ch b1)))"

section \<open>Capacity\<close>

interpretation subscribers: bounded_pool
  "\<lambda>b (u :: nat). (fst (Subscribe b) \<noteq> None, snd (Subscribe b))" "\<lambda>b ch. Unsubscribe ch b" ClientCount maxSSESubscribers
  by unfold_locales (auto simp: Subscribe_def Unsubscribe_def ClientCount_def)

lemma served_stream_releases: "sb_clients (snd (sse_ServeHTTP fl es b)) = filter (\<lambda>c. fst c \<noteq> sb_next b) (sb_clients b) \<or>
    sb_clients (snd (sse_ServeHTTP fl es b)) = sb_clients b"
  by (auto simp: sse_ServeHTTP_def Subscribe_def Unsubscribe_def)

section \<open>Histories\<close>

datatype sse_event = Sub | Unsub nat | Pub string "string option" | Recv nat

fun sse_step :: "SSEBroker \<Rightarrow> sse_event \<Rightarrow> SSEBroker" where
  "sse_step b Sub = snd (Subscribe b)"
| "sse_step b (Unsub ch) = Unsubscribe ch b"
| "sse_step b (Pub ev j) = Publish ev j b"
| "sse_step b (Recv ch) = snd (receive ch b)"

definition sse_wf :: "SSEBroker \<Rightarrow> bool" where
  "sse_wf b = (distinct (map fst (sb_clients b)) \<and> (\<forall>c \<in> set (sb_clients b). fst c < sb_next b \<and>
     length (snd c) \<le> sseChannelBuffer) \<and> length (sb_clients b) \<le> maxSSESubscribers)"

text \<open>The frames the stream on \<open>ch\<close> receives, and the frames published to it that found room.\<close>

fun received :: "nat \<Rightarrow> SSEBroker \<Rightarrow> sse_event list \<Rightarrow> string list" where
  "received ch b [] = []"
| "received ch b (e # es) =
     (case e of Recv c \<Rightarrow> if c = ch then (case fst (receive ch b) of Some m \<Rightarrow> [m] | None \<Rightarrow> []) else [] | _ \<Rightarrow> []) @
     received ch (sse_step b e) es"

definition queue_of :: "nat \<Rightarrow> SSEBroker \<Rightarrow> string list" where
  "queue_of ch b = (case map_of (sb_clients b) ch of Some q \<Rightarrow> q | None \<Rightarrow> [])"

fun accepted :: "nat \<Rightarrow> SSEBroker \<Rightarrow> sse_event list \<Rightarrow> string list" where
  "accepted ch b [] = []"
| "accepted ch b (e # es) =
     (case e of Pub ev (Some j) \<Rightarrow> if length (queue_of ch b) < sseChannelBuffer then [sse_frame ev j] else [] | _ \<Rightarrow> []) @
     accepted ch (sse_step b e) es"

fun published :: "sse_event list \<Rightarrow> string list" where
  "published [] = []"
| "published (Pub ev (Some j) # es) = sse_frame ev j # published es"
| "published (_ # es) = published es"

lemma accepted_subseq: "subseq (accepted ch b es) (published es)"
proof (induction es arbitrary: b)
  case (Cons e es)
  show ?case
  proof (cases e)
    case (Pub ev j)
    then show ?thesis using Cons [of "sse_step b e"] by (cases j) auto
  qed (use Cons [of "sse_step b e"] in auto)
qed simp

lemma map_of_map_snd: "map_of (map (\<lambda>(c, q). (c, f c q)) xs) k = map_option (f k) (map_of xs k)"
  by (induction xs) auto

lemma map_of_filter_ne: "k \<noteq> ch \<Longrightarrow> map_of (filter (\<lambda>c. fst c \<noteq> ch) xs) k = map_of xs k"
  by (induction xs) auto

lemma fst_pairs: "fst \<circ> (\<lambda>(c, q). (c, f c q)) = fst"
  by (auto simp: fun_eq_iff)

lemma fst_image_pairs: "fst ` (\<lambda>(c, q). (c, f c q)) ` A = fst ` A"
  by force

lemma length_offer: "length (offer m q) \<le> sseChannelBuffer \<longleftrightarrow> length q \<le> sseChannelBuffer"
  by (auto simp: offer_def)

lemma sse_wf_step: "sse_wf b \<Longrightarrow> sse_wf (sse_step b e)"
proof (cases e)
  case Sub
  assume "sse_wf b"
  with Sub show ?thesis
    by (auto simp: sse_wf_def Subscribe_def less_Suc_eq)
next
  case (Unsub ch)
  assume "sse_wf b"
  with Unsub show ?thesis
    by (auto simp: sse_wf_def Unsubscribe_def distinct_map_filter intro: le_trans [OF length_filter_le])
next
  case (Pub ev j)
  assume "sse_wf b"
  with Pub show ?thesis
    by (cases j) (auto simp: sse_wf_def Publish_def fst_pairs [of "\<lambda>c. offer m" for m] length_offer)
next
  case (Recv ch)
  assume w: "sse_wf b"
  then have "c < sb_next b \<and> length q \<le> sseChannelBuffer \<and> length q - Suc 0 \<le> sseChannelBuffer"
    if "(c, q) \<in> set (sb_clients b)" for c q
    using that by (fastforce simp: sse_wf_def)
  with w Recv show ?thesis
    by (auto simp: sse_wf_def receive_def fst_pairs [of "\<lambda>c q. if c = ch then tl q else q"]
        split: option.split list.split)
qed

lemma queue_step:
  assumes "sse_wf b" "ch < sb_next b" "e \<noteq> Unsub ch" "ch \<in> fst ` set (sb_clients b)"
  shows "received ch b [e] @ queue_of ch (sse_step b e) = queue_of ch b @ accepted ch b [e] \<and>
    ch < sb_next (sse_step b e) \<and> ch \<in> fst ` set (sb_clients (sse_step b e))"
proof -
  obtain q where q: "map_of (sb_clients b) ch = Some q" using assms(4) by (metis map_of_eq_None_iff not_None_eq)
  then have mem: "ch \<in> fst ` set xs" if "map_of xs ch \<noteq> None" for xs :: "(nat \<times> string list) list"
    using that by (metis map_of_eq_None_iff)
  show ?thesis
  proof (cases e)
    case Sub
    have "ch \<noteq> sb_next b" using assms(2) by simp
    with Sub q show ?thesis using assms(2,4) by (auto simp: queue_of_def Subscribe_def map_add_Some_iff)
  next
    case (Unsub c)
    with assms(3) have "map_of (filter (\<lambda>x. fst x \<noteq> c) (sb_clients b)) ch = Some q"
      using q map_of_filter_ne [of ch c "sb_clients b"] by simp
    with Unsub q mem [of "filter (\<lambda>x. fst x \<noteq> c) (sb_clients b)"] show ?thesis
      using assms(2) by (simp add: queue_of_def Unsubscribe_def)
  next
    case (Pub ev j)
    show ?thesis
    proof (cases j)
      case None
      with Pub show ?thesis using assms by (simp add: Publish_def)
    next
      case (Some d)
      have "map_of (map (\<lambda>(c, q). (c, offer (sse_frame ev d) q)) (sb_clients b)) ch = Some (offer (sse_frame ev d) q)"
        using q map_of_map_snd [of "\<lambda>_. offer (sse_frame ev d)" "sb_clients b" ch] by simp
      with Pub Some q mem [of "map (\<lambda>(c, q). (c, offer (sse_frame ev d) q)) (sb_clients b)"] show ?thesis
        using assms(2) by (simp add: queue_of_def Publish_def) (simp add: offer_def)
    qed
  next
    case (Recv c)
    have m: "map_of (map (\<lambda>(c', q'). (c', if c' = c then tl q' else q')) (sb_clients b)) k =
        map_option (\<lambda>q'. if k = c then tl q' else q') (map_of (sb_clients b) k)" for k
      by (rule map_of_map_snd)
    show ?thesis
    proof (cases "c = ch")
      case True
      then show ?thesis
        using Recv q assms m
        by (cases q) (simp_all add: queue_of_def receive_def fst_image_pairs [of "\<lambda>c q. if c = ch then tl q else q"])
    next
      case False
      then show ?thesis
        using Recv q assms m
        by (simp add: queue_of_def receive_def fst_image_pairs [of "\<lambda>c' q. if c' = c then tl q else q"]
            split: option.split list.split)
    qed
  qed
qed

lemma queue_run:
  assumes "sse_wf b" "ch < sb_next b" "ch \<in> fst ` set (sb_clients b)" "Unsub ch \<notin> set es"
  shows "received ch b es @ queue_of ch (run sse_step b es) = queue_of ch b @ accepted ch b es"
  using assms
proof (induction es arbitrary: b)
  case (Cons e es)
  have s: "received ch b [e] @ queue_of ch (sse_step b e) = queue_of ch b @ accepted ch b [e]"
      "ch < sb_next (sse_step b e)" "ch \<in> fst ` set (sb_clients (sse_step b e))"
    using queue_step [OF Cons.prems(1,2) _ Cons.prems(3), of e] Cons.prems(4) by auto
  have "received ch (sse_step b e) es @ queue_of ch (run sse_step (sse_step b e) es) =
      queue_of ch (sse_step b e) @ accepted ch (sse_step b e) es"
    by (rule Cons.IH [OF sse_wf_step [OF Cons.prems(1)] s(2,3)]) (use Cons.prems(4) in simp)
  moreover have "received ch b (e # es) = received ch b [e] @ received ch (sse_step b e) es"
    "accepted ch b (e # es) = accepted ch b [e] @ accepted ch (sse_step b e) es" by simp_all
  ultimately show ?case using s(1) by (metis append.assoc run.simps(2))
qed simp

lemma sse_wf_run: "sse_wf b \<Longrightarrow> sse_wf (run sse_step b es)"
  by (rule run_invariant [where I = sse_wf]) (auto intro: sse_wf_step)

section \<open>Properties\<close>

text \<open>(C14) Streams are bounded lossy queues. In every state the broker reaches there are at most 32
  streams with at most 16 undelivered frames each; and for a stream that just subscribed and has
  not unsubscribed, what it received followed by what is still queued is, in order and without
  repetition, exactly the frames published since that found room in its queue, a subsequence of
  all frames published.\<close>

theorem stream_gets_published_in_order:
  assumes "Subscribe (run sse_step NewSSEBroker before_es) = (Some ch, b)" "Unsub ch \<notin> set es"
  shows "length (sb_clients (run sse_step b es)) \<le> 32 \<and>
    (\<forall>c q. (c, q) \<in> set (sb_clients (run sse_step b es)) \<longrightarrow> length q \<le> 16) \<and>
    received ch b es @ queue_of ch (run sse_step b es) = accepted ch b es \<and>
    subseq (accepted ch b es) (published es)"
proof -
  let ?b0 = "run sse_step NewSSEBroker before_es"
  have "sse_wf NewSSEBroker" by (simp add: sse_wf_def NewSSEBroker_def)
  then have w0: "sse_wf ?b0" by (rule sse_wf_run)
  have b: "b = sse_step ?b0 Sub" using assms(1) by simp
  have ch: "ch = sb_next ?b0" "length (sb_clients ?b0) < maxSSESubscribers"
      "b = ?b0\<lparr>sb_clients := sb_clients ?b0 @ [(ch, [])], sb_next := Suc ch\<rparr>"
    using assms(1) by (auto simp: Subscribe_def split: if_splits)
  have wb: "sse_wf b" using sse_wf_step [OF w0, of Sub] b by simp
  have "map_of (sb_clients b) ch = Some []"
    using wb ch(3) by (intro map_of_is_SomeI) (auto simp: sse_wf_def)
  then have q0: "queue_of ch b = []" by (simp add: queue_of_def)
  have "received ch b es @ queue_of ch (run sse_step b es) = queue_of ch b @ accepted ch b es"
    by (rule queue_run) (use wb ch assms(2) in auto)
  moreover have "sse_wf (run sse_step b es)" by (rule sse_wf_run [OF wb])
  ultimately show ?thesis
    using q0 accepted_subseq by (force simp: sse_wf_def maxSSESubscribers_def sseChannelBuffer_def)
qed

theorem stream_gets_published_in_order_witness:
  "received 0 (snd (Subscribe NewSSEBroker)) [Pub ''stats'' (Some ''1''), Recv 0, Pub ''stats'' (Some ''2'')] =
     [sse_frame ''stats'' ''1'']"
proof -
  have "Subscribe (run sse_step NewSSEBroker []) = (Some 0, snd (Subscribe NewSSEBroker))"
    by (simp add: Subscribe_def NewSSEBroker_def maxSSESubscribers_def)
  moreover have "Unsub 0 \<notin> set [Pub ''stats'' (Some ''1''), Recv 0, Pub ''stats'' (Some ''2'')]" by simp
  ultimately have "received 0 (snd (Subscribe NewSSEBroker)) [Pub ''stats'' (Some ''1''), Recv 0, Pub ''stats'' (Some ''2'')] @
      queue_of 0 (run sse_step (snd (Subscribe NewSSEBroker)) [Pub ''stats'' (Some ''1''), Recv 0, Pub ''stats'' (Some ''2'')]) =
      accepted 0 (snd (Subscribe NewSSEBroker)) [Pub ''stats'' (Some ''1''), Recv 0, Pub ''stats'' (Some ''2'')]"
    using stream_gets_published_in_order by blast
  moreover have "queue_of 0 (run sse_step (snd (Subscribe NewSSEBroker)) [Pub ''stats'' (Some ''1''), Recv 0, Pub ''stats'' (Some ''2'')]) =
      [sse_frame ''stats'' ''2'']" by code_simp
  moreover have "accepted 0 (snd (Subscribe NewSSEBroker)) [Pub ''stats'' (Some ''1''), Recv 0, Pub ''stats'' (Some ''2'')] =
      [sse_frame ''stats'' ''1''] @ [sse_frame ''stats'' ''2'']" by code_simp
  ultimately show ?thesis by (simp only: append_same_eq)
qed

end
