(* ===== verification/Validate.thy ===== *)
theory Validate
  imports GoNet
begin

text \<open>
  The input validators of \<open>internal/netutil/validate.go\<close>. The regular expressions there are
  anchored classes of ASCII characters, so each is a predicate on the bytes of the string.

  What the callers rely on is the locale \<open>config_text\<close>: a string a validator accepts holds
  only characters with no meaning to nftables, so it cannot end the quoted string, the
  statement or the line it is written into. It is interpreted on every string validator.
\<close>

section \<open>Character classes\<close>

definition is_alnum :: "char \<Rightarrow> bool" where
  "is_alnum c = (is_digit c \<or> byte_in 0x61 0x7A c \<or> byte_in 0x41 0x5A c)"

definition ifaceNameRegex :: "string \<Rightarrow> bool" where
  "ifaceNameRegex s = (s \<noteq> [] \<and> list_all (\<lambda>c. is_alnum c \<or> c \<in> set ''_.@-'') s)"

definition ruleNameRegex :: "string \<Rightarrow> bool" where
  "ruleNameRegex s = list_all (\<lambda>c. is_alnum c \<or> c \<in> set '' _.:/()-'') s"

definition fsPathRegex :: "string \<Rightarrow> bool" where
  "fsPathRegex s = (s \<noteq> [] \<and> list_all (\<lambda>c. is_alnum c \<or> c \<in> set ''/._+~ -'') s)"

definition macRegex :: "string \<Rightarrow> bool" where
  "macRegex s =
     (length s = 17 \<and>
      list_all (\<lambda>i. if i mod 3 = 2 then s ! i = CHR '':'' else is_hex (s ! i)) [0..<17])"

section \<open>Validators\<close>

definition ValidateFilesystemPath :: "string \<Rightarrow> string check" where
  "ValidateFilesystemPath s =
     (if s = [] then Inl ''path is empty''
      else if length s > 4096 then Inl ''path is longer than 4096 characters''
      else if \<not> fsPathRegex s then Inl ''path contains characters that are not allowed''
      else ok)"

definition ValidateInterfaceName :: "string \<Rightarrow> string check" where
  "ValidateInterfaceName s =
     (if s = [] then Inl ''interface name is empty''
      else if length s > 15 then Inl ''invalid interface name (longer than 15 characters)''
      else if \<not> ifaceNameRegex s then Inl ''invalid interface name''
      else ok)"

definition ValidateRuleName :: "string \<Rightarrow> string check" where
  "ValidateRuleName s =
     (if length s > 64 then Inl ''rule name is longer than 64 characters''
      else if \<not> ruleNameRegex s then Inl ''rule name contains characters that are not allowed''
      else ok)"

definition ValidateIP :: "string \<Rightarrow> string check" where
  "ValidateIP s = (if ParseIP s = None then Inl ''invalid IP address'' else ok)"

definition ValidateCIDR :: "string \<Rightarrow> string check" where
  "ValidateCIDR s = (if ParseCIDR s = None then Inl ''invalid CIDR'' else ok)"

definition ValidateMAC :: "string \<Rightarrow> string check" where
  "ValidateMAC s = (if \<not> macRegex s then Inl ''invalid MAC address'' else ok)"

definition ValidatePort :: "int \<Rightarrow> string check" where
  "ValidatePort port = (if port < 1 \<or> port > 65535 then Inl ''invalid port'' else ok)"

definition ValidateVLANID :: "int \<Rightarrow> string check" where
  "ValidateVLANID vid = (if vid < 1 \<or> vid > 4094 then Inl ''invalid VLAN ID'' else ok)"

definition ValidateMTU :: "int \<Rightarrow> string check" where
  "ValidateMTU mtu = (if mtu < 68 \<or> mtu > 9000 then Inl ''invalid MTU'' else ok)"

definition ParseCIDRAddress :: "string \<Rightarrow> string + string \<times> int" where
  "ParseCIDRAddress cidr =
     (case Cut cidr (CHR ''/'') of
        None \<Rightarrow> Inl ''invalid CIDR''
      | Some (a, m) \<Rightarrow>
          if ParseIP a = None then Inl ''invalid IP in CIDR''
          else (case Atoi m of
                  AtoiOk p \<Rightarrow>
                    if p < 0 \<or> p > 128 then Inl ''invalid prefix length in CIDR'' else Inr (a, p)
                | _ \<Rightarrow> Inl ''invalid prefix length in CIDR''))"

section \<open>Text that is inert in a rendered rule file\<close>

definition inert_char :: "char \<Rightarrow> bool" where
  "inert_char c = (is_alnum c \<or> c \<in> set ''_.@-:/()+~ '')"

definition inert :: "string \<Rightarrow> bool" where
  "inert s = list_all inert_char s"

lemma inert_simps [simp]:
  "inert []" "inert (c # s) \<longleftrightarrow> inert_char c \<and> inert s" "inert (s @ t) \<longleftrightarrow> inert s \<and> inert t"
  by (simp_all add: inert_def)

lemma inert_set: "inert s \<Longrightarrow> c \<in> set s \<Longrightarrow> inert_char c"
  by (simp add: inert_def list_all_iff)

lemma is_alnum_inert: "is_alnum c \<Longrightarrow> inert_char c"
  by (simp add: inert_char_def)

lemma is_hex_alnum: "is_hex c \<Longrightarrow> is_alnum c"
  unfolding is_hex_def is_alnum_def byte_in_def by linarith

lemma is_digit_inert: "is_digit c \<Longrightarrow> inert_char c"
  by (simp add: inert_char_def is_alnum_def)

lemma punct_inert:
  "inert ''_.@-''" "inert '' _.:/()-''" "inert ''/._+~ -''"
  by code_simp+

text \<open>So that the simplifier decides the words of a rendered line.\<close>

lemma inert_literals [simp]:
  "inert_char (CHR ''a'')" "inert_char (CHR ''b'')" "inert_char (CHR ''c'')" "inert_char (CHR ''d'')"
  "inert_char (CHR ''e'')" "inert_char (CHR ''f'')" "inert_char (CHR ''g'')" "inert_char (CHR ''h'')"
  "inert_char (CHR ''i'')" "inert_char (CHR ''j'')" "inert_char (CHR ''k'')" "inert_char (CHR ''l'')"
  "inert_char (CHR ''m'')" "inert_char (CHR ''n'')" "inert_char (CHR ''o'')" "inert_char (CHR ''p'')"
  "inert_char (CHR ''q'')" "inert_char (CHR ''r'')" "inert_char (CHR ''s'')" "inert_char (CHR ''t'')"
  "inert_char (CHR ''u'')" "inert_char (CHR ''v'')" "inert_char (CHR ''w'')" "inert_char (CHR ''x'')"
  "inert_char (CHR ''y'')" "inert_char (CHR ''z'')" "inert_char (CHR ''A'')" "inert_char (CHR ''B'')"
  "inert_char (CHR ''C'')" "inert_char (CHR ''D'')" "inert_char (CHR ''E'')" "inert_char (CHR ''F'')"
  "inert_char (CHR ''G'')" "inert_char (CHR ''H'')" "inert_char (CHR ''I'')" "inert_char (CHR ''J'')"
  "inert_char (CHR ''K'')" "inert_char (CHR ''L'')" "inert_char (CHR ''M'')" "inert_char (CHR ''N'')"
  "inert_char (CHR ''O'')" "inert_char (CHR ''P'')" "inert_char (CHR ''Q'')" "inert_char (CHR ''R'')"
  "inert_char (CHR ''S'')" "inert_char (CHR ''T'')" "inert_char (CHR ''U'')" "inert_char (CHR ''V'')"
  "inert_char (CHR ''W'')" "inert_char (CHR ''X'')" "inert_char (CHR ''Y'')" "inert_char (CHR ''Z'')"
  "inert_char (CHR ''0'')" "inert_char (CHR ''1'')" "inert_char (CHR ''2'')" "inert_char (CHR ''3'')"
  "inert_char (CHR ''4'')" "inert_char (CHR ''5'')" "inert_char (CHR ''6'')" "inert_char (CHR ''7'')"
  "inert_char (CHR ''8'')" "inert_char (CHR ''9'')" "inert_char (CHR ''_'')" "inert_char (CHR ''.'')"
  "inert_char (CHR ''@'')" "inert_char (CHR ''-'')" "inert_char (CHR '':'')" "inert_char (CHR ''/'')"
  "inert_char (CHR ''('')" "inert_char (CHR '')'')" "inert_char (CHR ''+'')" "inert_char (CHR ''~'')"
  "inert_char (CHR '' '')"
  by code_simp+

lemma class_inert:
  assumes "inert p" "list_all (\<lambda>c. is_alnum c \<or> c \<in> set p) s"
  shows "inert s"
  unfolding inert_def using assms(2)
  by (rule list.pred_mono_strong) (use assms(1) inert_set is_alnum_inert in blast)

lemma addr_char_inert: "addr_char c \<Longrightarrow> inert_char c"
proof -
  have "inert_char CHR ''.''" "inert_char CHR '':''" by code_simp+
  then show "addr_char c \<Longrightarrow> inert_char c"
    unfolding addr_char_def using is_hex_alnum is_alnum_inert by blast
qed

lemma not_inert_chars:
  "\<not> inert_char (CHR 0x0A)" "\<not> inert_char (CHR 0x0D)" "\<not> inert_char (CHR 0x22)"
  "\<not> inert_char (CHR '';'')" "\<not> inert_char (CHR ''#'')" "\<not> inert_char (CHR ''{'')"
  "\<not> inert_char (CHR ''}'')" "\<not> inert_char (CHR 0x5C)"
  by code_simp+

lemma inert_excludes:
  assumes "inert s"
  shows "CHR 0x0A \<notin> set s" "CHR 0x0D \<notin> set s" "CHR 0x22 \<notin> set s" "CHR '';'' \<notin> set s"
    "CHR ''#'' \<notin> set s" "CHR ''{'' \<notin> set s" "CHR ''}'' \<notin> set s" "CHR 0x5C \<notin> set s"
  using not_inert_chars inert_set [OF assms] by blast+

locale config_text =
  fixes validator :: "string \<Rightarrow> string check"
  assumes accepts_inert: "validator s = ok \<Longrightarrow> inert s"
begin

lemma one_line: "validator s = ok \<Longrightarrow> CHR 0x0A \<notin> set s"
  using accepts_inert inert_excludes(1) by blast

lemma no_quote: "validator s = ok \<Longrightarrow> CHR 0x22 \<notin> set s"
  using accepts_inert inert_excludes(3) by blast

end

interpretation iface_name: config_text ValidateInterfaceName
  by unfold_locales
     (rule class_inert [OF punct_inert(1)], simp add: ValidateInterfaceName_def ifaceNameRegex_def split: if_splits)

interpretation rule_name: config_text ValidateRuleName
  by unfold_locales
     (rule class_inert [OF punct_inert(2)], simp add: ValidateRuleName_def ruleNameRegex_def split: if_splits)

interpretation fs_path: config_text ValidateFilesystemPath
  by unfold_locales
     (rule class_inert [OF punct_inert(3)], simp add: ValidateFilesystemPath_def fsPathRegex_def split: if_splits)

interpretation ip_text: config_text ValidateIP
proof
  fix s
  assume "ValidateIP s = ok"
  then obtain i where "ParseIP s = Some i" by (auto simp: ValidateIP_def split: if_splits)
  then show "inert s"
    unfolding inert_def list_all_iff using ParseIP_chars addr_char_inert by blast
qed

interpretation cidr_text: config_text ValidateCIDR
proof
  fix s
  assume "ValidateCIDR s = ok"
  then obtain r where "ParseCIDR s = Some r" by (auto simp: ValidateCIDR_def split: if_splits)
  then have "addr_char c \<or> c = CHR ''/''" if "c \<in> set s" for c using that ParseCIDR_chars by blast
  moreover have "inert_char (CHR ''/'')" by code_simp
  ultimately show "inert s" unfolding inert_def list_all_iff using addr_char_inert by blast
qed

interpretation mac_text: config_text ValidateMAC
proof
  fix s
  assume "ValidateMAC s = ok"
  then have m: "length s = 17" "\<forall>i < 17. if i mod 3 = 2 then s ! i = CHR '':'' else is_hex (s ! i)"
    by (auto simp: ValidateMAC_def macRegex_def list_all_iff split: if_splits)
  show "inert s"
    unfolding inert_def list_all_length
  proof (intro allI impI)
    fix i
    assume "i < length s"
    then have "i < 17" using m(1) by simp
    from m(2) [rule_format, OF this] have "s ! i = CHR '':'' \<or> is_hex (s ! i)"
      by (cases "i mod 3 = 2") simp_all
    moreover have "inert_char (CHR '':'')" by code_simp
    ultimately show "inert_char (s ! i)" using is_hex_alnum is_alnum_inert by auto
  qed
qed

lemma inert_Itoa: "0 \<le> i \<Longrightarrow> inert (Itoa i)"
  unfolding inert_def
  by (rule list.pred_mono_strong [OF Itoa_digits]) (simp_all add: is_digit_inert)

end
