(* ===== verification/FirewallRules.thy ===== *)
theory FirewallRules
  imports Validate ConfigTypes
begin

text \<open>
  The firewall configuration of \<open>internal/services/firewall.go\<close>: the edits the web UI makes to it,
  and how rules and open ports become lines of the nftables file. The rendered file has no
  escaping, so what a line can hold is decided by the validators of \<open>Validate\<close>; the lemmas here
  rest on their \<open>config_text\<close> interpretations.
\<close>

section \<open>Edits\<close>

text \<open>\<open>mutate\<close> runs an edit on the live configuration and saves it. Go writes the results of an
  edit even when it also returns an error, so an edit yields its error and the new section.
  \<open>persist\<close> is the outcome of \<open>SaveToFile\<close>.\<close>

type_synonym fw_edit = "FirewallConfig \<Rightarrow> string check \<times> FirewallConfig"

definition mutate :: "string check \<Rightarrow> fw_edit \<Rightarrow> Config \<Rightarrow> string check \<times> Config" where
  "mutate persist change c =
     (let (r, fw) = change (cfg_Firewall c);
          c' = c\<lparr>cfg_Firewall := fw\<rparr> in
      case r of Inl e \<Rightarrow> (Inl e, c') | Inr _ \<Rightarrow> (persist, c'))"

definition removeAt :: "'a list \<Rightarrow> int \<Rightarrow> string \<Rightarrow> 'a list \<times> string check" where
  "removeAt xs index what =
     (if index < 0 \<or> index \<ge> int (length xs) then ([], Inl (''invalid '' @ what @ '' index: '' @ Itoa index))
      else (delete_nth xs (nat index), ok))"

definition AddOpenPort :: "string check \<Rightarrow> OpenPort \<Rightarrow> Config \<Rightarrow> string check \<times> Config" where
  "AddOpenPort p x = mutate p (\<lambda>fw. (ok, fw\<lparr>fw_OpenPorts := fw_OpenPorts fw @ [x]\<rparr>))"

definition RemoveOpenPort :: "string check \<Rightarrow> int \<Rightarrow> Config \<Rightarrow> string check \<times> Config" where
  "RemoveOpenPort p index = mutate p (\<lambda>fw.
     let (l, err) = removeAt (fw_OpenPorts fw) index ''open port'' in (err, fw\<lparr>fw_OpenPorts := l\<rparr>))"

definition ToggleOpenPort :: "string check \<Rightarrow> int \<Rightarrow> bool \<Rightarrow> Config \<Rightarrow> string check \<times> Config" where
  "ToggleOpenPort p index enabled = mutate p (\<lambda>fw.
     if index < 0 \<or> index \<ge> int (length (fw_OpenPorts fw)) then (Inl (''invalid open port index: '' @ Itoa index), fw)
     else (ok, fw\<lparr>fw_OpenPorts := (fw_OpenPorts fw)[nat index := (fw_OpenPorts fw ! nat index)\<lparr>op_Enabled := enabled\<rparr>]\<rparr>))"

definition AddPortForward :: "string check \<Rightarrow> PortForward \<Rightarrow> Config \<Rightarrow> string check \<times> Config" where
  "AddPortForward p x = mutate p (\<lambda>fw. (ok, fw\<lparr>fw_PortForwards := fw_PortForwards fw @ [x]\<rparr>))"

definition RemovePortForward :: "string check \<Rightarrow> int \<Rightarrow> Config \<Rightarrow> string check \<times> Config" where
  "RemovePortForward p index = mutate p (\<lambda>fw.
     let (l, err) = removeAt (fw_PortForwards fw) index ''port forward'' in (err, fw\<lparr>fw_PortForwards := l\<rparr>))"

definition max_priority :: "FirewallRule list \<Rightarrow> int" where
  "max_priority rs = foldl (\<lambda>m r. max m (fr_Priority r)) 0 rs"

definition AddRule :: "string check \<Rightarrow> FirewallRule \<Rightarrow> Config \<Rightarrow> string check \<times> Config" where
  "AddRule p x = mutate p (\<lambda>fw.
     let x' = (if fr_Priority x = 0 then x\<lparr>fr_Priority := wrap64 (max_priority (fw_Rules fw) + 10)\<rparr> else x) in
     (ok, fw\<lparr>fw_Rules := fw_Rules fw @ [x']\<rparr>))"

definition RemoveRule :: "string check \<Rightarrow> int \<Rightarrow> Config \<Rightarrow> string check \<times> Config" where
  "RemoveRule p index = mutate p (\<lambda>fw.
     let (l, err) = removeAt (fw_Rules fw) index ''rule'' in (err, fw\<lparr>fw_Rules := l\<rparr>))"

definition ToggleRule :: "string check \<Rightarrow> int \<Rightarrow> bool \<Rightarrow> Config \<Rightarrow> string check \<times> Config" where
  "ToggleRule p index enabled = mutate p (\<lambda>fw.
     if index < 0 \<or> index \<ge> int (length (fw_Rules fw)) then (Inl (''invalid rule index: '' @ Itoa index), fw)
     else (ok, fw\<lparr>fw_Rules := (fw_Rules fw)[nat index := (fw_Rules fw ! nat index)\<lparr>fr_Enabled := enabled\<rparr>]\<rparr>))"

definition SetTTLFix :: "string check \<Rightarrow> bool \<Rightarrow> int \<Rightarrow> Config \<Rightarrow> string check \<times> Config" where
  "SetTTLFix p enabled v c =
     (if v < 1 \<or> v > 255 then (Inl ''ttl value must be between 1 and 255'', c)
      else mutate p (\<lambda>fw. (ok, fw\<lparr>fw_TTLFix := \<lparr>ttl_Enabled = enabled, ttl_Value = v\<rparr>\<rparr>)) c)"

section \<open>Rendering\<close>

definition validateAddressOrCIDR :: "string \<Rightarrow> string check" where
  "validateAddressOrCIDR s =
     (if ValidateCIDR s = ok then ok else if ValidateIP s = ok then ok else Inl ''invalid address'')"

definition addressFamilyMatcher :: "string \<Rightarrow> string" where
  "addressFamilyMatcher s =
     (let addr = (case Cut s (CHR ''/'') of Some (a, _) \<Rightarrow> a | None \<Rightarrow> s) in
      case ParseIP addr of Some i \<Rightarrow> if To4 i = None then ''ip6'' else ''ip'' | None \<Rightarrow> ''ip'')"

text \<open>\<open>%q\<close> on a name that passed \<open>ValidateInterfaceName\<close>, which holds nothing to escape.\<close>

definition quote_name :: "string \<Rightarrow> string" where
  "quote_name s = [CHR 0x22] @ s @ [CHR 0x22]"

definition interfaceCondition :: "FirewallRule \<Rightarrow> string + string" where
  "interfaceCondition r =
     (if fr_Interface r = [] then Inr []
      else bindr (ValidateInterfaceName (fr_Interface r)) (\<lambda>_.
        if fr_Direction r = ''in'' then Inr (''iifname '' @ quote_name (fr_Interface r))
        else Inr (''oifname '' @ quote_name (fr_Interface r))))"

definition addressCondition :: "string \<Rightarrow> string \<Rightarrow> string \<Rightarrow> string + string" where
  "addressCondition label selector addr =
     (if addr = [] then Inr []
      else case validateAddressOrCIDR addr of
             Inl e \<Rightarrow> Inl (label @ '': '' @ e)
           | Inr _ \<Rightarrow> Inr (addressFamilyMatcher addr @ '' '' @ selector @ '' '' @ addr))"

definition protocolCondition :: "FirewallRule \<Rightarrow> string + string" where
  "protocolCondition r =
     (if fr_Protocol r = [] then Inr []
      else if fr_Protocol r \<noteq> ''tcp'' \<and> fr_Protocol r \<noteq> ''udp'' \<and> fr_Protocol r \<noteq> ''icmp''
      then Inl (''unsupported protocol '' @ fr_Protocol r)
      else if fr_Port r \<le> 0 then Inr (''meta l4proto '' @ fr_Protocol r)
      else bindr (ValidatePort (fr_Port r)) (\<lambda>_. Inr (fr_Protocol r @ '' dport '' @ Itoa (fr_Port r))))"

definition customRuleConditions :: "FirewallRule \<Rightarrow> string + string list" where
  "customRuleConditions r =
     bindr (interfaceCondition r) (\<lambda>iface.
     bindr (addressCondition ''source'' ''saddr'' (fr_SrcIP r)) (\<lambda>src.
     bindr (addressCondition ''destination'' ''daddr'' (fr_DstIP r)) (\<lambda>dst.
     bindr (protocolCondition r) (\<lambda>proto.
     Inr (filter (\<lambda>cond. cond \<noteq> []) [iface, src, dst, proto])))))"

definition indent :: string where "indent = replicate 8 (CHR '' '')"

definition renderCustomRule :: "FirewallRule \<Rightarrow> string + string" where
  "renderCustomRule r =
     bindr (ValidateRuleName (fr_Name r)) (\<lambda>_.
     bindr (customRuleConditions r) (\<lambda>conditions.
       let action = (if fr_Action r = [] then ''accept'' else fr_Action r) in
       if action \<noteq> ''accept'' \<and> action \<noteq> ''drop'' \<and> action \<noteq> ''reject'' then Inl (''unsupported action '' @ action)
       else if conditions = [] then Inr []
       else let line = indent @ join_with '' '' conditions @ '' '' @ action in
            Inr (if fr_Name r \<noteq> [] then line @ '' # '' @ fr_Name r else line)))"

record customRules =
  cr_Input :: "string list"
  cr_Forward :: "string list"
  cr_Output :: "string list"

fun custom_rules_of :: "FirewallRule list \<Rightarrow> customRules" where
  "custom_rules_of [] = \<lparr>cr_Input = [], cr_Forward = [], cr_Output = []\<rparr>"
| "custom_rules_of (r # rs) =
     (let rest = custom_rules_of rs in
      if \<not> fr_Enabled r then rest
      else case renderCustomRule r of
             Inl e \<Rightarrow> rest
           | Inr line \<Rightarrow>
               if line = [] then rest
               else if fr_Chain r = ''forward'' then rest\<lparr>cr_Forward := line # cr_Forward rest\<rparr>
               else if fr_Chain r = ''output'' then rest\<lparr>cr_Output := line # cr_Output rest\<rparr>
               else rest\<lparr>cr_Input := line # cr_Input rest\<rparr>)"

definition buildCustomRules :: "Config \<Rightarrow> customRules" where
  "buildCustomRules c = custom_rules_of (fw_Rules (cfg_Firewall c))"

definition openPortRateLimitPattern :: "string \<Rightarrow> bool" where
  "openPortRateLimitPattern s =
     (case Cut s (CHR ''/'') of
        None \<Rightarrow> False
      | Some (n, unit) \<Rightarrow>
          n \<noteq> [] \<and> byte_in 0x31 0x39 (hd n) \<and> list_all is_digit n \<and> length n \<le> 6 \<and>
          unit \<in> set [''second'', ''minute'', ''hour'', ''day'', ''week''])"

definition ValidateOpenPortRateLimit :: "string \<Rightarrow> string check" where
  "ValidateOpenPortRateLimit s =
     (if TrimSpace s = [] then ok
      else if \<not> openPortRateLimitPattern s then Inl ''rate limit must look like 3/minute'' else ok)"

definition openPortProtocols :: "string \<Rightarrow> string + string list" where
  "openPortProtocols protocol =
     (if protocol = ''tcp'' \<or> protocol = ''udp'' then Inr [protocol]
      else if protocol = ''both'' then Inr [''tcp'', ''udp'']
      else Inl (''unsupported protocol '' @ protocol))"

definition openPortSourcePrefix :: "string \<Rightarrow> string + string" where
  "openPortSourcePrefix source =
     (let src = TrimSpace source in
      if src = [] then Inr []
      else case validateAddressOrCIDR src of
             Inl e \<Rightarrow> Inl (''source: '' @ e)
           | Inr _ \<Rightarrow> Inr (addressFamilyMatcher src @ '' saddr '' @ src @ '' ''))"

definition openPortComment :: "string \<Rightarrow> string + string" where
  "openPortComment name0 =
     (let name = TrimSpace name0 in
      if name = [] then Inr []
      else bindr (ValidateRuleName name) (\<lambda>_. Inr ('' # '' @ name)))"

definition openPortLimit :: "string \<Rightarrow> string + string" where
  "openPortLimit rateLimit =
     (let rate = TrimSpace rateLimit in
      if rate = [] then Inr []
      else case ValidateOpenPortRateLimit rate of
             Inl e \<Rightarrow> Inl (''rate limit: '' @ e)
           | Inr _ \<Rightarrow> Inr (''limit rate '' @ rate @ '' ''))"

definition renderOpenPortRules :: "OpenPort \<Rightarrow> string + string list" where
  "renderOpenPortRules x =
     bindr (ValidatePort (op_Port x)) (\<lambda>_.
     bindr (openPortProtocols (op_Protocol x)) (\<lambda>protocols.
     bindr (openPortSourcePrefix (op_Source x)) (\<lambda>prefix.
     bindr (openPortComment (op_Name x)) (\<lambda>comment.
     bindr (openPortLimit (op_RateLimit x)) (\<lambda>limit.
     Inr (map (\<lambda>proto. indent @ prefix @ proto @ '' dport '' @ Itoa (op_Port x) @ '' ct state new '' @ limit @
            ''accept'' @ comment) protocols))))))"

fun open_port_rules_of :: "OpenPort list \<Rightarrow> string list" where
  "open_port_rules_of [] = []"
| "open_port_rules_of (x # xs) =
     (if \<not> op_Enabled x then open_port_rules_of xs
      else case renderOpenPortRules x of
             Inl e \<Rightarrow> open_port_rules_of xs
           | Inr lines \<Rightarrow> lines @ open_port_rules_of xs)"

definition buildOpenPortRules :: "Config \<Rightarrow> string list" where
  "buildOpenPortRules c = open_port_rules_of (fw_OpenPorts (cfg_Firewall c))"

section \<open>Template data\<close>

record nftTemplateData =
  nd_LANInterfaces :: "string list"
  nd_WANInterfaces :: "string list"
  nd_IPv6WANInterfaces :: "string list"
  nd_LANDevice :: string
  nd_WANDevice :: string
  nd_IsolatedVLANs :: "string list"
  nd_PortForwards :: "PortForward list"
  nd_CustomInputRules :: "string list"
  nd_CustomForwardRules :: "string list"
  nd_CustomOutputRules :: "string list"
  nd_OpenPortRules :: "string list"
  nd_WebPort :: int
  nd_IPv6Enabled :: bool
  nd_SixInFourEnabled :: bool
  nd_SixInFourServer :: string
  nd_USBNATEnabled :: bool
  nd_USBInterface :: string
  nd_TTLFixEnabled :: bool
  nd_TTLFixValue :: int
  nd_WGServerEnabled :: bool
  nd_WGServerIface :: string
  nd_WGClientIfaces :: "string list"
  nd_OVPNServerEnabled :: bool
  nd_OVPNServerIface :: string

definition addSixInFour :: "Config \<Rightarrow> nftTemplateData \<Rightarrow> nftTemplateData" where
  "addSixInFour c d =
     (if v6_Mode (cfg_IPv6 c) \<noteq> ''6in4'' \<or> v6_Enabled (cfg_IPv6 c) = ''off'' then d
      else let t = TrimSpace (v6t_Device (v6_Tunnel (cfg_IPv6 c)));
               dev = (if t = [] then ''lkt6in4'' else t);
               d1 = d\<lparr>nd_IPv6WANInterfaces := nd_IPv6WANInterfaces d @ [dev]\<rparr>;
               srv = TrimSpace (v6t_ServerIPv4 (v6_Tunnel (cfg_IPv6 c))) in
           if srv \<noteq> [] then d1\<lparr>nd_SixInFourEnabled := True, nd_SixInFourServer := srv\<rparr> else d1)"

definition wanIPDevice :: "InterfaceConfig \<Rightarrow> string" where
  "wanIPDevice iface = (if ic_Type iface = ''pppoe'' then ''ppp0'' else ic_Device iface)"

definition firstDevice :: "string list \<Rightarrow> string" where
  "firstDevice devs = (case find (\<lambda>d. d \<noteq> []) devs of Some d \<Rightarrow> d | None \<Rightarrow> [])"

definition addInterfaces :: "Config \<Rightarrow> nftTemplateData \<Rightarrow> nftTemplateData" where
  "addInterfaces c d =
     (let d1 = foldl (\<lambda>d iface.
                 if ic_Role iface = ''wan'' then d\<lparr>nd_WANInterfaces := nd_WANInterfaces d @ [wanIPDevice iface]\<rparr>
                 else if ic_Role iface = ''lan'' then d\<lparr>nd_LANInterfaces := nd_LANInterfaces d @ [ic_Device iface]\<rparr>
                 else d) d (cfg_Interfaces c) in
      d1\<lparr>nd_WANDevice := firstDevice (nd_WANInterfaces d1), nd_LANDevice := firstDevice (nd_LANInterfaces d1)\<rparr>)"

definition deviceByID :: "InterfaceConfig list \<Rightarrow> string \<Rightarrow> string" where
  "deviceByID ifaces i = (case find (\<lambda>iface. ic_ID iface = i) ifaces of Some iface \<Rightarrow> ic_Device iface | None \<Rightarrow> [])"

definition isolatedVLANs :: "Config \<Rightarrow> string list" where
  "isolatedVLANs c =
     map (\<lambda>v. deviceByID (cfg_Interfaces c) (vl_Parent v) @ ''.'' @ Itoa (vl_VID v))
       (filter (\<lambda>v. vl_Isolated v \<and> deviceByID (cfg_Interfaces c) (vl_Parent v) \<noteq> []) (cfg_VLANs c))"

definition addUSBTether :: "Config \<Rightarrow> nftTemplateData \<Rightarrow> nftTemplateData" where
  "addUSBTether c d =
     (if \<not> usb_Enabled (cfg_USBTether c) \<or> \<not> usb_NAT (cfg_USBTether c) then d
      else d\<lparr>nd_USBNATEnabled := True,
             nd_USBInterface := (if usb_Interface (cfg_USBTether c) = [] then ''usb0''
                                 else usb_Interface (cfg_USBTether c))\<rparr>)"

definition addVPNInterfaces :: "Config \<Rightarrow> nftTemplateData \<Rightarrow> nftTemplateData" where
  "addVPNInterfaces c d =
     (let d1 = (if wgs_Enabled (vpn_Server (cfg_VPN c))
                then d\<lparr>nd_WGServerEnabled := True, nd_WGServerIface := ''wgs0''\<rparr> else d);
          d2 = d1\<lparr>nd_WGClientIfaces := nd_WGClientIfaces d1 @
                   map (\<lambda>i. ''wg'' @ nat_dec i) [0..<length (vpn_Clients (cfg_VPN c))]\<rparr> in
      if ovs_Enabled (ovpn_Server (cfg_OpenVPN c)) then
        d2\<lparr>nd_OVPNServerEnabled := True,
           nd_OVPNServerIface := (if ovs_Device (ovpn_Server (cfg_OpenVPN c)) = [] then ''tun0''
                                  else ovs_Device (ovpn_Server (cfg_OpenVPN c)))\<rparr>
      else d2)"

definition buildTemplateData :: "Config \<Rightarrow> nftTemplateData" where
  "buildTemplateData c =
     (let custom = buildCustomRules c;
          ttl = ttl_Value (fw_TTLFix (cfg_Firewall c));
          d = \<lparr>nd_LANInterfaces = [], nd_WANInterfaces = [], nd_IPv6WANInterfaces = [], nd_LANDevice = [],
               nd_WANDevice = [], nd_IsolatedVLANs = [], nd_PortForwards = fw_PortForwards (cfg_Firewall c),
               nd_CustomInputRules = cr_Input custom, nd_CustomForwardRules = cr_Forward custom,
               nd_CustomOutputRules = cr_Output custom, nd_OpenPortRules = buildOpenPortRules c,
               nd_WebPort = sys_WebPort (cfg_System c), nd_IPv6Enabled = (v6_Enabled (cfg_IPv6 c) \<noteq> ''off''),
               nd_SixInFourEnabled = False, nd_SixInFourServer = [], nd_USBNATEnabled = False, nd_USBInterface = [],
               nd_TTLFixEnabled = ttl_Enabled (fw_TTLFix (cfg_Firewall c)), nd_TTLFixValue = (if ttl = 0 then 64 else ttl),
               nd_WGServerEnabled = False, nd_WGServerIface = [], nd_WGClientIfaces = [],
               nd_OVPNServerEnabled = False, nd_OVPNServerIface = []\<rparr>;
          d1 = addInterfaces c (addSixInFour c d) in
      addVPNInterfaces c (addUSBTether c (d1\<lparr>nd_IsolatedVLANs := isolatedVLANs c\<rparr>)))"

section \<open>What a rendered line can hold\<close>

definition rule_text :: "string \<Rightarrow> bool" where
  "rule_text s = list_all (\<lambda>c. inert_char c \<or> c = CHR 0x22) s"

definition rule_line :: "string \<Rightarrow> bool" where
  "rule_line line = (\<exists>cond action comment.
     line = indent @ cond @ '' '' @ action @ comment \<and> cond \<noteq> [] \<and> rule_text cond \<and>
     action \<in> {''accept'', ''drop'', ''reject''} \<and> (comment = [] \<or> (\<exists>n. comment = '' # '' @ n \<and> inert n)))"

lemma rule_text_simps [simp]:
  "rule_text []" "rule_text (c # s) \<longleftrightarrow> (inert_char c \<or> c = CHR 0x22) \<and> rule_text s"
  "rule_text (s @ t) \<longleftrightarrow> rule_text s \<and> rule_text t"
  by (simp_all add: rule_text_def)

lemma inert_rule_text: "inert s \<Longrightarrow> rule_text s"
  by (simp add: inert_def rule_text_def list_all_iff)

lemma address_inert: "validateAddressOrCIDR s = ok \<Longrightarrow> inert s"
  by (auto simp: validateAddressOrCIDR_def cidr_text.accepts_inert ip_text.accepts_inert split: if_splits)

lemma matcher_inert: "inert (addressFamilyMatcher s)"
  by (simp add: addressFamilyMatcher_def Let_def split: option.split)

lemma port_inert: "ValidatePort p = ok \<Longrightarrow> inert (Itoa p)"
  by (rule inert_Itoa) (auto simp: ValidatePort_def split: if_splits)

lemmas text_rules = inert_rule_text address_inert matcher_inert port_inert

lemma interfaceCondition_text: "interfaceCondition r = Inr s \<Longrightarrow> rule_text s"
  using iface_name.accepts_inert [of "fr_Interface r"]
  by (auto simp: interfaceCondition_def bindr_eq_Inr_iff quote_name_def inert_rule_text split: if_splits)

lemma addressCondition_text:
  assumes "inert selector" "addressCondition label selector addr = Inr s"
  shows "rule_text s"
  using assms by (auto simp: addressCondition_def text_rules split: if_splits sum.splits)

lemma protocolCondition_text: "protocolCondition r = Inr s \<Longrightarrow> rule_text s"
  by (auto simp: protocolCondition_def bindr_eq_Inr_iff text_rules split: if_splits)

lemma customRuleConditions_text:
  assumes "customRuleConditions r = Inr cs"
  shows "\<forall>s \<in> set cs. rule_text s \<and> s \<noteq> []"
proof -
  from assms obtain i src dst pr where c: "interfaceCondition r = Inr i"
      "addressCondition ''source'' ''saddr'' (fr_SrcIP r) = Inr src"
      "addressCondition ''destination'' ''daddr'' (fr_DstIP r) = Inr dst" "protocolCondition r = Inr pr"
      and cs: "cs = filter (\<lambda>cond. cond \<noteq> []) [i, src, dst, pr]"
    unfolding customRuleConditions_def bindr_eq_Inr_iff by blast
  have "rule_text i" "rule_text src" "rule_text dst" "rule_text pr"
    using interfaceCondition_text [OF c(1)] addressCondition_text [OF _ c(2)] addressCondition_text [OF _ c(3)]
      protocolCondition_text [OF c(4)] by simp_all
  then show ?thesis unfolding cs by simp
qed

lemma join_text: "\<forall>s \<in> set cs. rule_text s \<and> s \<noteq> [] \<Longrightarrow> cs \<noteq> [] \<Longrightarrow>
    rule_text (join_with '' '' cs) \<and> join_with '' '' cs \<noteq> []"
proof (induction cs)
  case (Cons c cs)
  then show ?case by (cases cs) auto
qed simp

lemma renderCustomRule_line:
  assumes "renderCustomRule r = Inr line" "line \<noteq> []"
  shows "rule_line line"
proof -
  define act where "act = (if fr_Action r = [] then ''accept'' else fr_Action r)"
  define com where "com = (if fr_Name r \<noteq> [] then '' # '' @ fr_Name r else [])"
  from assms obtain cs where cs: "customRuleConditions r = Inr cs" "ValidateRuleName (fr_Name r) = ok" "cs \<noteq> []"
      and act: "act \<in> {''accept'', ''drop'', ''reject''}"
      and l: "line = indent @ join_with '' '' cs @ '' '' @ act @ com"
    unfolding renderCustomRule_def bindr_eq_Inr_iff Let_def act_def [symmetric]
    by (auto simp: com_def split: if_splits)
  have "com = [] \<or> (\<exists>n. com = '' # '' @ n \<and> inert n)"
    using rule_name.accepts_inert [OF cs(2)] by (auto simp: com_def)
  with l act join_text [OF customRuleConditions_text [OF cs(1)] cs(3)] show ?thesis
    unfolding rule_line_def by blast
qed

lemma rate_inert: "openPortRateLimitPattern s \<Longrightarrow> inert s"
proof -
  assume "openPortRateLimitPattern s"
  then obtain n u where s: "s = n @ CHR ''/'' # u" "list_all is_digit n" "u \<in> set [''second'', ''minute'', ''hour'', ''day'', ''week'']"
    by (auto simp: openPortRateLimitPattern_def Cut_eq_Some_iff split: option.splits)
  have "inert n" using s(2) unfolding inert_def by (rule list.pred_mono_strong) (simp add: is_digit_inert)
  moreover have "inert u" using s(3) by auto
  ultimately show "inert s" using s(1) by simp
qed

lemma openPortLimit_text:
  assumes "openPortLimit rate = Inr s" "s \<noteq> []"
  shows "\<exists>l. s = l @ '' '' \<and> rule_text l"
proof -
  let ?r = "TrimSpace rate"
  have s: "s = ''limit rate '' @ ?r @ '' ''" "ValidateOpenPortRateLimit ?r = ok" "?r \<noteq> []"
    using assms by (auto simp: openPortLimit_def Let_def split: sum.splits if_splits)
  then have "inert ?r"
    by (intro rate_inert) (auto simp: ValidateOpenPortRateLimit_def split: if_splits)
  then show ?thesis using s(1) by (intro exI [of _ "''limit rate '' @ ?r"]) (simp add: inert_rule_text)
qed

lemma renderOpenPortRules_line:
  assumes "renderOpenPortRules x = Inr lines" "line \<in> set lines"
  shows "rule_line line"
proof -
  from assms(1) obtain protos prefix com lim where p: "ValidatePort (op_Port x) = ok"
      "openPortProtocols (op_Protocol x) = Inr protos" "openPortSourcePrefix (op_Source x) = Inr prefix"
      "openPortComment (op_Name x) = Inr com" "openPortLimit (op_RateLimit x) = Inr lim"
      and l: "lines = map (\<lambda>proto. indent @ prefix @ proto @ '' dport '' @ Itoa (op_Port x) @ '' ct state new '' @ lim @
            ''accept'' @ com) protos"
    by (auto simp: renderOpenPortRules_def bindr_eq_Inr_iff)
  from assms(2) l obtain proto where proto: "proto \<in> set protos"
      "line = indent @ prefix @ proto @ '' dport '' @ Itoa (op_Port x) @ '' ct state new '' @ lim @ ''accept'' @ com"
    by auto
  have "rule_text proto" using p(2) proto(1) by (auto simp: openPortProtocols_def split: if_splits)
  moreover have "rule_text prefix"
    using p(3) by (auto simp: openPortSourcePrefix_def Let_def text_rules split: if_splits sum.splits)
  ultimately have base: "rule_text (prefix @ proto @ '' dport '' @ Itoa (op_Port x) @ '' ct state new'')"
    using inert_rule_text [OF port_inert [OF p(1)]] by simp
  have com: "com = [] \<or> (\<exists>n. com = '' # '' @ n \<and> inert n)"
    using p(4) rule_name.accepts_inert
    by (auto simp: openPortComment_def Let_def bindr_eq_Inr_iff split: if_splits)
  show ?thesis
  proof (cases "lim = []")
    case True
    with proto(2) base com show ?thesis
      unfolding rule_line_def
      by (intro exI [of _ "prefix @ proto @ '' dport '' @ Itoa (op_Port x) @ '' ct state new''"]
          exI [of _ "''accept''"] exI [of _ com]) simp
  next
    case False
    then obtain l' where "lim = l' @ '' ''" "rule_text l'" using openPortLimit_text [OF p(5)] by blast
    with proto(2) base com show ?thesis
      unfolding rule_line_def
      by (intro exI [of _ "prefix @ proto @ '' dport '' @ Itoa (op_Port x) @ '' ct state new '' @ l'"]
          exI [of _ "''accept''"] exI [of _ com]) simp
  qed
qed

lemma custom_rules_lines:
  "line \<in> set (cr_Input (custom_rules_of rs)) \<union> set (cr_Forward (custom_rules_of rs)) \<union> set (cr_Output (custom_rules_of rs))
   \<Longrightarrow> rule_line line"
proof (induction rs)
  case (Cons r rs)
  then show ?case
    using renderCustomRule_line [of r] by (auto simp: Let_def split: if_splits sum.splits)
qed simp

lemma open_port_lines: "line \<in> set (open_port_rules_of xs) \<Longrightarrow> rule_line line"
  by (induction xs) (auto split: if_splits sum.splits intro: renderOpenPortRules_line)

definition plain_line :: "string \<Rightarrow> bool" where
  "plain_line line = list_all (\<lambda>c. inert_char c \<or> c \<in> set [CHR 0x22, CHR ''#'']) line"

lemma plain_line_simps [simp]:
  "plain_line (s @ t) \<longleftrightarrow> plain_line s \<and> plain_line t" "plain_line []" "plain_line '' ''" "plain_line '' # ''"
  "plain_line indent"
  by (simp_all add: plain_line_def indent_def list_all_iff ball_Un)

lemma rule_line_plain: "rule_line line \<Longrightarrow> plain_line line"
proof -
  assume "rule_line line"
  then obtain cond action comment where l: "line = indent @ cond @ '' '' @ action @ comment" "rule_text cond"
      "action \<in> {''accept'', ''drop'', ''reject''}" "comment = [] \<or> (\<exists>n. comment = '' # '' @ n \<and> inert n)"
    unfolding rule_line_def by blast
  have "plain_line cond" using l(2) unfolding plain_line_def rule_text_def by (rule list.pred_mono_strong) auto
  moreover have "plain_line action" using l(3) by (auto simp: plain_line_def)
  moreover have "plain_line n" if "inert n" for n
    using that unfolding plain_line_def inert_def by (rule list.pred_mono_strong) auto
  ultimately show "plain_line line"
    using l(1,4) by (auto simp only: plain_line_simps simp_thms)
qed

text \<open>A rule that drops one host, named by the operator.\<close>

definition sample_rule :: FirewallRule where
  "sample_rule = \<lparr>fr_Name = ''printer'', fr_Chain = ''forward'', fr_Action = ''drop'', fr_SrcIP = ''10.0.0.9'', fr_DstIP = [],
     fr_Protocol = ''tcp'', fr_Port = 443, fr_Interface = ''eth1'', fr_Direction = ''in'', fr_Enabled = True, fr_Priority = 0\<rparr>"

definition sample_fw :: Config where
  "sample_fw = zero_Config\<lparr>cfg_Firewall := zero_FirewallConfig\<lparr>fw_Rules := [sample_rule]\<rparr>\<rparr>"

section \<open>Properties\<close>

text \<open>(C5) Nothing in the configuration can inject into the ruleset through a custom rule or an open
  port: whatever names, addresses, protocols and rates the YAML file holds, every rendered line is a
  non-empty match made of inert characters and quotes, one of the three verdicts, and at most a
  trailing comment of inert characters. So no line ends early, opens a block or a second statement,
  and none applies its verdict unconditionally.\<close>

theorem rendered_lines_cannot_inject:
  assumes "line \<in> set (nd_CustomInputRules (buildTemplateData c)) \<union> set (nd_CustomForwardRules (buildTemplateData c)) \<union>
     set (nd_CustomOutputRules (buildTemplateData c)) \<union> set (nd_OpenPortRules (buildTemplateData c))"
  shows "rule_line line \<and> plain_line line"
proof -
  have foldl_frame: "nd_CustomInputRules (foldl f d xs) = nd_CustomInputRules d \<and>
      nd_CustomForwardRules (foldl f d xs) = nd_CustomForwardRules d \<and>
      nd_CustomOutputRules (foldl f d xs) = nd_CustomOutputRules d \<and> nd_OpenPortRules (foldl f d xs) = nd_OpenPortRules d"
    if "\<And>d x. nd_CustomInputRules (f d x) = nd_CustomInputRules d \<and> nd_CustomForwardRules (f d x) = nd_CustomForwardRules d \<and>
      nd_CustomOutputRules (f d x) = nd_CustomOutputRules d \<and> nd_OpenPortRules (f d x) = nd_OpenPortRules d"
    for f :: "nftTemplateData \<Rightarrow> InterfaceConfig \<Rightarrow> nftTemplateData" and d xs
    using that by (induction xs arbitrary: d) auto
  have "nd_CustomInputRules (buildTemplateData c) = cr_Input (buildCustomRules c) \<and>
     nd_CustomForwardRules (buildTemplateData c) = cr_Forward (buildCustomRules c) \<and>
     nd_CustomOutputRules (buildTemplateData c) = cr_Output (buildCustomRules c) \<and>
     nd_OpenPortRules (buildTemplateData c) = buildOpenPortRules c"
    unfolding buildTemplateData_def addVPNInterfaces_def addUSBTether_def addInterfaces_def addSixInFour_def Let_def
    by (simp add: foldl_frame)
  with assms have "rule_line line"
    using custom_rules_lines open_port_lines by (auto simp: buildCustomRules_def buildOpenPortRules_def)
  then show ?thesis using rule_line_plain by blast
qed

theorem rendered_lines_cannot_inject_witness:
  "rule_line (indent @ ''iifname '' @ quote_name ''eth1'' @ '' ip saddr 10.0.0.9 tcp dport 443 drop # printer'')"
proof -
  have "nd_CustomForwardRules (buildTemplateData sample_fw) =
      [indent @ ''iifname '' @ quote_name ''eth1'' @ '' ip saddr 10.0.0.9 tcp dport 443 drop # printer'']"
    by code_simp
  then show ?thesis
    using rendered_lines_cannot_inject
      [of "indent @ ''iifname '' @ quote_name ''eth1'' @ '' ip saddr 10.0.0.9 tcp dport 443 drop # printer''" sample_fw]
    by simp
qed

text \<open>(C36) Removing by an index that is out of range reports an error and empties the list in memory:
  the list \<open>removeAt\<close> returns beside its error is assigned before the error is looked at. All the
  custom rules are gone from the running configuration, and the next save or apply makes that
  permanent.\<close>

theorem remove_bad_index_wipes:
  assumes "index < 0 \<or> index \<ge> int (length (fw_Rules (cfg_Firewall c)))"
  shows "fst (RemoveRule persist index c) = Inl (''invalid rule index: '' @ Itoa index) \<and>
    fw_Rules (cfg_Firewall (snd (RemoveRule persist index c))) = []"
  using assms by (simp add: RemoveRule_def mutate_def removeAt_def Let_def)

theorem remove_bad_index_wipes_witness:
  "fw_Rules (cfg_Firewall (snd (RemoveRule ok 7 sample_fw))) = [] \<and> fw_Rules (cfg_Firewall sample_fw) = [sample_rule]"
  using remove_bad_index_wipes [of 7 sample_fw ok] by (simp add: sample_fw_def)

end
