(* ===== verification/FirewallWatch.thy ===== *)
theory FirewallWatch
  imports GoStrings
begin

text \<open>
  Applying a ruleset under a watchdog: \<open>AtomicChange\<close> of \<open>internal/netutil/atomic.go\<close> and the
  apply, confirm, rollback and restart paths of \<open>FirewallService\<close> in
  \<open>internal/services/firewall.go\<close>.

  The kernel's ruleset is the text \<open>nft list ruleset\<close> prints; \<open>nft\<close> itself is a parameter. A change
  is identified by a number, as Go identifies it by its pointer. A timer is its change and its
  deadline; the callback of a timer stopped too late still runs, so a stopped timer may stay in the
  list. Each operation takes the outcome of the calls it makes from an environment record.
\<close>

section \<open>State\<close>

record nft =
  nft_check :: "string \<Rightarrow> bool"
  nft_load :: "string \<Rightarrow> string option"
  nft_after :: "string \<Rightarrow> string"

text \<open>\<open>nft_load file\<close> is the ruleset in force after \<open>nft -f\<close> of a file that begins with a flush,
  \<open>None\<close> when it fails; \<open>nft_after\<close> is what the hook of \<open>SetAfterReload\<close> makes of it.\<close>

record AtomicChange =
  ac_id :: nat
  ac_snapshot :: string
  ac_applied :: bool

record firewall =
  fs_kernel :: string
  fs_change :: "AtomicChange option"
  fs_appliedRuleset :: string
  fs_pending :: "(string \<times> int) option"
  fs_rolledback :: bool
  fs_boot :: "string option"
  fs_timers :: "(nat \<times> int) list"
  fs_next :: nat

record fw_env =
  fe_stage :: bool
  fe_list :: bool
  fe_write :: bool
  fe_torn :: bool
  fe_remove :: bool
  fe_unmark :: bool
  fe_late :: bool

text \<open>Whether staging the candidate, listing the ruleset, and writing state files succeed; whether a
  failed write leaves the record of the pending change unreadable; whether that record and the
  rolled-back marker can be removed; and whether the timer being stopped has already fired.
  \<open>fs_pending\<close> is \<open>None\<close> for a record that is absent or cannot be parsed.\<close>

definition firewallConfirmWindow :: int where "firewallConfirmWindow = 30 * Second"

definition emptyRulesetSnapshot :: string where
  "emptyRulesetSnapshot = ''# empty ruleset'' @ [CHR 0x0A]"

definition flush_ruleset :: string where "flush_ruleset = ''flush ruleset'' @ [CHR 0x0A]"

section \<open>Operations\<close>

definition NewAtomicChangeWithSnapshot :: "nat \<Rightarrow> string \<Rightarrow> AtomicChange" where
  "NewAtomicChangeWithSnapshot i snapshot = \<lparr>ac_id = i, ac_snapshot = snapshot, ac_applied = True\<rparr>"

definition Snapshot :: "fw_env \<Rightarrow> string \<Rightarrow> string + string" where
  "Snapshot env cur =
     (if \<not> fe_list env then Inl ''snapshot firewall''
      else Inr (if TrimSpace cur = [] then emptyRulesetSnapshot else cur))"

text \<open>\<open>AtomicChange.Rollback\<close> on the kernel's ruleset.\<close>

definition ac_Rollback :: "nft \<Rightarrow> fw_env \<Rightarrow> AtomicChange \<Rightarrow> string \<Rightarrow> string check \<times> string" where
  "ac_Rollback N env ac cur =
     (if ac_snapshot ac = [] then (Inl ''no snapshot to rollback to'', cur)
      else if \<not> fe_stage env then (Inl ''write rollback'', cur)
      else (case nft_load N (flush_ruleset @ ac_snapshot ac) of
              None \<Rightarrow> (Inl ''apply rollback'', cur)
            | Some k \<Rightarrow> (ok, k)))"

definition stop_timer :: "fw_env \<Rightarrow> AtomicChange \<Rightarrow> firewall \<Rightarrow> firewall" where
  "stop_timer env ac s =
     (if fe_late env then s else s\<lparr>fs_timers := filter (\<lambda>t. fst t \<noteq> ac_id ac) (fs_timers s)\<rparr>)"

definition armWatchdog :: "AtomicChange \<Rightarrow> int \<Rightarrow> firewall \<Rightarrow> firewall" where
  "armWatchdog ac deadline s = s\<lparr>fs_timers := fs_timers s @ [(ac_id ac, deadline)]\<rparr>"

definition persistPendingState :: "fw_env \<Rightarrow> int \<Rightarrow> string \<Rightarrow> firewall \<Rightarrow> firewall" where
  "persistPendingState env now snapshot s =
     (if snapshot = [] then s
      else if fe_write env then s\<lparr>fs_pending := Some (snapshot, now)\<rparr>
      else if fe_torn env then s\<lparr>fs_pending := None\<rparr>
      else s)"

text \<open>A removal that fails is only logged.\<close>

definition clearPendingState :: "fw_env \<Rightarrow> firewall \<Rightarrow> firewall" where
  "clearPendingState env s = (if fe_remove env then s\<lparr>fs_pending := None\<rparr> else s)"

definition markRolledBack :: "fw_env \<Rightarrow> firewall \<Rightarrow> firewall" where
  "markRolledBack env s = (if fe_write env then s\<lparr>fs_rolledback := True\<rparr> else s)"

definition clearRolledBack :: "fw_env \<Rightarrow> firewall \<Rightarrow> firewall" where
  "clearRolledBack env s = (if fe_unmark env then s\<lparr>fs_rolledback := False\<rparr> else s)"

definition runAfterReload :: "nft \<Rightarrow> firewall \<Rightarrow> firewall" where
  "runAfterReload N s = s\<lparr>fs_kernel := nft_after N (fs_kernel s)\<rparr>"

datatype fw_error = ErrChangePending | ErrRolledBack | RenderFailed | SnapshotFailed | ValidateFailed | ApplyFailed

text \<open>\<open>rendered\<close> is what \<open>RenderConfig\<close> makes of the saved configuration.\<close>

definition Apply :: "nft \<Rightarrow> fw_env \<Rightarrow> string option \<Rightarrow> int \<Rightarrow> firewall \<Rightarrow> fw_error check \<times> firewall" where
  "Apply N env rendered now s =
     (if fs_change s \<noteq> None then (Inl ErrChangePending, s)
      else (case rendered of
              None \<Rightarrow> (Inl RenderFailed, s)
            | Some text \<Rightarrow>
                if \<not> fe_stage env then (Inl RenderFailed, s)
                else (case Snapshot env (fs_kernel s) of
                        Inl e \<Rightarrow> (Inl SnapshotFailed, s)
                      | Inr snap \<Rightarrow>
                          if \<not> nft_check N text then (Inl ValidateFailed, s)
                          else (case nft_load N text of
                                  None \<Rightarrow> (Inl ApplyFailed, s)
                                | Some k \<Rightarrow>
                                    let ac = \<lparr>ac_id = fs_next s, ac_snapshot = snap, ac_applied = True\<rparr>;
                                        s1 = s\<lparr>fs_kernel := k, fs_change := Some ac, fs_appliedRuleset := text,
                                               fs_next := Suc (fs_next s)\<rparr> in
                                    (ok, runAfterReload N (armWatchdog ac (now + firewallConfirmWindow)
                                           (persistPendingState env now snap s1)))))))"

definition persistConfirmedRuleset :: "fw_env \<Rightarrow> string option \<Rightarrow> firewall \<Rightarrow> firewall" where
  "persistConfirmedRuleset env rendered s =
     (let s1 = s\<lparr>fs_appliedRuleset := []\<rparr> in
      case (if fs_appliedRuleset s = [] then rendered else Some (fs_appliedRuleset s)) of
        None \<Rightarrow> s1
      | Some text \<Rightarrow> if fe_write env then s1\<lparr>fs_boot := Some text\<rparr> else s1)"

definition Confirm :: "fw_env \<Rightarrow> string option \<Rightarrow> firewall \<Rightarrow> firewall" where
  "Confirm env rendered s =
     clearPendingState env
       (case fs_change s of
          None \<Rightarrow> s
        | Some ac \<Rightarrow>
            clearRolledBack env (persistConfirmedRuleset env rendered ((stop_timer env ac s)\<lparr>fs_change := None\<rparr>)))"

definition Rollback :: "nft \<Rightarrow> fw_env \<Rightarrow> firewall \<Rightarrow> string check \<times> firewall" where
  "Rollback N env s =
     (case fs_change s of
        None \<Rightarrow> (ok, s)
      | Some ac \<Rightarrow>
          let (r, k) = ac_Rollback N env ac (fs_kernel s);
              s1 = (stop_timer env ac s)\<lparr>fs_kernel := k, fs_change := None\<rparr> in
          (r, runAfterReload N (clearPendingState env s1)))"

definition ApplyAndConfirm :: "nft \<Rightarrow> fw_env \<Rightarrow> string option \<Rightarrow> int \<Rightarrow> firewall \<Rightarrow> fw_error check \<times> firewall" where
  "ApplyAndConfirm N env rendered now s =
     (if fs_rolledback s then (Inl ErrRolledBack, s)
      else (case Apply N env rendered now s of
              (Inl e, s1) \<Rightarrow> (Inl e, s1)
            | (Inr _, s1) \<Rightarrow> (ok, Confirm env rendered s1)))"

text \<open>The callback of a timer.\<close>

definition watchdog :: "nft \<Rightarrow> fw_env \<Rightarrow> nat \<Rightarrow> firewall \<Rightarrow> firewall" where
  "watchdog N env i s0 =
     (let s = s0\<lparr>fs_timers := filter (\<lambda>t. fst t \<noteq> i) (fs_timers s0)\<rparr> in
      case fs_change s of
        None \<Rightarrow> s
      | Some ac \<Rightarrow>
          if ac_id ac \<noteq> i then s
          else let (r, k) = ac_Rollback N env ac (fs_kernel s) in
               runAfterReload N (markRolledBack env (clearPendingState env (s\<lparr>fs_change := None, fs_kernel := k\<rparr>))))"

definition restorePendingChange :: "fw_env \<Rightarrow> int \<Rightarrow> firewall \<Rightarrow> firewall" where
  "restorePendingChange env now s =
     (case fs_pending s of
        None \<Rightarrow> s
      | Some (snap, appliedAt) \<Rightarrow>
          if snap = [] then clearPendingState env s
          else let remaining = max (firewallConfirmWindow - (now - appliedAt)) 0;
                   ac = NewAtomicChangeWithSnapshot (fs_next s) snap in
               armWatchdog ac (now + remaining) (s\<lparr>fs_change := Some ac, fs_next := Suc (fs_next s)\<rparr>))"

text \<open>A restart of the process: memory is lost, the files and the kernel are not.\<close>

definition newFirewallService :: "fw_env \<Rightarrow> int \<Rightarrow> firewall \<Rightarrow> firewall" where
  "newFirewallService env now s = restorePendingChange env now (s\<lparr>fs_change := None, fs_appliedRuleset := [], fs_timers := []\<rparr>)"

section \<open>Runs\<close>

datatype fw_event =
    EvApply fw_env "string option" int
  | EvAuto fw_env "string option" int
  | EvConfirm fw_env "string option"
  | EvRollback fw_env
  | EvTimer fw_env nat
  | EvRestart fw_env int

fun fw_step :: "nft \<Rightarrow> firewall \<Rightarrow> fw_event \<Rightarrow> firewall" where
  "fw_step N s (EvApply env r now) = snd (Apply N env r now s)"
| "fw_step N s (EvAuto env r now) = snd (ApplyAndConfirm N env r now s)"
| "fw_step N s (EvConfirm env r) = Confirm env r s"
| "fw_step N s (EvRollback env) = snd (Rollback N env s)"
| "fw_step N s (EvTimer env i) = (if i \<in> fst ` set (fs_timers s) then watchdog N env i s else s)"
| "fw_step N s (EvRestart env now) = newFirewallService env now s"

inductive fw_reachable :: "nft \<Rightarrow> firewall \<Rightarrow> bool" for N where
  start: "fs_change s = None \<Longrightarrow> fs_timers s = [] \<Longrightarrow> fs_pending s = None \<Longrightarrow> fw_reachable N s"
| step: "fw_reachable N s \<Longrightarrow> fw_reachable N (fw_step N s e)"

text \<open>A change waits for the operator exactly as long as a timer that will revert it is armed, and it
  always has something to revert to.\<close>

definition fw_wf :: "firewall \<Rightarrow> bool" where
  "fw_wf s =
     ((\<forall>t \<in> set (fs_timers s). fst t < fs_next s) \<and>
      (\<forall>ac. fs_change s = Some ac \<longrightarrow>
         ac_snapshot ac \<noteq> [] \<and> ac_id ac < fs_next s \<and> ac_id ac \<in> fst ` set (fs_timers s)) \<and>
      (\<forall>p. fs_pending s = Some p \<longrightarrow> fst p \<noteq> []))"

text \<open>The record on disk, if there is one, is that of the change in memory. An event whose removals
  succeed keeps it so.\<close>

definition record_current :: "firewall \<Rightarrow> bool" where
  "record_current s =
     (\<forall>p. fs_pending s = Some p \<longrightarrow> (\<exists>ac. fs_change s = Some ac \<and> ac_snapshot ac = fst p))"

fun removals_work :: "fw_event \<Rightarrow> bool" where
  "removals_work (EvApply _ _ _) = True"
| "removals_work (EvAuto env _ _) = fe_remove env"
| "removals_work (EvConfirm env _) = fe_remove env"
| "removals_work (EvRollback env) = fe_remove env"
| "removals_work (EvTimer env _) = fe_remove env"
| "removals_work (EvRestart env _) = True"

lemma snapshot_nonempty: "Snapshot env k = Inr snap \<Longrightarrow> snap \<noteq> []"
  using set_TrimSpace [of "[]"] by (auto simp: Snapshot_def emptyRulesetSnapshot_def split: if_splits)

lemmas fw_op_defs = runAfterReload_def armWatchdog_def persistPendingState_def clearPendingState_def
  markRolledBack_def clearRolledBack_def stop_timer_def

lemma Apply_cases:
  obtains (refused) e where "Apply N env rendered now s = (Inl e, s)"
  | (applied) conf snap k ac where "fs_change s = None" "rendered = Some conf" "Snapshot env (fs_kernel s) = Inr snap"
      "nft_load N conf = Some k" "ac = \<lparr>ac_id = fs_next s, ac_snapshot = snap, ac_applied = True\<rparr>"
      "Apply N env rendered now s = (ok, runAfterReload N (armWatchdog ac (now + firewallConfirmWindow)
         (persistPendingState env now snap (s\<lparr>fs_kernel := k, fs_change := Some ac, fs_appliedRuleset := conf,
            fs_next := Suc (fs_next s)\<rparr>))))"
  by (cases "fs_change s"; cases rendered; cases "fe_stage env"; cases "Snapshot env (fs_kernel s)";
      cases "nft_check N (the rendered)"; cases "nft_load N (the rendered)")
     (auto simp: Apply_def Let_def)

lemma Apply_wf:
  assumes "fw_wf s"
  shows "fw_wf (snd (Apply N env rendered now s))"
proof (cases rule: Apply_cases [of N env rendered now s])
  case refused
  with assms show ?thesis by simp
next
  case (applied conf snap k ac)
  with assms snapshot_nonempty [OF applied(3)] show ?thesis
    by (auto simp: fw_wf_def fw_op_defs less_SucI)
qed

lemma Confirm_wf: "fw_wf s \<Longrightarrow> fw_wf (Confirm env rendered s)"
  by (auto simp: fw_wf_def Confirm_def persistConfirmedRuleset_def fw_op_defs Let_def split: option.split)

lemma Rollback_wf: "fw_wf s \<Longrightarrow> fw_wf (snd (Rollback N env s))"
  by (auto simp: fw_wf_def Rollback_def fw_op_defs Let_def case_prod_unfold split: option.split)

lemma watchdog_wf: "fw_wf s \<Longrightarrow> fw_wf (watchdog N env i s)"
  by (auto simp: fw_wf_def watchdog_def fw_op_defs Let_def case_prod_unfold split: option.split)

lemma restart_wf: "fw_wf s \<Longrightarrow> fw_wf (newFirewallService env now s)"
  by (auto simp: fw_wf_def newFirewallService_def restorePendingChange_def NewAtomicChangeWithSnapshot_def fw_op_defs
      Let_def split: option.split)

lemma fw_step_wf: "fw_wf s \<Longrightarrow> fw_wf (fw_step N s e)"
proof (cases e)
  case (EvAuto env r now)
  assume "fw_wf s"
  then have "fw_wf (snd (Apply N env r now s))" by (rule Apply_wf)
  then show ?thesis
    using EvAuto \<open>fw_wf s\<close> Confirm_wf [of "snd (Apply N env r now s)" env r]
    by (auto simp: ApplyAndConfirm_def split: prod.split sum.split)
qed (auto intro: Apply_wf Confirm_wf Rollback_wf watchdog_wf restart_wf)

lemma reachable_wf: "fw_reachable N s \<Longrightarrow> fw_wf s"
  by (induction rule: fw_reachable.induct) (simp add: fw_wf_def, rule fw_step_wf)

lemma Apply_record: "record_current s \<Longrightarrow> record_current (snd (Apply N env rendered now s))"
  by (cases rule: Apply_cases [of N env rendered now s]) (auto simp: record_current_def fw_op_defs)

lemma Confirm_pending:
  "fs_pending (Confirm env rendered s) = (if fe_remove env then None else fs_pending s)"
  "fs_change (Confirm env rendered s) = None"
  by (auto simp: Confirm_def persistConfirmedRuleset_def fw_op_defs Let_def split: option.split)

lemma step_record:
  assumes "fw_wf s" "record_current s" "removals_work e"
  shows "record_current (fw_step N s e)"
proof (cases e)
  case (EvApply env r now)
  with Apply_record [OF assms(2)] show ?thesis by simp
next
  case (EvAuto env r now)
  then show ?thesis
    using assms(2,3) Apply_record [OF assms(2), of N env r now] Confirm_pending(1) [of env r]
    by (auto simp: ApplyAndConfirm_def record_current_def split: prod.split sum.split)
next
  case (EvConfirm env r)
  with assms(3) Confirm_pending(1) [of env r s] show ?thesis by (simp add: record_current_def)
next
  case (EvRollback env)
  with assms(2,3) show ?thesis
    by (auto simp: record_current_def Rollback_def fw_op_defs Let_def case_prod_unfold split: option.split)
next
  case (EvTimer env i)
  with assms(2,3) show ?thesis
    by (auto simp: record_current_def watchdog_def fw_op_defs Let_def case_prod_unfold split: option.split)
next
  case (EvRestart env now)
  with assms(1) show ?thesis
    by (auto simp: fw_wf_def record_current_def newFirewallService_def restorePendingChange_def
        NewAtomicChangeWithSnapshot_def fw_op_defs Let_def split: option.split)
qed

text \<open>What a restart makes of a record it finds.\<close>

lemma restart_arms:
  assumes "fs_pending s = Some (snap, at)" "snap \<noteq> []"
  shows "\<exists>ac. fs_change (newFirewallService env now s) = Some ac \<and> ac_snapshot ac = snap \<and>
    fs_timers (newFirewallService env now s) = [(ac_id ac, max (at + 30 * Second) now)]"
  using assms
  by (auto simp: newFirewallService_def restorePendingChange_def NewAtomicChangeWithSnapshot_def armWatchdog_def
      firewallConfirmWindow_def Let_def max_def)

section \<open>The pending change\<close>

text \<open>Events that settle the pending change of a state.\<close>

fun settles :: "firewall \<Rightarrow> fw_event \<Rightarrow> bool" where
  "settles s (EvConfirm _ _) = True"
| "settles s (EvRollback _) = True"
| "settles s (EvTimer _ i) = (\<exists>ac. fs_change s = Some ac \<and> ac_id ac = i)"
| "settles s _ = False"

fun unsettled :: "nft \<Rightarrow> firewall \<Rightarrow> fw_event list \<Rightarrow> bool" where
  "unsettled N s [] = True"
| "unsettled N s (e # es) = (\<not> settles s e \<and> unsettled N (fw_step N s e) es)"

fun latest :: "int \<Rightarrow> fw_event list \<Rightarrow> int" where
  "latest t [] = t"
| "latest t (EvRestart _ now # es) = latest (max t now) es"
| "latest t (_ # es) = latest t es"

definition awaits :: "string \<Rightarrow> string \<Rightarrow> int \<Rightarrow> int \<Rightarrow> firewall \<Rightarrow> bool" where
  "awaits snap k at t s =
     (\<exists>ac d. fs_change s = Some ac \<and> ac_snapshot ac = snap \<and> fs_pending s = Some (snap, at) \<and> fs_kernel s = k \<and>
        (ac_id ac, d) \<in> set (fs_timers s) \<and> d \<le> t)"

lemma awaits_step:
  assumes "awaits snap k at t s" "snap \<noteq> []" "\<not> settles s e" "at + firewallConfirmWindow \<le> t"
  shows "awaits snap k at (latest t [e]) (fw_step N s e)"
proof (cases e)
  case (EvApply env r now)
  with assms(1) show ?thesis by (auto simp: awaits_def Apply_def)
next
  case (EvAuto env r now)
  with assms(1) show ?thesis by (auto simp: awaits_def ApplyAndConfirm_def Apply_def)
next
  case (EvTimer env i)
  from assms(1) obtain ac d where ac: "fs_change s = Some ac" "ac_snapshot ac = snap" "fs_pending s = Some (snap, at)"
      "fs_kernel s = k" "(ac_id ac, d) \<in> set (fs_timers s)" "d \<le> t"
    unfolding awaits_def by blast
  with EvTimer assms(3) have "ac_id ac \<noteq> i" by auto
  with ac EvTimer show ?thesis by (auto simp: awaits_def watchdog_def Let_def)
next
  case (EvRestart env now)
  with assms show ?thesis
    by (auto simp: awaits_def newFirewallService_def restorePendingChange_def NewAtomicChangeWithSnapshot_def
        armWatchdog_def Let_def)
qed (use assms(3) in auto)

lemma latest_mono: "t \<le> latest t es"
  by (induction t es rule: latest.induct) auto

lemma awaits_run:
  assumes "awaits snap k at t s" "snap \<noteq> []" "unsettled N s es" "at + firewallConfirmWindow \<le> t"
  shows "awaits snap k at (latest t es) (run (fw_step N) s es)"
  using assms
proof (induction es arbitrary: s t)
  case (Cons e es)
  have "awaits snap k at (latest t [e]) (fw_step N s e)"
    using Cons.prems by (intro awaits_step) auto
  moreover have "latest t (e # es) = latest (latest t [e]) es" by (cases e) auto
  moreover have "t \<le> latest t [e]" by (rule latest_mono)
  ultimately show ?case using Cons.IH [of "latest t [e]" "fw_step N s e"] Cons.prems by simp
qed simp

lemma awaits_revert:
  assumes "awaits snap k at t s" "snap \<noteq> []" "fe_stage env" "fe_write env"
    and "nft_load N (flush_ruleset @ snap) = Some k0"
  shows "\<exists>i d. (i, d) \<in> set (fs_timers s) \<and> d \<le> t \<and>
    (let s' = fw_step N s (EvTimer env i) in
     fs_kernel s' = nft_after N k0 \<and> fs_change s' = None \<and> (fe_remove env \<longrightarrow> fs_pending s' = None) \<and>
     fs_rolledback s')"
proof -
  from assms(1) obtain ac d where ac: "fs_change s = Some ac" "ac_snapshot ac = snap"
      "(ac_id ac, d) \<in> set (fs_timers s)" "d \<le> t"
    unfolding awaits_def by blast
  then have "ac_id ac \<in> fst ` set (fs_timers s)" by force
  with ac assms show ?thesis
    by (intro exI [of _ "ac_id ac"] exI [of _ d])
       (simp add: watchdog_def ac_Rollback_def Let_def runAfterReload_def markRolledBack_def clearPendingState_def)
qed

text \<open>A box with the ruleset \<open>old\<close> in force, and an \<open>nft\<close> that loads what follows the flush.\<close>

definition sample_nft :: nft where
  "sample_nft = \<lparr>nft_check = (\<lambda>_. True), nft_load = (\<lambda>f. Some (TrimPrefix f flush_ruleset)), nft_after = (\<lambda>k. k)\<rparr>"

definition sample_box :: firewall where
  "sample_box = \<lparr>fs_kernel = ''old'', fs_change = None, fs_appliedRuleset = [], fs_pending = None, fs_rolledback = False,
     fs_boot = None, fs_timers = [], fs_next = 0\<rparr>"

definition calls_ok :: fw_env where
  "calls_ok = \<lparr>fe_stage = True, fe_list = True, fe_write = True, fe_torn = False, fe_remove = True, fe_unmark = True,
     fe_late = False\<rparr>"

definition sample_applied :: firewall where
  "sample_applied = snd (Apply sample_nft calls_ok (Some ''new'') 0 sample_box)"

lemma sample_reachable: "fw_reachable sample_nft sample_box" "fw_reachable sample_nft sample_applied"
proof -
  show b: "fw_reachable sample_nft sample_box" by (rule fw_reachable.start) (simp_all add: sample_box_def)
  have "sample_applied = fw_step sample_nft sample_box (EvApply calls_ok (Some ''new'') 0)"
    by (simp add: sample_applied_def)
  then show "fw_reachable sample_nft sample_applied"
    using fw_reachable.step [OF b, of "EvApply calls_ok (Some ''new'') 0"] by (simp only:)
qed

lemma sample_change:
  "fs_change sample_applied = Some \<lparr>ac_id = 0, ac_snapshot = ''old'', ac_applied = True\<rparr>"
  "fs_timers sample_applied = [(0, 30 * Second)]" "fs_pending sample_applied = Some (''old'', 0)"
  "fs_next sample_applied = 1" "\<not> fs_rolledback sample_applied"
  by code_simp+

section \<open>Properties\<close>

text \<open>(C37) In every reachable state, through any interleaving of applies, background applies,
  confirmations, rollbacks, timers and restarts, and whichever writes and removals fail, a change
  that waits for confirmation has a timer armed that names it and a snapshot to go back to; a
  timer of any other change, one stopped too late, does nothing but go away; and a record found on
  disk has a snapshot, and a restart takes it for an unconfirmed change and arms the one timer that
  reverts to it, due 30 seconds after the apply or at once. As long as removals succeed the record
  is that of the change in memory: every event that removes what it means to keeps it so. When one
  fails the failure is only logged, and the record of a change already confirmed waits on disk for
  the next restart to revert it.\<close>

theorem pending_change_is_watched:
  assumes "fw_reachable N s"
  shows "(fs_change s = Some ac \<longrightarrow> ac_snapshot ac \<noteq> [] \<and> ac_id ac \<in> fst ` set (fs_timers s)) \<and>
    (map_option ac_id (fs_change s) \<noteq> Some i \<longrightarrow>
       fw_step N s (EvTimer env i) = s\<lparr>fs_timers := filter (\<lambda>t. fst t \<noteq> i) (fs_timers s)\<rparr>) \<and>
    (fs_pending s = Some (snap, at) \<longrightarrow> snap \<noteq> [] \<and>
       (\<exists>ac'. fs_change (fw_step N s (EvRestart env now)) = Some ac' \<and> ac_snapshot ac' = snap \<and>
          fs_timers (fw_step N s (EvRestart env now)) = [(ac_id ac', max (at + 30 * Second) now)])) \<and>
    (record_current s \<and> removals_work e \<longrightarrow> record_current (fw_step N s e)) \<and>
    (fs_pending s = Some (snap, at) \<and> \<not> fe_remove env \<longrightarrow>
       fs_change (fw_step N s (EvConfirm env r)) = None \<and>
       fs_pending (fw_step N s (EvConfirm env r)) = Some (snap, at))"
proof -
  have "filter (\<lambda>t. fst t \<noteq> i) (fs_timers s) = fs_timers s" if "i \<notin> fst ` set (fs_timers s)"
    using that by (auto simp: filter_id_conv)
  then have "map_option ac_id (fs_change s) \<noteq> Some i \<longrightarrow>
      fw_step N s (EvTimer env i) = s\<lparr>fs_timers := filter (\<lambda>t. fst t \<noteq> i) (fs_timers s)\<rparr>"
    by (auto simp: watchdog_def Let_def split: option.split)
  moreover have "fs_pending s = Some (snap, at) \<longrightarrow> snap \<noteq> []"
    using reachable_wf [OF assms] by (auto simp: fw_wf_def)
  moreover have "fs_change s = Some ac \<longrightarrow> ac_snapshot ac \<noteq> [] \<and> ac_id ac \<in> fst ` set (fs_timers s)"
    using reachable_wf [OF assms] by (auto simp: fw_wf_def)
  ultimately show ?thesis
    using restart_arms [of s snap at env now] step_record [OF reachable_wf [OF assms], of e N]
      Confirm_pending [of env r s] by auto
qed

theorem pending_change_is_watched_witness:
  "0 \<in> fst ` set (fs_timers sample_applied) \<and>
   fw_step sample_nft sample_applied (EvTimer calls_ok 7) = sample_applied\<lparr>fs_timers := [(0, 30 * Second)]\<rparr>"
  using pending_change_is_watched [OF sample_reachable(2), of "\<lparr>ac_id = 0, ac_snapshot = ''old'', ac_applied = True\<rparr>" 7 calls_ok]
  by (simp add: sample_change)

text \<open>(C7) An applied ruleset that nobody confirms is reverted, across any number of restarts. If an
  apply succeeded and recorded itself, then after every sequence of events in which the operator
  neither confirms nor rolls back and its timer has not yet run, the change is still pending and a
  timer for it is due within 30 seconds of the apply, or at the latest restart if that is later;
  when it runs, the ruleset before the apply is in force again, no change is pending, the
  rolled-back marker is set, and the record is gone if it can be removed. The hypothesis on \<open>nft\<close> is that it can load what it listed.\<close>

theorem unconfirmed_apply_is_reverted:
  assumes r: "fw_reachable N s0" and a: "Apply N env rendered now s0 = (ok, s1)" "fe_write env"
    and u: "unsettled N s1 es" and s: "s = run (fw_step N) s1 es"
    and nft: "nft_load N (flush_ruleset @ (if TrimSpace (fs_kernel s0) = [] then emptyRulesetSnapshot else fs_kernel s0)) =
      Some (fs_kernel s0)"
    and env': "fe_stage env'" "fe_write env'"
  shows "\<exists>i d. (i, d) \<in> set (fs_timers s) \<and> d \<le> latest (now + 30 * Second) es \<and>
    fs_kernel (fw_step N s (EvTimer env' i)) = nft_after N (fs_kernel s0) \<and>
    fs_change (fw_step N s (EvTimer env' i)) = None \<and>
    (fe_remove env' \<longrightarrow> fs_pending (fw_step N s (EvTimer env' i)) = None) \<and>
    fs_rolledback (fw_step N s (EvTimer env' i))"
proof (cases rule: Apply_cases [of N env rendered now s0])
  case refused
  with a(1) show ?thesis by simp
next
  case (applied conf snap k ac)
  have snap: "snap = (if TrimSpace (fs_kernel s0) = [] then emptyRulesetSnapshot else fs_kernel s0)"
    using applied(3) by (auto simp: Snapshot_def split: if_splits)
  have ne: "snap \<noteq> []" using applied(3) by (rule snapshot_nonempty)
  have "awaits snap (fs_kernel s1) now (now + firewallConfirmWindow) s1"
    using applied(5,6) a ne by (auto simp: awaits_def fw_op_defs)
  then have "awaits snap (fs_kernel s1) now (latest (now + firewallConfirmWindow) es) s"
    unfolding s by (rule awaits_run) (use ne u in auto)
  from awaits_revert [OF this ne env'] nft snap show ?thesis
    by (simp add: Let_def firewallConfirmWindow_def)
qed

theorem unconfirmed_apply_is_reverted_witness:
  "\<exists>i d. (i, d) \<in> set (fs_timers (fw_step sample_nft sample_applied (EvRestart calls_ok (40 * Second)))) \<and> d \<le> 40 * Second \<and>
     fs_kernel (fw_step sample_nft (fw_step sample_nft sample_applied (EvRestart calls_ok (40 * Second))) (EvTimer calls_ok i)) = ''old''"
proof -
  have a: "Apply sample_nft calls_ok (Some ''new'') 0 sample_box = (ok, sample_applied)" by code_simp
  have u: "unsettled sample_nft sample_applied [EvRestart calls_ok (40 * Second)]" by simp
  have t: "TrimSpace (fs_kernel sample_box) \<noteq> []" "fs_kernel sample_box = ''old''" by code_simp+
  have n: "nft_load sample_nft (flush_ruleset @ ''old'') = Some ''old''" by code_simp
  have e: "fe_write calls_ok" "fe_stage calls_ok" by code_simp+
  have af: "nft_after sample_nft k = k" for k by (simp add: sample_nft_def)
  show ?thesis
    using unconfirmed_apply_is_reverted [OF sample_reachable(1) a e(1) u refl _ e(2,1)] t n
    by (fastforce simp: af simp del: fw_step.simps)
qed

text \<open>(C38) A rollback the operator asks for leaves no marker, so the next background apply puts the
  edit back and confirms it: the configuration still renders to the same file, and after
  \<open>ApplyAndConfirm\<close> that ruleset is in force with no change pending and no timer that would revert
  it.\<close>

theorem manual_rollback_reapplied:
  assumes "fw_reachable N s" "fs_change s = Some ac" "\<not> fs_rolledback s"
    and "nft_check N conf" "nft_load N conf = Some k" "fe_stage env" "fe_list env" "\<not> fe_late env"
  shows "let s1 = snd (Rollback N env0 s); s2 = snd (ApplyAndConfirm N env (Some conf) now s1) in
    fst (ApplyAndConfirm N env (Some conf) now s1) = ok \<and> fs_kernel s2 = nft_after N k \<and>
    fs_change s2 = None \<and> fs_next s1 \<notin> fst ` set (fs_timers s2)"
proof -
  let ?s1 = "snd (Rollback N env0 s)"
  have s1: "fs_change ?s1 = None" "\<not> fs_rolledback ?s1"
    using assms(2,3) by (auto simp: Rollback_def fw_op_defs Let_def case_prod_unfold)
  then show ?thesis
    using assms(4-) by (auto simp: Let_def ApplyAndConfirm_def Apply_def Snapshot_def Confirm_def
        persistConfirmedRuleset_def fw_op_defs split: option.split)
qed

theorem manual_rollback_reapplied_witness:
  "fs_kernel (snd (ApplyAndConfirm sample_nft calls_ok (Some ''new'') (5 * Second)
     (snd (Rollback sample_nft calls_ok sample_applied)))) = ''new''"
proof -
  have e: "nft_check sample_nft ''new''" "nft_load sample_nft ''new'' = Some ''new''" "fe_stage calls_ok" "fe_list calls_ok"
    "\<not> fe_late calls_ok" "nft_after sample_nft ''new'' = ''new''" by code_simp+
  show ?thesis
    using manual_rollback_reapplied [OF sample_reachable(2) sample_change(1,5) e(1-5), of calls_ok "5 * Second"] e(6)
    by (simp add: Let_def)
qed

end
