(* ===== verification/GoTime.thy ===== *)
theory GoTime
  imports Prelude
begin

text \<open>
  The part of Go's package \<open>time\<close> the schedulers use. An instant is a number of nanoseconds
  since the zero time (1 January of year 1, UTC), the base \<open>Truncate\<close> and \<open>IsZero\<close> refer to. A
  location is its name and the offset east of UTC, in seconds, that its zone data gives for an
  instant. The calendar is the proleptic Gregorian one; \<open>civil_day_number\<close> shows the year and
  the day of the year it assigns to a day are those of the usual day count.
\<close>

type_synonym instant = int

abbreviation Nanos :: int where
  "Nanos \<equiv> 1000000000"

definition Minute_d :: int where
  "Minute_d = 60 * Nanos"

definition Hour_d :: int where
  "Hour_d = 60 * Minute_d"

record Location =
  loc_name :: string
  loc_offset :: "int \<Rightarrow> int"

definition IsZero :: "instant \<Rightarrow> bool" where
  "IsZero t = (t = 0)"

definition Truncate :: "int \<Rightarrow> instant \<Rightarrow> instant" where
  "Truncate d t = t - t mod d"

text \<open>The clock of a location: seconds since the first midnight of year 1, local.\<close>

definition local_seconds :: "Location \<Rightarrow> instant \<Rightarrow> int" where
  "local_seconds l t = t div Nanos + loc_offset l (t div Nanos)"

definition second_of :: "Location \<Rightarrow> instant \<Rightarrow> int" where
  "second_of l t = local_seconds l t mod 60"

definition minute_of :: "Location \<Rightarrow> instant \<Rightarrow> int" where
  "minute_of l t = local_seconds l t mod 3600 div 60"

definition hour_of :: "Location \<Rightarrow> instant \<Rightarrow> int" where
  "hour_of l t = local_seconds l t mod 86400 div 3600"

definition day_number :: "Location \<Rightarrow> instant \<Rightarrow> int" where
  "day_number l t = local_seconds l t div 86400"

text \<open>The first day of year 1 is a Monday.\<close>

definition weekday_of :: "Location \<Rightarrow> instant \<Rightarrow> int" where
  "weekday_of l t = (day_number l t + 1) mod 7"

text \<open>Year and day of the year (from 0) of a day number.\<close>

definition civil_year :: "int \<Rightarrow> int \<times> int" where
  "civil_year d =
     (let n = d div 146097; r = d mod 146097;
          c = min (r div 36524) 3; r2 = r - 36524 * c;
          q = r2 div 1461; r3 = r2 - 1461 * q;
          y = min (r3 div 365) 3 in
      (400 * n + 100 * c + 4 * q + y + 1, r3 - 365 * y))"

definition is_leap :: "int \<Rightarrow> bool" where
  "is_leap y = (y mod 4 = 0 \<and> (y mod 100 \<noteq> 0 \<or> y mod 400 = 0))"

definition month_lengths :: "int \<Rightarrow> int list" where
  "month_lengths y = [31, if is_leap y then 29 else 28, 31, 30, 31, 30, 31, 31, 30, 31, 30, 31]"

text \<open>Month (from \<open>m\<close>) and day of the month of a day of the year.\<close>

fun month_day :: "int \<Rightarrow> int list \<Rightarrow> int \<Rightarrow> int \<times> int" where
  "month_day m [] k = (m, k + 1)"
| "month_day m (n # ns) k = (if k < n then (m, k + 1) else month_day (m + 1) ns (k - n))"

definition date_of :: "Location \<Rightarrow> instant \<Rightarrow> int \<times> int \<times> int" where
  "date_of l t =
     (let (y, k) = civil_year (day_number l t); (m, d) = month_day 1 (month_lengths y) k in (y, m, d))"

definition month_of :: "Location \<Rightarrow> instant \<Rightarrow> int" where
  "month_of l t = fst (snd (date_of l t))"

definition day_of :: "Location \<Rightarrow> instant \<Rightarrow> int" where
  "day_of l t = snd (snd (date_of l t))"

text \<open>A quotient capped at 3 leaves a full last part: the leap day.\<close>

lemma capped_div:
  fixes r b :: int
  assumes "0 \<le> r" "r \<le> 4 * b" "0 < b" and c: "c = min (r div b) 3"
  shows "0 \<le> c" "c \<le> 3" "0 \<le> r - b * c" "r - b * c \<le> b" "c < 3 \<Longrightarrow> r - b * c < b"
proof -
  have r: "r = b * (r div b) + r mod b" "0 \<le> r mod b" "r mod b < b" "0 \<le> r div b"
    using assms by (simp_all add: pos_imp_zdiv_nonneg_iff)
  show "0 \<le> c" "c \<le> 3" using r(4) c by simp_all
  have "0 \<le> r - b * c \<and> r - b * c \<le> b \<and> (c < 3 \<longrightarrow> r - b * c < b)"
  proof (cases "r div b \<le> 3")
    case True
    then have "r - b * c = r mod b" using c by (simp add: minus_mult_div_eq_mod)
    then show ?thesis using r(2,3) by simp
  next
    case False
    then have "c = 3" using c by simp
    moreover have "b * 4 \<le> b * (r div b)" using False \<open>0 < b\<close> by (intro mult_left_mono) simp_all
    ultimately have "c = 3" "4 * b \<le> r" using r(1,2) by linarith+
    then show ?thesis using assms(2,3) by simp
  qed
  then show "0 \<le> r - b * c" "r - b * c \<le> b" "c < 3 \<Longrightarrow> r - b * c < b" by simp_all
qed

lemma civil_day_number:
  assumes "civil_year d = (y, k)"
  shows "d = 365 * (y - 1) + (y - 1) div 4 - (y - 1) div 100 + (y - 1) div 400 + k" (is ?day)
    and "0 \<le> k" and "k < (if is_leap y then 366 else 365)"
proof -
  define n where "n = d div 146097"
  define r where "r = d mod 146097"
  define c where "c = min (r div 36524) 3"
  define r2 where "r2 = r - 36524 * c"
  define q where "q = r2 div 1461"
  define r3 where "r3 = r2 - 1461 * q"
  define z where "z = min (r3 div 365) 3"
  have "civil_year d = (400 * n + 100 * c + 4 * q + z + 1, r3 - 365 * z)"
    by (simp only: civil_year_def Let_def n_def r_def c_def r2_def q_def r3_def z_def)
  with assms have yk: "y = 400 * n + 100 * c + 4 * q + z + 1" "k = r3 - 365 * z" by simp_all
  have d: "d = 146097 * n + r" "0 \<le> r" "r \<le> 4 * 36524" by (simp_all add: n_def r_def)
  have b: "0 < (36524 :: int)" "0 < (365 :: int)" by simp_all
  note c = capped_div [OF d(2,3) b(1) c_def, folded r2_def]
  have "0 \<le> q" "q \<le> 24" using c(3,4) by (simp_all add: q_def)
  moreover have "0 \<le> r3" "r3 \<le> 4 * 365"
    using pos_mod_bound [of 1461 r2] by (simp_all add: r3_def q_def minus_mult_div_eq_mod)
  ultimately have q: "0 \<le> q" "q \<le> 24" "0 \<le> r3" "r3 \<le> 4 * 365" by simp_all
  have leap_end: "q = 24 \<Longrightarrow> c < 3 \<Longrightarrow> r3 < 1460"
    using c(5) by (simp add: r3_def)
  note z = capped_div [OF q(3,4) b(2) z_def, folded yk(2)]
  have y4: "(y - 1) div 4 = 100 * n + 25 * c + q"
    using yk(1) z(1,2) by (intro int_div_pos_eq [of _ _ _ z]) simp_all
  have y100: "(y - 1) div 100 = 4 * n + c"
    using yk(1) z(1,2) q(1,2) by (intro int_div_pos_eq [of _ _ _ "4 * q + z"]) simp_all
  have y400: "(y - 1) div 400 = n"
    using yk(1) z(1,2) q(1,2) c(1,2) by (intro int_div_pos_eq [of _ _ _ "100 * c + 4 * q + z"]) simp_all
  show ?day unfolding y4 y100 y400 using d(1) yk r3_def r2_def by (simp add: algebra_simps)
  show "0 \<le> k" by (rule z)
  show "k < (if is_leap y then 366 else 365)"
  proof (cases "k = 365")
    case True
    then have "z = 3" using z by linarith
    with True yk have r3: "r3 = 1460" by simp
    have m4: "y mod 4 = 0" using yk(1) \<open>z = 3\<close> by (intro int_mod_pos_eq [of _ _ "100 * n + 25 * c + q + 1"]) simp_all
    have "is_leap y"
    proof (cases "q = 24")
      case True
      then have "c = 3" using r3 leap_end c by linarith
      with True yk(1) \<open>z = 3\<close> have "y mod 400 = 0" by (intro int_mod_pos_eq [of _ _ "n + 1"]) simp_all
      with m4 show ?thesis by (simp add: is_leap_def)
    next
      case False
      with yk(1) \<open>z = 3\<close> q(1,2) have "y mod 100 = 4 * q + 4"
        by (intro int_mod_pos_eq [of _ _ "4 * n + c"]) simp_all
      with m4 q(1) show ?thesis by (simp add: is_leap_def)
    qed
    with z show ?thesis by simp
  next
    case False
    with z show ?thesis by simp
  qed
qed

lemma month_day_range:
  assumes "civil_year d = (y, k)" "month_day 1 (month_lengths y) k = (m, n)"
  shows "1 \<le> m \<and> m \<le> 12 \<and> 1 \<le> n \<and> n \<le> month_lengths y ! nat (m - 1)"
  using assms(2) civil_day_number(2,3) [OF assms(1)]
  by (auto simp: month_lengths_def split: if_splits)

lemma minute_range: "0 \<le> minute_of l t" "minute_of l t < 60"
  by (simp_all add: minute_of_def)

lemma hour_range: "0 \<le> hour_of l t" "hour_of l t < 24"
  by (simp_all add: hour_of_def)

lemma weekday_range: "0 \<le> weekday_of l t" "weekday_of l t < 7"
  by (simp_all add: weekday_of_def)

lemma Truncate_le: "0 < d \<Longrightarrow> Truncate d t \<le> t" "0 < d \<Longrightarrow> t < Truncate d t + d"
  by (simp_all add: Truncate_def)

lemma Truncate_dvd: "d dvd Truncate d t"
  by (simp add: Truncate_def)

end
