(* ===== verification/BackupSchedule.thy ===== *)
theory BackupSchedule
  imports GoStrings GoTime "HOL-Library.Word"
begin

text \<open>
  The cron-style backup schedule of \<open>services/backup_schedule.go\<close>: the reduced cron dialect
  and its parser, the search for the next firing minute, and the scheduler loop.

  \<open>1 << i\<close> with a negative \<open>i\<close> panics in Go, and the loop that fills a field adds a step that
  can be as large as an \<open>int\<close>: a field is parsed to a value, an error or that panic. The
  loop's test alone does not bound it, so it is a partial function whose \<open>None\<close> would be a loop
  that never ends. \<open>ParseSchedule_total\<close> shows it always ends; \<open>huge_step_panics\<close> is the panic.
\<close>

unbundle bit_operations_syntax

section \<open>Fields\<close>

type_synonym fieldSet = "64 word"

datatype field_error = FieldErr string | ShiftPanic

definition field_has :: "fieldSet \<Rightarrow> int \<Rightarrow> bool" where
  "field_has f n = (n \<ge> 0 \<and> n < 64 \<and> f AND push_bit (nat n) 1 \<noteq> 0)"

definition makeFieldSet :: "int \<Rightarrow> int \<Rightarrow> bool \<Rightarrow> fieldSet" where
  "makeFieldSet lo hi all = (if all then fold (\<lambda>i f. f OR push_bit (nat i) 1) [lo..hi] 0 else 0)"

definition splitStep :: "string \<Rightarrow> field_error + string \<times> int" where
  "splitStep atom =
     (case Cut atom (CHR ''/'') of
        None \<Rightarrow> Inr (atom, 1)
      | Some (base, raw) \<Rightarrow>
          (case Atoi raw of
             AtoiOk s \<Rightarrow> if s < 1 then Inl (FieldErr (''bad step '' @ atom)) else Inr (base, s)
           | _ \<Rightarrow> Inl (FieldErr (''bad step '' @ atom))))"

definition parseRange :: "string \<Rightarrow> int \<Rightarrow> int \<Rightarrow> field_error + int \<times> int" where
  "parseRange base lo hi =
     (if base = ''*'' then Inr (lo, hi)
      else (case Cut base (CHR ''-'') of
              Some (a, b) \<Rightarrow>
                (case (Atoi a, Atoi b) of
                   (AtoiOk m, AtoiOk n) \<Rightarrow> Inr (m, n)
                 | _ \<Rightarrow> Inl (FieldErr (''bad range '' @ base)))
            | None \<Rightarrow>
                (case Atoi base of
                   AtoiOk n \<Rightarrow> Inr (n, n)
                 | _ \<Rightarrow> Inl (FieldErr (''bad number '' @ base)))))"

definition parseAtom :: "string \<Rightarrow> int \<Rightarrow> int \<Rightarrow> field_error + int \<times> int \<times> int" where
  "parseAtom atom lo0 hi0 =
     bindr (splitStep atom) (\<lambda>(base, step).
     bindr (parseRange base lo0 hi0) (\<lambda>(lo, hi).
       if lo < lo0 \<or> hi > hi0 \<or> lo > hi
       then Inl (FieldErr (''out-of-range field '' @ Itoa lo @ ''-'' @ Itoa hi @
              '' (allowed '' @ Itoa lo0 @ ''-'' @ Itoa hi0 @ '')''))
       else Inr (lo, hi, step)))"

text \<open>The loop \<open>for i := lo; i <= hi; i += step\<close>, on 64-bit integers.\<close>

partial_function (option) fill_steps ::
    "int \<Rightarrow> int \<Rightarrow> int \<Rightarrow> fieldSet \<Rightarrow> (field_error + fieldSet) option" where
  "fill_steps i hi step out =
     (if i \<le> hi then
        (if i < 0 then Some (Inl ShiftPanic)
         else fill_steps (wrap64 (i + step)) hi step (out OR push_bit (nat i) 1))
      else Some (Inr out))"

declare fill_steps.simps [code]

fun parse_atoms :: "int \<Rightarrow> int \<Rightarrow> string list \<Rightarrow> fieldSet \<Rightarrow> (field_error + fieldSet) option" where
  "parse_atoms lo0 hi0 [] out = Some (Inr out)"
| "parse_atoms lo0 hi0 (a # as) out =
     (let atom = TrimSpace a in
      if atom = [] then parse_atoms lo0 hi0 as out
      else (case parseAtom atom lo0 hi0 of
              Inl e \<Rightarrow> Some (Inl e)
            | Inr (lo, hi, step) \<Rightarrow>
                (case fill_steps lo hi step out of
                   None \<Rightarrow> None
                 | Some (Inl e) \<Rightarrow> Some (Inl e)
                 | Some (Inr out') \<Rightarrow> parse_atoms lo0 hi0 as out')))"

definition parseField :: "string \<Rightarrow> int \<Rightarrow> int \<Rightarrow> (field_error + fieldSet) option" where
  "parseField spec lo hi =
     (if spec = ''*'' then Some (Inr (makeFieldSet lo hi True))
      else (case parse_atoms lo hi (split_on (CHR '','') spec) 0 of
              Some (Inr out) \<Rightarrow> if out = 0 then Some (Inl (FieldErr (''empty field '' @ spec))) else Some (Inr out)
            | r \<Rightarrow> r))"

section \<open>Schedules\<close>

record Schedule =
  sc_minute :: fieldSet
  sc_hour :: fieldSet
  sc_dayOfMonth :: fieldSet
  sc_month :: fieldSet
  sc_dayOfWeek :: fieldSet
  sc_loc :: Location

text \<open>The next field, its error labelled with the field's name.\<close>

definition with_field ::
    "string \<Rightarrow> (field_error + fieldSet) option \<Rightarrow> (fieldSet \<Rightarrow> (field_error + 'a) option) \<Rightarrow> (field_error + 'a) option" where
  "with_field label r k =
     (case r of
        None \<Rightarrow> None
      | Some (Inl (FieldErr e)) \<Rightarrow> Some (Inl (FieldErr (label @ '': '' @ e)))
      | Some (Inl ShiftPanic) \<Rightarrow> Some (Inl ShiftPanic)
      | Some (Inr f) \<Rightarrow> k f)"

definition parseFields :: "string \<Rightarrow> Location \<Rightarrow> (field_error + Schedule) option" where
  "parseFields spec loc =
     (case Fields spec of
        [p0, p1, p2, p3, p4] \<Rightarrow>
          with_field ''minute'' (parseField p0 0 59) (\<lambda>mi.
          with_field ''hour'' (parseField p1 0 23) (\<lambda>hr.
          with_field ''day-of-month'' (parseField p2 1 31) (\<lambda>dom.
          with_field ''month'' (parseField p3 1 12) (\<lambda>mo.
          with_field ''day-of-week'' (parseField p4 0 6) (\<lambda>dow.
            Some (Inr \<lparr>sc_minute = mi, sc_hour = hr, sc_dayOfMonth = dom, sc_month = mo,
                       sc_dayOfWeek = dow, sc_loc = loc\<rparr>))))))
      | ps \<Rightarrow> Some (Inl (FieldErr (''schedule must have 5 fields, got '' @ Itoa (int (length ps))))))"

definition ParseSchedule :: "Location \<Rightarrow> string \<Rightarrow> Location option \<Rightarrow> (field_error + Schedule) option" where
  "ParseSchedule Local spec0 loc0 =
     (let spec = TrimSpace spec0; loc = (case loc0 of None \<Rightarrow> Local | Some l \<Rightarrow> l) in
      if spec = [] then Some (Inl (FieldErr ''empty schedule''))
      else if spec = ''@hourly'' then parseFields ''0 * * * *'' loc
      else if spec = ''@daily'' \<or> spec = ''@midnight'' then parseFields ''0 0 * * *'' loc
      else if spec = ''@weekly'' then parseFields ''0 0 * * 0'' loc
      else if spec = ''@monthly'' then parseFields ''0 0 1 * *'' loc
      else if spec = ''@yearly'' \<or> spec = ''@annually'' then parseFields ''0 0 1 1 *'' loc
      else parseFields spec loc)"

definition matches :: "Schedule \<Rightarrow> instant \<Rightarrow> bool" where
  "matches s t =
     (let l = sc_loc s;
          dom = field_has (sc_dayOfMonth s) (day_of l t);
          dow = field_has (sc_dayOfWeek s) (weekday_of l t);
          dayOfMonthAll = sc_dayOfMonth s = makeFieldSet 1 31 True;
          dayOfWeekAll = sc_dayOfWeek s = makeFieldSet 0 6 True in
      field_has (sc_minute s) (minute_of l t) \<and>
      field_has (sc_hour s) (hour_of l t) \<and>
      field_has (sc_month s) (month_of l t) \<and>
      (if dayOfMonthAll \<and> dayOfWeekAll then True
       else if dayOfMonthAll then dow
       else if dayOfWeekAll then dom
       else dom \<or> dow))"

function next_from :: "Schedule \<Rightarrow> instant \<Rightarrow> instant \<Rightarrow> instant" where
  "next_from s t cap =
     (if t < cap then (if matches s t then t else next_from s (t + Minute_d) cap) else 0)"
  by pat_completeness auto
termination by (relation "measure (\<lambda>(s, t, cap). nat (cap - t))") (auto simp: Minute_d_def)

declare next_from.simps [simp del]

definition Next_cap :: int where
  "Next_cap = 4 * 365 * 24 * Hour_d"

text \<open>\<open>l\<close> is the location \<open>after\<close> carries; a nil schedule is \<open>None\<close>.\<close>

definition Next :: "Location \<Rightarrow> Schedule option \<Rightarrow> instant \<Rightarrow> instant" where
  "Next l s after =
     (case s of
        None \<Rightarrow> 0
      | Some s \<Rightarrow> next_from s (Truncate Minute_d (after + (Minute_d - second_of l after * Nanos))) (after + Next_cap))"

section \<open>The scheduler\<close>

record scheduledFire =
  sf_at :: instant
  sf_source :: string

record backupSnapshot =
  bs_Enabled :: bool
  bs_Schedule :: string
  bs_Location :: "Location option"
  bs_LastRun :: instant

definition scheduleSource :: "backupSnapshot \<Rightarrow> string" where
  "scheduleSource snap =
     bs_Schedule snap @ ''|'' @ (case bs_Location snap of None \<Rightarrow> [] | Some l \<Rightarrow> loc_name l)"

definition no_fire :: scheduledFire where
  "no_fire = \<lparr>sf_at = 0, sf_source = []\<rparr>"

definition replan :: "Location \<Rightarrow> Schedule \<Rightarrow> backupSnapshot \<Rightarrow> instant \<Rightarrow> scheduledFire \<Rightarrow> scheduledFire" where
  "replan Local sched snap now nxt =
     (if IsZero (sf_at nxt) \<or> sf_at nxt < bs_LastRun snap \<or> sf_source nxt \<noteq> scheduleSource snap
      then \<lparr>sf_at = Next Local (Some sched) now, sf_source = scheduleSource snap\<rparr> else nxt)"

text \<open>One tick: whether \<open>RunNow\<close> is called, with the minute it is called for, and the next fire.
  What the run returns is only logged.\<close>

definition schedulerTick ::
    "Location \<Rightarrow> backupSnapshot \<Rightarrow> instant \<Rightarrow> scheduledFire \<Rightarrow> (field_error + instant option \<times> scheduledFire) option" where
  "schedulerTick Local snap now nxt =
     (if \<not> bs_Enabled snap \<or> bs_Schedule snap = [] then Some (Inr (None, no_fire))
      else (case ParseSchedule Local (bs_Schedule snap) (bs_Location snap) of
              None \<Rightarrow> None
            | Some (Inl ShiftPanic) \<Rightarrow> Some (Inl ShiftPanic)
            | Some (Inl (FieldErr e)) \<Rightarrow> Some (Inr (None, nxt))
            | Some (Inr sched) \<Rightarrow>
                let nxt' = replan Local sched snap now nxt in
                if IsZero (sf_at nxt') \<or> now < sf_at nxt' then Some (Inr (None, nxt'))
                else Some (Inr (Some (sf_at nxt'),
                  \<lparr>sf_at = Next Local (Some sched) (now + Minute_d), sf_source = scheduleSource snap\<rparr>))))"

text \<open>The loop over the ticks it receives until the context ends: the runs it started, as the
  tick's time, its snapshot and the minute that was due. A panic ends the process.\<close>

type_synonym backup_run = "instant \<times> backupSnapshot \<times> instant"

fun schedulerLoop ::
    "Location \<Rightarrow> scheduledFire \<Rightarrow> (instant \<times> backupSnapshot) list \<Rightarrow> backup_run list option" where
  "schedulerLoop Local nxt [] = Some []"
| "schedulerLoop Local nxt ((now, snap) # ticks) =
     (case schedulerTick Local snap now nxt of
        None \<Rightarrow> None
      | Some (Inl e) \<Rightarrow> Some []
      | Some (Inr (due, nxt')) \<Rightarrow>
          map_option (\<lambda>rs. (case due of None \<Rightarrow> [] | Some t \<Rightarrow> [(now, snap, t)]) @ rs)
            (schedulerLoop Local nxt' ticks))"

text \<open>The process-wide flag: the first caller starts the loop, later ones return.\<close>

definition claimScheduler :: "bool \<Rightarrow> bool \<times> bool" where
  "claimScheduler schedulerRunning = (if schedulerRunning then (False, schedulerRunning) else (True, True))"

definition StartScheduler ::
    "Location \<Rightarrow> (instant \<times> backupSnapshot) list \<Rightarrow> bool \<Rightarrow> backup_run list option \<times> bool" where
  "StartScheduler Local ticks running =
     (case claimScheduler running of
        (False, r) \<Rightarrow> (Some [], r)
      | (True, r) \<Rightarrow> (schedulerLoop Local no_fire ticks, False))"

definition RunNow :: "('s \<Rightarrow> string check \<times> 's) option \<Rightarrow> 's \<Rightarrow> string check \<times> 's" where
  "RunNow runner s = (case runner of None \<Rightarrow> (Inl ''backup runner not wired'', s) | Some f \<Rightarrow> f s)"

section \<open>Parsing always ends, inside the field's range\<close>

lemma field_has_iff: "field_has f n \<longleftrightarrow> 0 \<le> n \<and> n < 64 \<and> bit f (nat n)"
  by (simp add: field_has_def push_bit_of_1 and_exp_eq_0_iff_not_bit)

definition field_within :: "int \<Rightarrow> int \<Rightarrow> fieldSet \<Rightarrow> bool" where
  "field_within lo hi f = (f \<noteq> 0 \<and> (\<forall>n < 64. bit f n \<longrightarrow> lo \<le> int n \<and> int n \<le> hi))"

definition schedule_wf :: "Schedule \<Rightarrow> bool" where
  "schedule_wf s =
     (field_within 0 59 (sc_minute s) \<and> field_within 0 23 (sc_hour s) \<and> field_within 1 31 (sc_dayOfMonth s) \<and>
      field_within 1 12 (sc_month s) \<and> field_within 0 6 (sc_dayOfWeek s))"

lemma wrap64_over: "2 ^ 63 \<le> i \<Longrightarrow> i < 2 ^ 64 \<Longrightarrow> wrap64 i = i - 2 ^ 64"
  unfolding wrap64_def by (subst int_mod_pos_eq [of _ _ 1 "i - 2 ^ 63"]) simp_all

lemma fill_steps_ends:
  assumes "in_int64 i" "1 \<le> step" "step < 2 ^ 63" "i < 0 \<or> lo \<le> i"
  shows "\<exists>r. fill_steps i hi step out = Some r \<and>
           (\<forall>f n. r = Inr f \<longrightarrow> bit f n \<longrightarrow> bit out n \<or> lo \<le> int n \<and> int n \<le> hi)"
  using assms(1,4)
proof (induction "nat (hi + 1 - i)" arbitrary: i out rule: less_induct)
  case less
  show ?case
  proof (cases "0 \<le> i \<and> i \<le> hi")
    case False
    then show ?thesis by (subst fill_steps.simps) auto
  next
    case True
    have "\<exists>r. fill_steps (wrap64 (i + step)) hi step (out OR push_bit (nat i) 1) = Some r \<and>
           (\<forall>f n. r = Inr f \<longrightarrow> bit f n \<longrightarrow>
              bit (out OR push_bit (nat i) 1) n \<or> lo \<le> int n \<and> int n \<le> hi)"
    proof (cases "i + step < 2 ^ 63")
      case True': True
      then have in64: "in_int64 (i + step)" using True assms(2) by (simp add: in_int64_def)
      have m: "nat (hi + 1 - (i + step)) < nat (hi + 1 - i)" "i + step < 0 \<or> lo \<le> i + step"
        using True assms(2) less.prems(2) by auto
      show ?thesis unfolding wrap64_id [OF in64] by (rule less.hyps [OF m(1) in64 m(2)])
    next
      case False
      then have "wrap64 (i + step) < 0"
        using less.prems True assms by (subst wrap64_over) (auto simp: in_int64_def)
      with True show ?thesis by (subst fill_steps.simps) auto
    qed
    moreover have "fill_steps i hi step out = fill_steps (wrap64 (i + step)) hi step (out OR push_bit (nat i) 1)"
      using True fill_steps.simps [of i hi step out] by simp
    moreover have "bit (out OR push_bit (nat i) 1) n \<Longrightarrow> bit out n \<or> lo \<le> int n \<and> int n \<le> hi" for n
      using True less.prems(2) by (auto simp: bit_simps)
    ultimately show ?thesis by metis
  qed
qed

lemma splitStep_step:
  assumes "splitStep atom = Inr (base, step)"
  shows "1 \<le> step \<and> step < 2 ^ 63"
  using assms Atoi_bounds unfolding splitStep_def
  by (auto split: option.splits atoi.splits if_splits)

lemma parseAtom_range:
  assumes "parseAtom atom lo0 hi0 = Inr (lo, hi, step)"
  shows "lo0 \<le> lo" "hi \<le> hi0" "lo \<le> hi" "1 \<le> step" "step < 2 ^ 63"
  using assms splitStep_step
  by (auto simp: parseAtom_def bindr_eq_Inr_iff split: if_splits prod.splits)

lemma parse_atoms_ends:
  assumes "0 \<le> lo0" "hi0 < 64"
  shows "\<exists>r. parse_atoms lo0 hi0 as out = Some r \<and>
           (\<forall>f n. r = Inr f \<longrightarrow> bit f n \<longrightarrow> bit out n \<or> lo0 \<le> int n \<and> int n \<le> hi0)"
proof (induction as arbitrary: out)
  case Nil
  then show ?case by simp
next
  case (Cons a as)
  show ?case
  proof (cases "TrimSpace a = []")
    case True
    with Cons.IH show ?thesis by simp
  next
    case ne: False
    show ?thesis
    proof (cases "parseAtom (TrimSpace a) lo0 hi0")
      case (Inl e)
      with ne show ?thesis by simp
    next
      case (Inr v)
      obtain lo hi step where v: "v = (lo, hi, step)" by (cases v)
      note r = parseAtom_range [OF Inr [unfolded v]]
      have "in_int64 lo" using r assms by (simp add: in_int64_def)
      from fill_steps_ends [OF this r(4,5), of lo hi out] obtain r1 where
        r1: "fill_steps lo hi step out = Some r1"
          "\<forall>f n. r1 = Inr f \<longrightarrow> bit f n \<longrightarrow> bit out n \<or> lo \<le> int n \<and> int n \<le> hi" by blast
      show ?thesis
      proof (cases r1)
        case Inl': (Inl e)
        with r1 Inr v ne show ?thesis by simp
      next
        case Inr': (Inr g)
        from Cons.IH [of g] r1 Inr v ne Inr' r(1,2) show ?thesis by simp (meson dual_order.trans)
      qed
    qed
  qed
qed

lemma makeFieldSet_bit: "0 \<le> lo \<Longrightarrow> hi < 64 \<Longrightarrow> bit (makeFieldSet lo hi True) n \<longleftrightarrow> lo \<le> int n \<and> int n \<le> hi"
proof -
  assume a: "0 \<le> lo" "hi < 64"
  have "bit (fold (\<lambda>i f. f OR push_bit (nat i) 1) is f) n \<longleftrightarrow> bit f n \<or> int n \<in> set is"
    if "\<forall>i \<in> set is. 0 \<le> i \<and> i < 64" for "is" and f :: fieldSet
    using that by (induction "is" arbitrary: f) (auto simp: bit_simps)
  from this [of "[lo..hi]" 0] a show ?thesis by (simp add: makeFieldSet_def)
qed

lemma parseField_ends:
  assumes "0 \<le> lo" "lo \<le> hi" "hi < 64"
  shows "\<exists>r. parseField spec lo hi = Some r \<and> (\<forall>f. r = Inr f \<longrightarrow> field_within lo hi f)"
proof (cases "spec = ''*''")
  case True
  have "bit (makeFieldSet lo hi True) (nat lo)" using assms by (simp add: makeFieldSet_bit)
  then have "makeFieldSet lo hi True \<noteq> 0" by auto
  with True assms show ?thesis by (simp add: parseField_def field_within_def makeFieldSet_bit)
next
  case False
  from parse_atoms_ends [OF assms(1,3), of "split_on (CHR '','') spec" 0] obtain r
    where "parse_atoms lo hi (split_on (CHR '','') spec) 0 = Some r"
      "\<forall>f n. r = Inr f \<longrightarrow> bit f n \<longrightarrow> lo \<le> int n \<and> int n \<le> hi" by auto
  with False show ?thesis by (cases r) (auto simp: parseField_def field_within_def)
qed

lemma with_field_ends:
  assumes "\<exists>r. q = Some r \<and> (\<forall>f. r = Inr f \<longrightarrow> P f)" "\<And>f. P f \<Longrightarrow> \<exists>r. k f = Some r \<and> (\<forall>s. r = Inr s \<longrightarrow> Q s)"
  shows "\<exists>r. with_field label q k = Some r \<and> (\<forall>s. r = Inr s \<longrightarrow> Q s)"
  using assms by (auto simp: with_field_def split: sum.splits field_error.splits)

lemma parseFields_ends: "\<exists>r. parseFields spec loc = Some r \<and> (\<forall>s. r = Inr s \<longrightarrow> schedule_wf s \<and> sc_loc s = loc)"
proof (cases "\<exists>p0 p1 p2 p3 p4. Fields spec = [p0, p1, p2, p3, p4]")
  case True
  then obtain p0 p1 p2 p3 p4 where p: "Fields spec = [p0, p1, p2, p3, p4]" by blast
  show ?thesis unfolding parseFields_def p list.case
    by (intro with_field_ends [where P = "field_within 0 59"] with_field_ends [where P = "field_within 0 23"]
          with_field_ends [where P = "field_within 1 31"] with_field_ends [where P = "field_within 1 12"]
          with_field_ends [where P = "field_within 0 6"] parseField_ends) (simp_all add: schedule_wf_def)
next
  case False
  then show ?thesis by (auto simp: parseFields_def split: list.splits)
qed

lemma ParseSchedule_ends:
  "\<exists>r. ParseSchedule Local spec loc = Some r \<and> (\<forall>s. r = Inr s \<longrightarrow> schedule_wf s \<and> sc_loc s = case_option Local id loc)"
proof -
  have id: "case_option Local id loc = (case loc of None \<Rightarrow> Local | Some l \<Rightarrow> l)" by (simp split: option.split)
  show ?thesis unfolding ParseSchedule_def Let_def id using parseFields_ends by simp
qed

text \<open>An element whose step carries the loop over a field past the largest 64-bit integer.\<close>

definition huge_atom :: "string \<Rightarrow> bool" where
  "huge_atom a = (case splitStep (TrimSpace a) of Inr (_, step) \<Rightarrow> 2 ^ 63 - 59 \<le> step | Inl _ \<Rightarrow> False)"

definition huge_step :: "string \<Rightarrow> bool" where
  "huge_step spec = list_ex (\<lambda>p. list_ex huge_atom (split_on (CHR '','') p)) (Fields spec)"

lemma fill_steps_panic:
  assumes "hi < 60" "1 \<le> step"
  shows "0 \<le> i \<Longrightarrow> i < 2 ^ 63 \<Longrightarrow> fill_steps i hi step out = Some (Inl e) \<Longrightarrow> 2 ^ 63 - 59 \<le> step"
proof (induction "nat (hi + 1 - i)" arbitrary: i out rule: less_induct)
  case less
  have le: "i \<le> hi" using less.prems(3) by (subst (asm) fill_steps.simps) (auto split: if_splits)
  show ?case
  proof (cases "i + step < 2 ^ 63")
    case True
    have in64: "in_int64 (i + step)" using True less.prems(1) assms(2) by (simp add: in_int64_def)
    have "fill_steps (i + step) hi step (out OR push_bit (nat i) 1) = Some (Inl e)"
      using less.prems(1,3) le wrap64_id [OF in64] fill_steps.simps [of i hi step out] by simp
    with less.hyps [of "i + step"] True less.prems(1) le assms(2) show ?thesis by simp
  next
    case False
    with le assms(1) show ?thesis by simp
  qed
qed

lemma parseAtom_no_panic: "parseAtom atom lo hi \<noteq> Inl ShiftPanic"
  by (auto simp: parseAtom_def splitStep_def parseRange_def bindr_def
      split: sum.splits option.splits atoi.splits if_splits prod.splits)

lemma parse_atoms_panic:
  assumes "0 \<le> lo0" "hi0 < 60"
  shows "parse_atoms lo0 hi0 as out = Some (Inl ShiftPanic) \<Longrightarrow> list_ex huge_atom as"
proof (induction as arbitrary: out)
  case (Cons a as)
  show ?case
  proof (cases "parseAtom (TrimSpace a) lo0 hi0")
    case (Inl e)
    with Cons parseAtom_no_panic [of "TrimSpace a" lo0 hi0] show ?thesis by (auto simp: Let_def split: if_splits)
  next
    case (Inr v)
    obtain lo hi step where v: "v = (lo, hi, step)" by (cases v)
    note r = parseAtom_range [OF Inr [unfolded v]]
    obtain base where base: "splitStep (TrimSpace a) = Inr (base, step)"
      using Inr v by (auto simp: parseAtom_def bindr_eq_Inr_iff split: if_splits prod.splits)
    have "huge_atom a" if "fill_steps lo hi step out = Some (Inl e)" for e
      using fill_steps_panic [OF _ r(4) _ _ that] r assms base by (simp add: huge_atom_def)
    with Cons Inr v show ?thesis by (auto simp: Let_def split: if_splits option.splits sum.splits)
  qed
qed simp

lemma parseField_panic:
  assumes "parseField p lo hi = Some (Inl ShiftPanic)" "0 \<le> lo" "hi < 60"
  shows "list_ex huge_atom (split_on (CHR '','') p)"
  using parse_atoms_panic [OF assms(2,3), of "split_on (CHR '','') p" 0] assms(1)
  by (auto simp: parseField_def split: if_splits option.splits sum.splits)

lemma with_field_panic:
  "with_field label r k = Some (Inl ShiftPanic) \<Longrightarrow>
   r = Some (Inl ShiftPanic) \<or> (\<exists>f. k f = Some (Inl ShiftPanic))"
  by (auto simp: with_field_def split: option.splits sum.splits field_error.splits)

lemma parseFields_panic: "parseFields spec loc = Some (Inl ShiftPanic) \<Longrightarrow> huge_step spec"
proof -
  assume a: "parseFields spec loc = Some (Inl ShiftPanic)"
  then obtain p0 p1 p2 p3 p4 where p: "Fields spec = [p0, p1, p2, p3, p4]"
    by (auto simp: parseFields_def split: list.splits)
  from a have "parseField p0 0 59 = Some (Inl ShiftPanic) \<or> parseField p1 0 23 = Some (Inl ShiftPanic) \<or>
      parseField p2 1 31 = Some (Inl ShiftPanic) \<or> parseField p3 1 12 = Some (Inl ShiftPanic) \<or>
      parseField p4 0 6 = Some (Inl ShiftPanic)"
    unfolding parseFields_def p list.case by (auto dest!: with_field_panic)
  then show ?thesis
    unfolding huge_step_def p by (auto dest!: parseField_panic)
qed

lemma alias_steps:
  "\<not> huge_step ''0 * * * *''" "\<not> huge_step ''0 0 * * *''" "\<not> huge_step ''0 0 * * 0''"
  "\<not> huge_step ''0 0 1 * *''" "\<not> huge_step ''0 0 1 1 *''"
  by code_simp+

lemma ParseSchedule_panic:
  "ParseSchedule Local spec loc = Some (Inl ShiftPanic) \<Longrightarrow> huge_step (TrimSpace spec)"
  using alias_steps by (auto simp: ParseSchedule_def Let_def split: if_splits dest: parseFields_panic)

section \<open>The next firing minute\<close>

text \<open>The minutes after \<open>after\<close>, within the search window, at which the schedule fires.\<close>

definition fires :: "Schedule \<Rightarrow> instant \<Rightarrow> instant \<Rightarrow> bool" where
  "fires s after m = (Minute_d dvd m \<and> after < m \<and> m < after + Next_cap \<and> matches s m)"

lemma Minute_pos [simp]: "0 < Minute_d"
  by (simp add: Minute_d_def)

lemma first_minute:
  assumes "60 dvd loc_offset l (after div Nanos)"
  defines "t0 \<equiv> Truncate Minute_d (after + (Minute_d - second_of l after * Nanos))"
  shows "t0 = Minute_d * (after div Minute_d) + Minute_d"
proof -
  have s: "second_of l after = after div Nanos mod 60"
    using assms(1) by (simp add: second_of_def local_seconds_def mod_add_eq [symmetric] dvd_eq_mod_eq_0)
  have "after mod (Nanos * 60) = Nanos * (after div Nanos mod 60) + after mod Nanos"
    by (rule zmod_zmult2_eq) simp
  then have "after = Minute_d * (after div Minute_d) + (second_of l after * Nanos + after mod Nanos)"
    using mult_div_mod_eq [of Minute_d after] by (simp add: s Minute_d_def)
  then have x: "after + (Minute_d - second_of l after * Nanos) =
      Minute_d * (after div Minute_d) + Minute_d + after mod Nanos" by simp
  moreover have "after mod Nanos < Minute_d" "0 \<le> after mod Nanos"
    using pos_mod_bound [of Nanos after] by (simp_all add: Minute_d_def)
  ultimately have "(after + (Minute_d - second_of l after * Nanos)) mod Minute_d = after mod Nanos"
    by (intro int_mod_pos_eq [of _ _ "after div Minute_d + 1"]) (simp_all add: algebra_simps)
  then show ?thesis unfolding t0_def Truncate_def by (simp add: x)
qed

lemma next_from_least:
  "(next_from s t cap = 0 \<and> (\<forall>k. t + int k * Minute_d < cap \<longrightarrow> \<not> matches s (t + int k * Minute_d))) \<or>
   (\<exists>k. next_from s t cap = t + int k * Minute_d \<and> t + int k * Minute_d < cap \<and> matches s (t + int k * Minute_d) \<and>
        (\<forall>j < k. \<not> matches s (t + int j * Minute_d)))"
proof (induction s t cap rule: next_from.induct)
  case (1 s t cap)
  consider "\<not> t < cap" | "t < cap" "matches s t" | "t < cap" "\<not> matches s t" by blast
  then show ?case
  proof cases
    case 1
    then have "\<not> t + int k * Minute_d < cap" for k using Minute_pos by (smt (verit) mult_nonneg_nonneg of_nat_0_le_iff)
    with 1 show ?thesis by (subst next_from.simps) simp
  next
    case 2
    then have "next_from s t cap = t + int 0 * Minute_d" by (subst next_from.simps) simp
    with 2 show ?thesis by (intro disjI2 exI [of _ 0]) simp
  next
    case 3
    have e: "t + Minute_d + int k * Minute_d = t + int (Suc k) * Minute_d" for k by (simp add: algebra_simps)
    have n: "next_from s t cap = next_from s (t + Minute_d) cap" using 3 by (subst next_from.simps) simp
    have no: "\<not> matches s (t + int j * Minute_d)" if "\<forall>i < k. \<not> matches s (t + int (Suc i) * Minute_d)" "j < Suc k" for j k
      using that 3 by (cases j) simp_all
    from "1.IH" [OF 3] show ?thesis unfolding e n
    proof
      assume a: "next_from s (t + Minute_d) cap = 0 \<and>
        (\<forall>k. t + int (Suc k) * Minute_d < cap \<longrightarrow> \<not> matches s (t + int (Suc k) * Minute_d))"
      have "\<not> matches s (t + int k * Minute_d)" if "t + int k * Minute_d < cap" for k
        using a that 3 by (cases k) simp_all
      with a show "(next_from s (t + Minute_d) cap = 0 \<and> (\<forall>k. t + int k * Minute_d < cap \<longrightarrow> \<not> matches s (t + int k * Minute_d))) \<or>
        (\<exists>k. next_from s (t + Minute_d) cap = t + int k * Minute_d \<and> t + int k * Minute_d < cap \<and> matches s (t + int k * Minute_d) \<and>
          (\<forall>j < k. \<not> matches s (t + int j * Minute_d)))" by blast
    qed (use no in blast)
  qed
qed

lemma Next_cases:
  assumes "60 dvd loc_offset l (after div Nanos)"
  shows "(Next l (Some s) after = 0 \<and> (\<forall>m. \<not> fires s after m)) \<or>
         (fires s after (Next l (Some s) after) \<and> (\<forall>m. fires s after m \<longrightarrow> Next l (Some s) after \<le> m))"
proof -
  define t0 where "t0 = Minute_d * (after div Minute_d) + Minute_d"
  have N: "Next l (Some s) after = next_from s t0 (after + Next_cap)"
    using first_minute [OF assms] by (simp add: Next_def t0_def)
  have "after mod Minute_d < Minute_d" by simp
  then have t0: "Minute_d dvd t0" "after < t0"
    using mult_div_mod_eq [of Minute_d after] by (simp add: t0_def, unfold t0_def, linarith)
  have grid: "\<exists>k. m = t0 + int k * Minute_d" if "Minute_d dvd m" "after < m" for m
  proof -
    obtain j where j: "m = Minute_d * j" using \<open>Minute_d dvd m\<close> by blast
    have "after div Minute_d < j"
    proof (rule ccontr)
      assume "\<not> after div Minute_d < j"
      then have "Minute_d * j \<le> Minute_d * (after div Minute_d)" by (intro mult_left_mono) (auto simp: less_imp_le)
      also have "\<dots> \<le> after" using mult_div_mod_eq [of Minute_d after] pos_mod_sign [OF Minute_pos, of after] by linarith
      finally show False using that(2) j by simp
    qed
    then have "m = t0 + int (nat (j - (after div Minute_d + 1))) * Minute_d" by (simp add: j t0_def algebra_simps)
    then show ?thesis ..
  qed
  from next_from_least [of s t0 "after + Next_cap"] show ?thesis
  proof (elim disjE exE conjE)
    assume "next_from s t0 (after + Next_cap) = 0"
      and none: "\<forall>k. t0 + int k * Minute_d < after + Next_cap \<longrightarrow> \<not> matches s (t0 + int k * Minute_d)"
    moreover have "\<not> fires s after m" for m using grid none unfolding fires_def by blast
    ultimately show ?thesis by (simp add: N)
  next
    fix k
    assume k: "next_from s t0 (after + Next_cap) = t0 + int k * Minute_d" "t0 + int k * Minute_d < after + Next_cap"
      "matches s (t0 + int k * Minute_d)" "\<forall>j<k. \<not> matches s (t0 + int j * Minute_d)"
    have "0 \<le> int k * Minute_d" by (simp add: less_imp_le)
    with t0(2) have "after < t0 + int k * Minute_d" by linarith
    with k t0 have "fires s after (t0 + int k * Minute_d)" by (simp add: fires_def)
    moreover have "t0 + int k * Minute_d \<le> m" if "fires s after m" for m
    proof -
      have "Minute_d dvd m" "after < m" using that by (simp_all add: fires_def)
      from grid [OF this] obtain j where "m = t0 + int j * Minute_d" ..
      moreover have "k \<le> j" using that k(4) calculation by (metis fires_def not_le)
      ultimately show ?thesis by (simp add: mult_right_mono)
    qed
    ultimately show ?thesis by (simp add: N k(1))
  qed
qed

section \<open>What a parsed schedule can contain\<close>

text \<open>\<open>scheduleSource\<close> joins the schedule and the zone's name with a bar. No schedule that parses
  holds a bar, so the source of a fire determines both.\<close>

abbreviation bar :: char where
  "bar \<equiv> CHR ''|''"

lemma Atoi_no_bar: "Atoi s = AtoiOk i \<Longrightarrow> bar \<notin> set s"
proof -
  assume a: "Atoi s = AtoiOk i"
  have digits: "parse_uint 0 t = AtoiOk m \<Longrightarrow> bar \<notin> set t" for t m
    using parse_uint_bounds [of 0 t m] by (auto simp: list_all_iff is_digit_def)
  define ds where "ds = (if s \<noteq> [] \<and> (hd s = CHR ''-'' \<or> hd s = CHR ''+'') then tl s else s)"
  have "\<exists>m. parse_uint 0 ds = AtoiOk m"
    using a unfolding Atoi_def Let_def ds_def [symmetric] by (simp split: if_splits atoi.splits)
  then have "bar \<notin> set ds" using digits by blast
  then show ?thesis by (cases s) (auto simp: ds_def split: if_splits)
qed

lemma Cut_set: "Cut s c = Some (a, b) \<Longrightarrow> set s = insert c (set a \<union> set b)"
  by (auto simp: Cut_eq_Some_iff)

lemma splitStep_no_bar: "splitStep atom = Inr (base, step) \<Longrightarrow> bar \<notin> set base \<Longrightarrow> bar \<notin> set atom"
  by (auto simp: splitStep_def Cut_set Atoi_no_bar split: option.splits atoi.splits if_splits)

lemma parseRange_no_bar: "parseRange base lo hi = Inr r \<Longrightarrow> bar \<notin> set base"
  by (auto simp: parseRange_def Cut_set Atoi_no_bar split: option.splits atoi.splits if_splits)

lemma parseAtom_no_bar: "parseAtom atom lo hi = Inr r \<Longrightarrow> bar \<notin> set atom"
  by (auto simp: parseAtom_def bindr_eq_Inr_iff split: prod.splits dest: splitStep_no_bar parseRange_no_bar)

lemma trim_head_set: "set s \<subseteq> set (trim_head seqs s) \<union> \<Union> (set ` set seqs)"
proof (induction seqs s rule: trim_head.induct)
  case (1 seqs s)
  show ?case
  proof (cases "seq_len seqs s = 0")
    case True
    then show ?thesis by (subst trim_head.simps) simp
  next
    case False
    then obtain p where p: "find (HasPrefix s) seqs = Some p" "seq_len seqs s = length p"
      by (auto simp: seq_len_def split: option.splits)
    then have "p \<in> set seqs" "HasPrefix s p" by (auto simp: find_Some_iff)
    then obtain t where t: "s = p @ t" "p \<in> set seqs" by (auto simp: HasPrefix_iff)
    then have "set s \<subseteq> set (drop (seq_len seqs s) s) \<union> \<Union> (set ` set seqs)" using p(2) by auto
    moreover have "trim_head seqs s = trim_head seqs (drop (seq_len seqs s) s)"
      using False by (subst trim_head.simps) (simp add: Let_def)
    ultimately show ?thesis using 1 False by auto
  qed
qed

lemma bar_not_space: "bar \<notin> \<Union> (set ` set space_seqs)" "bar \<notin> \<Union> (set ` set (map rev space_seqs))"
  by (simp_all add: space_seqs_def)

lemma TrimSpace_no_bar: "bar \<notin> set (TrimSpace s) \<Longrightarrow> bar \<notin> set s"
  using trim_head_set [of s space_seqs] trim_head_set [of "rev (trim_head space_seqs s)" "map rev space_seqs"]
    bar_not_space unfolding TrimSpace_def by auto

lemma fields_from_no_bar:
  "\<forall>p \<in> set (fields_from cur s). bar \<notin> set p \<Longrightarrow> bar \<notin> set cur \<and> bar \<notin> set s"
proof (induction cur s rule: fields_from.induct)
  case (1 cur)
  then show ?case by (auto split: if_splits)
next
  case (2 cur c s)
  show ?case
  proof (cases "seq_len space_seqs (c # s) = 0")
    case True
    with 2 show ?thesis by auto
  next
    case False
    then obtain p where f: "find (HasPrefix (c # s)) space_seqs = Some p" "seq_len space_seqs (c # s) = length p"
      by (auto simp: seq_len_def split: option.splits)
    then have p: "p \<in> set space_seqs" "seq_len space_seqs (c # s) = length p" "HasPrefix (c # s) p"
      by (auto simp: find_Some_iff)
    then obtain t where t: "c # s = p @ t" by (auto simp: HasPrefix_iff)
    have d: "drop (seq_len space_seqs (c # s)) (c # s) = t" using t p(2) by simp
    have e: "fields_from cur (c # s) = (if cur = [] then [] else [rev cur]) @ fields_from [] t"
      using False by (simp only: fields_from.simps(2) Let_def d if_False)
    have "bar \<notin> set t" "bar \<notin> set cur"
      using "2.IH"(2) [OF refl False, unfolded d] "2.prems" unfolding e by (auto split: if_splits)
    moreover have "bar \<notin> set p" using p(1) bar_not_space(1) by blast
    ultimately show ?thesis using t by (metis Un_iff set_append)
  qed
qed

lemma parse_atoms_no_bar:
  "parse_atoms lo hi as out = Some (Inr f) \<Longrightarrow> \<forall>a \<in> set as. bar \<notin> set a"
proof (induction as arbitrary: out)
  case Nil
  then show ?case by simp
next
  case (Cons a as)
  have "bar \<notin> set (TrimSpace a)"
    using Cons.prems by (auto simp: Let_def split: if_splits sum.splits dest: parseAtom_no_bar)
  with Cons show ?case
    by (auto simp: Let_def TrimSpace_no_bar split: if_splits sum.splits option.splits)
qed

lemma parseField_no_bar: "parseField p lo hi = Some (Inr f) \<Longrightarrow> bar \<notin> set p"
proof -
  assume a: "parseField p lo hi = Some (Inr f)"
  show ?thesis
  proof (cases "p = ''*''")
    case False
    with a have "\<forall>x \<in> set (split_on (CHR '','') p). bar \<notin> set x"
      by (auto simp: parseField_def dest: parse_atoms_no_bar split: option.splits sum.splits if_splits)
    then have "bar \<notin> set (join_with [CHR '',''] (split_on (CHR '','') p))"
      using set_join_with [of "[CHR '','']" "split_on (CHR '','') p"] by auto
    then show ?thesis by simp
  qed simp
qed

lemma with_field_okE:
  assumes "with_field label r k = Some (Inr s)"
  obtains f where "r = Some (Inr f)" "k f = Some (Inr s)"
  using assms by (auto simp: with_field_def split: option.splits sum.splits field_error.splits)

lemma parseFields_five:
  assumes "parseFields spec loc = Some (Inr s)"
  obtains p0 p1 p2 p3 p4 where "Fields spec = [p0, p1, p2, p3, p4]"
proof (cases "\<exists>p0 p1 p2 p3 p4. Fields spec = [p0, p1, p2, p3, p4]")
  case False
  then have "\<nexists>s. parseFields spec loc = Some (Inr s)" by (auto simp: parseFields_def split: list.splits)
  with assms show ?thesis by blast
qed (use that in blast)

lemma parseFields_no_bar:
  assumes "parseFields spec loc = Some (Inr s)"
  shows "bar \<notin> set spec"
proof -
  obtain p0 p1 p2 p3 p4 where p: "Fields spec = [p0, p1, p2, p3, p4]" using parseFields_five [OF assms] .
  have "bar \<notin> set p0 \<and> bar \<notin> set p1 \<and> bar \<notin> set p2 \<and> bar \<notin> set p3 \<and> bar \<notin> set p4"
    using assms unfolding parseFields_def p list.case
    by (elim with_field_okE) (intro conjI; erule parseField_no_bar)
  then have "\<forall>x \<in> set (Fields spec). bar \<notin> set x" unfolding p by simp
  then show ?thesis using fields_from_no_bar [of "[]" spec] by (simp add: Fields_def)
qed

lemma ParseSchedule_no_bar: "ParseSchedule Local spec loc = Some (Inr s) \<Longrightarrow> bar \<notin> set spec"
  by (rule TrimSpace_no_bar)
    (auto simp: ParseSchedule_def Let_def split: if_splits dest: parseFields_no_bar)

lemma source_inj:
  assumes "scheduleSource a = scheduleSource b" "bar \<notin> set (bs_Schedule a)" "bar \<notin> set (bs_Schedule b)"
  shows "bs_Schedule a = bs_Schedule b \<and>
         case_option [] loc_name (bs_Location a) = case_option [] loc_name (bs_Location b)"
proof -
  have "Cut (scheduleSource x) bar = Some (bs_Schedule x, case_option [] loc_name (bs_Location x))"
    if "bar \<notin> set (bs_Schedule x)" for x
    using that by (simp add: Cut_eq_Some_iff scheduleSource_def)
  from this [OF assms(2)] this [OF assms(3)] assms(1) show ?thesis by simp
qed

section \<open>The scheduler's runs\<close>

text \<open>The zone data gives one location per name; a nil location has the empty name.\<close>

definition zone_ok :: "(string \<Rightarrow> Location) \<Rightarrow> backupSnapshot \<Rightarrow> bool" where
  "zone_ok zone snap = (case bs_Location snap of None \<Rightarrow> True | Some l \<Rightarrow> l = zone (loc_name l) \<and> loc_name l \<noteq> [])"

text \<open>\<open>t\<close> is a whole minute at which the snapshot's schedule fires.\<close>

definition sched_fires :: "Location \<Rightarrow> backupSnapshot \<Rightarrow> instant \<Rightarrow> bool" where
  "sched_fires Local snap t =
     (case ParseSchedule Local (bs_Schedule snap) (bs_Location snap) of
        Some (Inr sched) \<Rightarrow> Minute_d dvd t \<and> matches sched t
      | _ \<Rightarrow> False)"

definition due_run :: "Location \<Rightarrow> backup_run \<Rightarrow> bool" where
  "due_run Local r = (case r of (now, snap, t) \<Rightarrow> bs_Enabled snap \<and> t \<le> now \<and> sched_fires Local snap t)"

fun due_minute :: "backup_run \<Rightarrow> instant" where
  "due_minute (now, snap, t) = t"

definition planned :: "Location \<Rightarrow> (string \<Rightarrow> Location) \<Rightarrow> instant \<Rightarrow> scheduledFire \<Rightarrow> bool" where
  "planned Local zone b f =
     (IsZero (sf_at f) \<or> b < sf_at f \<and>
        (\<exists>snap. zone_ok zone snap \<and> scheduleSource snap = sf_source f \<and> sched_fires Local snap (sf_at f)))"

lemma sched_fires_source:
  assumes "scheduleSource a = scheduleSource b" "zone_ok zone a" "zone_ok zone b" "sched_fires Local a t"
    and b: "ParseSchedule Local (bs_Schedule b) (bs_Location b) = Some (Inr s)"
  shows "sched_fires Local b t"
proof -
  have "bar \<notin> set (bs_Schedule a)" "bar \<notin> set (bs_Schedule b)"
    using assms(4) b by (auto simp: sched_fires_def ParseSchedule_no_bar split: option.splits sum.splits)
  from source_inj [OF assms(1) this] assms(2,3) have "bs_Schedule a = bs_Schedule b" "bs_Location a = bs_Location b"
    by (auto simp: zone_ok_def split: option.splits)
  with assms(4) show ?thesis by (simp add: sched_fires_def)
qed

lemma Next_planned:
  assumes "60 dvd loc_offset Local (now div Nanos)" "zone_ok zone snap"
    and "ParseSchedule Local (bs_Schedule snap) (bs_Location snap) = Some (Inr sched)" "b \<le> now"
  shows "planned Local zone b \<lparr>sf_at = Next Local (Some sched) now, sf_source = scheduleSource snap\<rparr>"
proof (cases "Next Local (Some sched) now = 0")
  case True
  then show ?thesis by (simp add: planned_def IsZero_def)
next
  case False
  then have "fires sched now (Next Local (Some sched) now)" using Next_cases [OF assms(1)] by blast
  then have "sched_fires Local snap (Next Local (Some sched) now)" "b < Next Local (Some sched) now"
    using assms(3,4) by (simp_all add: fires_def sched_fires_def)
  with assms(2) show ?thesis unfolding planned_def by auto
qed

lemma schedulerTick_ends: "\<exists>r. schedulerTick Local snap now nxt = Some r"
  using ParseSchedule_ends [of Local "bs_Schedule snap" "bs_Location snap"]
  by (auto simp: schedulerTick_def Let_def split: sum.splits field_error.splits)

lemma schedulerTick_plan:
  assumes off: "\<forall>x. 60 dvd loc_offset Local x" and "planned Local zone b nxt" "b \<le> now" "zone_ok zone snap"
    and tick: "schedulerTick Local snap now nxt = Some (Inr (due, nxt'))"
  shows "case due of
           None \<Rightarrow> planned Local zone b nxt'
         | Some t \<Rightarrow> due_run Local (now, snap, t) \<and> b < t \<and> planned Local zone t nxt'"
proof (cases "\<not> bs_Enabled snap \<or> bs_Schedule snap = []")
  case True
  with tick have "due = None" "nxt' = no_fire" by (auto simp: schedulerTick_def)
  then show ?thesis by (simp add: planned_def no_fire_def IsZero_def)
next
  case on: False
  show ?thesis
  proof (cases "\<exists>sched. ParseSchedule Local (bs_Schedule snap) (bs_Location snap) = Some (Inr sched)")
    case False
    with tick on have "due = None" "nxt' = nxt"
      by (auto simp: schedulerTick_def split: option.splits sum.splits field_error.splits)
    with assms(2) show ?thesis by simp
  next
    case True
    then obtain sched where p: "ParseSchedule Local (bs_Schedule snap) (bs_Location snap) = Some (Inr sched)" ..
    define f where "f = replan Local sched snap now nxt"
    have f: "planned Local zone b f"
      using assms(2) Next_planned [OF off [rule_format] assms(4) p assms(3)] by (simp add: f_def replan_def)
    have src: "sf_source f = scheduleSource snap" by (simp add: f_def replan_def)
    have t: "schedulerTick Local snap now nxt =
        (if IsZero (sf_at f) \<or> now < sf_at f then Some (Inr (None, f))
         else Some (Inr (Some (sf_at f), \<lparr>sf_at = Next Local (Some sched) (now + Minute_d), sf_source = scheduleSource snap\<rparr>)))"
      using on p by (simp add: schedulerTick_def f_def Let_def)
    show ?thesis
    proof (cases "IsZero (sf_at f) \<or> now < sf_at f")
      case True
      with t tick f show ?thesis by simp
    next
      case False
      then have le: "sf_at f \<le> now" by simp
      from f False obtain a where a: "zone_ok zone a" "scheduleSource a = sf_source f" "sched_fires Local a (sf_at f)"
        and b: "b < sf_at f" by (auto simp: planned_def)
      have "sched_fires Local snap (sf_at f)"
        using sched_fires_source [OF _ a(1) assms(4) a(3) p] a(2) src by simp
      moreover have "planned Local zone (sf_at f) \<lparr>sf_at = Next Local (Some sched) (now + Minute_d), sf_source = scheduleSource snap\<rparr>"
        using le Minute_pos by (intro Next_planned [OF off [rule_format] assms(4) p]) linarith
      ultimately show ?thesis using t tick False on b le by (auto simp: due_run_def)
    qed
  qed
qed

lemma schedulerLoop_runs:
  assumes "\<forall>x. 60 dvd loc_offset Local x"
  shows "planned Local zone b nxt \<Longrightarrow> sorted (b # map fst ticks) \<Longrightarrow> \<forall>(now, snap) \<in> set ticks. zone_ok zone snap \<Longrightarrow>
    \<exists>rs. schedulerLoop Local nxt ticks = Some rs \<and> list_all (due_run Local) rs \<and>
         sorted_wrt (<) (b # map due_minute rs)"
proof (induction ticks arbitrary: nxt b)
  case Nil
  then show ?case by simp
next
  case (Cons tk ticks)
  obtain now snap where tk: "tk = (now, snap)" by (cases tk)
  obtain r where r: "schedulerTick Local snap now nxt = Some r" using schedulerTick_ends by blast
  show ?case
  proof (cases r)
    case (Inl e)
    with r tk show ?thesis by simp
  next
    case (Inr v)
    obtain due nxt' where v: "v = (due, nxt')" by (cases v)
    have step: "case due of None \<Rightarrow> planned Local zone b nxt'
        | Some t \<Rightarrow> due_run Local (now, snap, t) \<and> b < t \<and> planned Local zone t nxt'"
      using Cons.prems r Inr v tk by (intro schedulerTick_plan [OF assms]) simp_all
    show ?thesis
    proof (cases due)
      case None
      have "planned Local zone b nxt'" using step None by simp
      from Cons.IH [OF this] Cons.prems r Inr v tk None show ?thesis by simp
    next
      case (Some t)
      then have t: "due_run Local (now, snap, t)" "b < t" "planned Local zone t nxt'" using step by simp_all
      then have "sorted (t # map fst ticks)" using Cons.prems(2) tk by (auto simp: due_run_def)
      from Cons.IH [OF t(3) this] Cons.prems(3) obtain rs where
        "schedulerLoop Local nxt' ticks = Some rs" "list_all (due_run Local) rs" "sorted_wrt (<) (t # map due_minute rs)"
        by auto
      then show ?thesis using r Inr v tk Some t by (auto intro: less_trans)
    qed
  qed
qed

section \<open>Properties\<close>

definition UTC :: Location where
  "UTC = \<lparr>loc_name = ''UTC'', loc_offset = (\<lambda>_. 0)\<rparr>"

text \<open>(C39) Parsing a schedule always ends, with a schedule, an error or a panic. A schedule it accepts
  has five non-empty fields inside their ranges (minutes 0-59, hours 0-23, days 1-31, months 1-12,
  weekdays 0-6) and the given zone, the local one when none is given. A blank text is an error and
  gives no schedule. It panics only on a text with an element whose step is within 59 of the
  largest 64-bit integer.\<close>

theorem ParseSchedule_total:
  "(case ParseSchedule Local spec loc of
      None \<Rightarrow> False
    | Some (Inl (FieldErr e)) \<Rightarrow> True
    | Some (Inl ShiftPanic) \<Rightarrow> huge_step (TrimSpace spec)
    | Some (Inr s) \<Rightarrow> schedule_wf s \<and> sc_loc s = (case loc of None \<Rightarrow> Local | Some l \<Rightarrow> l)) \<and>
   (TrimSpace spec = [] \<longrightarrow> ParseSchedule Local spec loc = Some (Inl (FieldErr ''empty schedule'')))"
proof (intro conjI impI)
  obtain r where r: "ParseSchedule Local spec loc = Some r"
      "\<forall>s. r = Inr s \<longrightarrow> schedule_wf s \<and> sc_loc s = case_option Local id loc"
    using ParseSchedule_ends [of Local spec loc] by blast
  show "case ParseSchedule Local spec loc of
      None \<Rightarrow> False
    | Some (Inl (FieldErr e)) \<Rightarrow> True
    | Some (Inl ShiftPanic) \<Rightarrow> huge_step (TrimSpace spec)
    | Some (Inr s) \<Rightarrow> schedule_wf s \<and> sc_loc s = (case loc of None \<Rightarrow> Local | Some l \<Rightarrow> l)"
    using r ParseSchedule_panic [of Local spec loc]
    by (auto split: sum.split option.split field_error.split)
qed (simp add: ParseSchedule_def)

theorem ParseSchedule_total_witness:
  "ParseSchedule UTC ''  '' None = Some (Inl (FieldErr ''empty schedule''))"
proof -
  have "TrimSpace ''  '' = []" by code_simp
  with ParseSchedule_total [where Local = UTC and spec = "''  ''" and loc = None] show ?thesis by simp
qed

text \<open>A step that takes the loop past the largest integer wraps to a negative shift count.\<close>

lemma huge_step_panics: "parseField ''1/9223372036854775807'' 0 59 = Some (Inl ShiftPanic)"
  by code_simp

text \<open>(C16) \<open>Next\<close> is the least whole minute strictly after the given time, within four times 365
  days, at which the schedule fires, or the zero time when there is none. The zone of the given
  time is off UTC by whole minutes.\<close>

theorem Next_is_least:
  assumes "60 dvd loc_offset l (after div Nanos)"
  shows "(Next l (Some s) after = 0 \<and> (\<forall>m. \<not> fires s after m)) \<or>
         (fires s after (Next l (Some s) after) \<and> (\<forall>m. fires s after m \<longrightarrow> Next l (Some s) after \<le> m))"
  using assms by (rule Next_cases)

definition every_minute :: "Location \<Rightarrow> Schedule" where
  "every_minute l = \<lparr>sc_minute = makeFieldSet 0 59 True, sc_hour = makeFieldSet 0 23 True,
     sc_dayOfMonth = makeFieldSet 1 31 True, sc_month = makeFieldSet 1 12 True,
     sc_dayOfWeek = makeFieldSet 0 6 True, sc_loc = l\<rparr>"

lemma every_minute_matches: "matches (every_minute l) t"
proof -
  obtain y k where y: "civil_year (day_number l t) = (y, k)" by (cases "civil_year (day_number l t)")
  obtain m d where "month_day 1 (month_lengths y) k = (m, d)" by (cases "month_day 1 (month_lengths y) k")
  with y month_day_range [OF y this] have "1 \<le> month_of l t" "month_of l t \<le> 12" by (simp_all add: month_of_def date_of_def)
  moreover have "minute_of l t \<le> 59" "hour_of l t \<le> 23"
    using minute_range(2) [of l t] hour_range(2) [of l t] by simp_all
  ultimately show ?thesis using minute_range(1) [of l t] hour_range(1) [of l t]
    by (simp add: matches_def every_minute_def field_has_iff makeFieldSet_bit Let_def)
qed

lemma every_minute_next:
  assumes "60 dvd loc_offset l (after div Nanos)"
  shows "Next l (Some (every_minute l')) after = Minute_d * (after div Minute_d) + Minute_d"
proof -
  have "Minute_d * (after div Minute_d) \<le> after"
    using mult_div_mod_eq [of Minute_d after] pos_mod_sign [OF Minute_pos, of after] by linarith
  then have "Minute_d * (after div Minute_d) + Minute_d < after + Next_cap"
    by (simp add: Next_cap_def Hour_d_def Minute_d_def)
  then show ?thesis
    unfolding Next_def option.case first_minute [OF assms] by (subst next_from.simps) (simp add: every_minute_matches)
qed

text \<open>Half past the second minute.\<close>

theorem Next_is_least_witness:
  "fires (every_minute UTC) (90 * Nanos) (120 * Nanos) \<and> Next UTC (Some (every_minute UTC)) (90 * Nanos) = 120 * Nanos"
proof -
  have off: "60 dvd loc_offset UTC (90 * Nanos div Nanos)" by (simp add: UTC_def)
  have n: "Next UTC (Some (every_minute UTC)) (90 * Nanos) = 120 * Nanos"
    unfolding every_minute_next [OF off] by (simp add: Minute_d_def)
  with Next_is_least [OF off, of "every_minute UTC"] show ?thesis by simp
qed

text \<open>(C15) Whatever the operator does to the schedule between ticks, every backup the scheduler
  starts is enabled in the tick's configuration and due: it is started for a minute, not after
  the tick, at which the schedule and zone of that very configuration fire. The minutes of
  successive runs increase, so no minute is backed up twice. The loop ends for every finite
  sequence of ticks. Ticks come in order, zones are off UTC by whole minutes and their names
  determine them.\<close>

theorem scheduled_runs_are_due:
  assumes "\<forall>x. 60 dvd loc_offset Local x" "sorted (map fst ticks)"
    and "\<forall>(now, snap) \<in> set ticks. zone_ok zone snap"
  shows "\<exists>rs. fst (StartScheduler Local ticks False) = Some rs \<and>
           list_all (due_run Local) rs \<and> sorted_wrt (<) (map due_minute rs)"
proof -
  define b where "b = (case ticks of [] \<Rightarrow> 0 | (now, _) # _ \<Rightarrow> now)"
  have "planned Local zone b no_fire" by (simp add: planned_def no_fire_def IsZero_def)
  moreover have "sorted (b # map fst ticks)" using assms(2) by (cases ticks) (auto simp: b_def)
  ultimately show ?thesis
    using schedulerLoop_runs [OF assms(1) _ _ assms(3)] by (fastforce simp: StartScheduler_def claimScheduler_def)
qed

definition sample_snap :: backupSnapshot where
  "sample_snap = \<lparr>bs_Enabled = True, bs_Schedule = ''* * * * *'', bs_Location = None, bs_LastRun = 0\<rparr>"

definition sample_ticks :: "(instant \<times> backupSnapshot) list" where
  "sample_ticks = map (\<lambda>i. (i * Nanos, sample_snap)) [30, 60, 120, 180]"

lemma every_minute_parsed: "ParseSchedule Local ''* * * * *'' None = Some (Inr (every_minute Local))"
proof -
  have "TrimSpace ''* * * * *'' = ''* * * * *''" "Fields ''* * * * *'' = [''*'', ''*'', ''*'', ''*'', ''*'']"
    by code_simp+
  then show ?thesis
    by (simp add: ParseSchedule_def parseFields_def parseField_def with_field_def every_minute_def)
qed

theorem scheduled_runs_are_due_witness:
  "\<exists>rs. fst (StartScheduler UTC sample_ticks False) = Some rs \<and> list_all (due_run UTC) rs \<and>
        map due_minute rs = [60 * Nanos, 180 * Nanos]"
proof -
  have off: "60 dvd loc_offset UTC x" for x by (simp add: UTC_def)
  have "\<forall>x. 60 dvd loc_offset UTC x" "sorted (map fst sample_ticks)"
    "\<forall>(now, snap) \<in> set sample_ticks. zone_ok (\<lambda>_. UTC) snap"
    by (simp_all add: UTC_def sample_ticks_def zone_ok_def sample_snap_def)
  note due = scheduled_runs_are_due [OF this]
  have "map_option (map due_minute) (fst (StartScheduler UTC sample_ticks False)) = Some [60 * Nanos, 180 * Nanos]"
    by (simp add: StartScheduler_def claimScheduler_def sample_ticks_def schedulerTick_def every_minute_parsed
        sample_snap_def replan_def no_fire_def IsZero_def every_minute_next [OF off] Let_def Minute_d_def)
  with due show ?thesis by auto
qed

end
