(* ===== verification/Update.thy ===== *)
theory Update
  imports GoEncoding GoPath Validate "HOL-Library.Product_Lexorder"
begin

text \<open>
  The release updater of \<open>services/update.go\<close> with \<open>services/release_signing.go\<close> and
  \<open>releasekey/releasekey.go\<close>, and the rollback guard of \<open>cmd/lankeeper/update_guard.go\<close>.

  The world holds the files the updater and the guard touch, the update state file, whether the
  guard's timer unit is loaded, the boot branding and the number of restarts asked for. What the
  network, the agent's commands and the file system answer is read from an environment. The
  digest, the signature check, the archive reader, the JSON decoder and the output of a binary's
  \<open>version\<close> command are parameters.
\<close>

section \<open>Versions\<close>

datatype upd_error = TooLarge | ErrInvalidReleaseTag | ErrNoPendingUpdate | UpdErr string

definition maxReleaseTagLength :: nat where
  "maxReleaseTagLength = 64"

text \<open>\<open>[0-9]+\<close> at the head: the rest behind the longest run of digits.\<close>

definition digits_rest :: "string \<Rightarrow> string option" where
  "digits_rest s = (if s \<noteq> [] \<and> is_digit (hd s) then Some (dropWhile is_digit s) else None)"

text \<open>\<open>(\.[0-9]+){0,n}\<close>, greedy: what follows cannot start with a dot, so no shorter match succeeds.\<close>

fun dotted_rest :: "nat \<Rightarrow> string \<Rightarrow> string" where
  "dotted_rest 0 s = s"
| "dotted_rest (Suc n) s =
     (if s \<noteq> [] \<and> hd s = CHR ''.'' then
        (case digits_rest (tl s) of None \<Rightarrow> s | Some r \<Rightarrow> dotted_rest n r)
      else s)"

definition suffix_ok :: "string \<Rightarrow> bool" where
  "suffix_ok s =
     (s = [] \<or> (hd s = CHR ''-'' \<and> tl s \<noteq> [] \<and> is_alnum (hd (tl s)) \<and>
        list_all (\<lambda>c. is_alnum c \<or> c = CHR ''.'' \<or> c = CHR ''-'') (tl s)))"

definition releaseTagPattern :: "string \<Rightarrow> bool" where
  "releaseTagPattern tag =
     (case digits_rest (TrimPrefix tag ''v'') of None \<Rightarrow> False | Some r \<Rightarrow> suffix_ok (dotted_rest 3 r))"

definition validateReleaseTag :: "string \<Rightarrow> upd_error check" where
  "validateReleaseTag tag =
     (if length tag > maxReleaseTagLength \<or> \<not> releaseTagPattern tag then Inl ErrInvalidReleaseTag else ok)"

definition version_number :: "string list \<Rightarrow> nat \<Rightarrow> int" where
  "version_number parts i = (if i < length parts then atoi_value (Atoi (parts ! i)) else 0)"

definition parseSemver :: "string \<Rightarrow> int \<times> int \<times> int" where
  "parseSemver v =
     (let v1 = TrimPrefix v ''v'';
          v2 = takeWhile (\<lambda>c. c \<noteq> CHR ''-'') v1;
          parts = split_on (CHR ''.'') v2 in
      (version_number parts 0, version_number parts 1, version_number parts 2))"

definition CompareSemver :: "string \<Rightarrow> string \<Rightarrow> int" where
  "CompareSemver a b =
     (let (a0, a1, a2) = parseSemver a; (b0, b1, b2) = parseSemver b in
      if a0 > b0 then 1 else if a0 < b0 then -1
      else if a1 > b1 then 1 else if a1 < b1 then -1
      else if a2 > b2 then 1 else if a2 < b2 then -1
      else 0)"

definition safeUpdateFileName :: "string \<Rightarrow> string" where
  "safeUpdateFileName name0 =
     (let name = Base (TrimSpace name0) in
      if name = ''.'' \<or> name = ''/'' \<or> name = [] then ''lankeeper-update.tar.gz'' else name)"

definition preUpdateSnapshotPath :: "string \<Rightarrow> string" where
  "preUpdateSnapshotPath version = Join [''/var/backups'', ''lankeeper-pre-update-'' @ version @ ''.tar.gz'']"

section \<open>Releases\<close>

text \<open>The records leave out what is only shown or logged: the publication date of a release, the
  time an update was applied, and the commit and date of the running build.\<close>

record ghAsset =
  ga_Name :: string
  ga_Size :: int
  ga_URL :: string

record ghRelease =
  gr_TagName :: string
  gr_Body :: string
  gr_Assets :: "ghAsset list"

record UpdateInfo =
  ui_Available :: bool
  ui_CurrentVersion :: string
  ui_LatestVersion :: string
  ui_Architecture :: string
  ui_ReleaseNotes :: string
  ui_DownloadURL :: string
  ui_ChecksumURL :: string
  ui_SignatureURL :: string
  ui_AssetName :: string
  ui_AssetSize :: int

text \<open>An answer: its status, the bytes of the body, and whether reading past them fails. \<open>None\<close>
  stands for a request that got no answer.\<close>

record http_reply =
  hr_status :: nat
  hr_body :: string
  hr_broken :: bool

record updateState =
  st_PendingVersion :: string
  st_PreviousVersion :: string
  st_BackupBinary :: string
  st_ConfigSnapshot :: string

record UpdateService =
  us_currentVersion :: string
  us_architecture :: string
  us_binaryPath :: string
  us_statePath :: string
  us_backup :: bool
  us_pendingVersion :: string
  us_previousVersion :: string
  us_backupBinary :: string
  us_configSnapshot :: string

text \<open>The shipped clients and decoders the updater calls.\<close>

record tar_entry =
  te_Name :: string
  te_regular :: bool
  te_Size :: int
  te_data :: string
  te_broken :: bool

record upd_lib =
  lib_get :: "string \<Rightarrow> http_reply option"
  lib_json :: "string \<Rightarrow> ghRelease option"
  lib_sha256 :: "string \<Rightarrow> string"
  lib_verify :: "string \<Rightarrow> string \<Rightarrow> string \<Rightarrow> bool"
  lib_untar :: "string \<Rightarrow> (tar_entry list \<times> bool) option"
  lib_version :: "string \<Rightarrow> string \<times> bool"

definition releaseURL :: string where
  "releaseURL = ''https://api.github.com/repos/KilimcininKorOglu/lankeeper/releases/latest''"

definition fetchLatestRelease :: "upd_lib \<Rightarrow> upd_error + ghRelease" where
  "fetchLatestRelease lib =
     (case lib_get lib releaseURL of
        None \<Rightarrow> Inl (UpdErr ''fetch releases'')
      | Some resp \<Rightarrow>
          if hr_status resp \<noteq> 200 then Inl (UpdErr ''GitHub API status'')
          else (case lib_json lib (hr_body resp) of
                  None \<Rightarrow> Inl (UpdErr ''decode release'')
                | Some release \<Rightarrow> bindr (validateReleaseTag (gr_TagName release)) (\<lambda>_. Inr release)))"

definition select_asset :: "string \<Rightarrow> ghAsset \<Rightarrow> UpdateInfo \<Rightarrow> UpdateInfo" where
  "select_asset arch asset info0 =
     (let info = (if Contains (ga_Name asset) (''linux-'' @ arch) \<and> HasSuffix (ga_Name asset) ''.tar.gz''
                  then info0\<lparr>ui_AssetName := ga_Name asset, ui_DownloadURL := ga_URL asset, ui_AssetSize := ga_Size asset\<rparr>
                  else info0) in
      if ga_Name asset = ''SHA256SUMS'' then info\<lparr>ui_ChecksumURL := ga_URL asset\<rparr>
      else if ga_Name asset = ''SHA256SUMS.sig'' then info\<lparr>ui_SignatureURL := ga_URL asset\<rparr>
      else info)"

definition selectAssets :: "UpdateService \<Rightarrow> UpdateInfo \<Rightarrow> ghAsset list \<Rightarrow> UpdateInfo" where
  "selectAssets s info assets = fold (select_asset (us_architecture s)) assets info"

definition CheckForUpdate :: "upd_lib \<Rightarrow> UpdateService \<Rightarrow> upd_error + UpdateInfo" where
  "CheckForUpdate lib s =
     bindr (fetchLatestRelease lib) (\<lambda>release.
       let info = selectAssets s
             \<lparr>ui_Available = False, ui_CurrentVersion = us_currentVersion s, ui_LatestVersion = gr_TagName release,
              ui_Architecture = us_architecture s, ui_ReleaseNotes = gr_Body release, ui_DownloadURL = [],
              ui_ChecksumURL = [], ui_SignatureURL = [], ui_AssetName = [], ui_AssetSize = 0\<rparr> (gr_Assets release) in
       Inr (info\<lparr>ui_Available := CompareSemver (gr_TagName release) (us_currentVersion s) > 0\<rparr>))"

section \<open>The world\<close>

type_synonym files = "string \<Rightarrow> string option"

text \<open>The state file holds a decoded state, or something that does not decode (\<open>None\<close>).\<close>

record upd_world =
  uw_fs :: files
  uw_state :: "string \<Rightarrow> updateState option option"
  uw_guard :: bool
  uw_grub :: "string option"
  uw_restarts :: nat

text \<open>A command's outcome. A copy that fails leaves something at the target.\<close>

type_synonym cp_outcome = "string option option"

record upd_env =
  en_export :: bool
  en_snapshot :: "string option"
  en_create_archive :: bool
  en_stage :: bool
  en_create_binary :: bool
  en_close_binary :: bool
  en_chmod_binary :: bool
  en_cp_backup :: cp_outcome
  en_cp_install :: cp_outcome
  en_chmod :: bool
  en_cp_restore :: cp_outcome
  en_save_state :: bool
  en_save_left :: "updateState option option"
  en_clear_state :: bool
  en_systemd_run :: "bool \<Rightarrow> bool"
  en_stop_guard :: bool
  en_rm :: bool
  en_grub_write :: bool

text \<open>A failed write of the state file leaves what was there (\<open>en_save_left = None\<close>), or a file cut
  short. \<open>en_systemd_run loaded\<close> is whether \<open>systemd-run\<close> starts the guard's unit when a unit of that
  name is loaded or not.\<close>

definition cp_f :: "cp_outcome \<Rightarrow> string \<Rightarrow> string \<Rightarrow> files \<Rightarrow> bool \<times> files" where
  "cp_f r src dst fs =
     (case r of
        Some left \<Rightarrow> (False, fs(dst := left))
      | None \<Rightarrow> (case fs src of None \<Rightarrow> (False, fs) | Some c \<Rightarrow> (True, fs(dst \<mapsto> c))))"

section \<open>Download, verification and extraction\<close>

definition maxUpdateArchiveBytes :: nat where
  "maxUpdateArchiveBytes = 256 * 2 ^ 20"

definition maxUpdateBinaryBytes :: nat where
  "maxUpdateBinaryBytes = 512 * 2 ^ 20"

text \<open>What reaches the target, and the number of bytes or the error. A stream that breaks is
  noticed only if the reader gets past its data before the limit.\<close>

definition copyCapped :: "string \<Rightarrow> bool \<Rightarrow> nat \<Rightarrow> string \<times> (upd_error + nat)" where
  "copyCapped src broken limit =
     (let written = take (limit + 1) src in
      if length src \<le> limit \<and> broken then (written, Inl (UpdErr ''read''))
      else if length written > limit then (written, Inl TooLarge)
      else (written, Inr (length written)))"

definition downloadFile ::
    "upd_lib \<Rightarrow> upd_env \<Rightarrow> string \<Rightarrow> string \<Rightarrow> int \<Rightarrow> files \<Rightarrow> upd_error check \<times> files" where
  "downloadFile lib env url dest declaredSize fs =
     (if declaredSize > int maxUpdateArchiveBytes then (Inl TooLarge, fs)
      else (case lib_get lib url of
              None \<Rightarrow> (Inl (UpdErr ''request''), fs)
            | Some resp \<Rightarrow>
                if hr_status resp \<noteq> 200 then (Inl (UpdErr ''download status''), fs)
                else if \<not> en_create_archive env then (Inl (UpdErr ''create''), fs)
                else (case copyCapped (hr_body resp) (hr_broken resp) maxUpdateArchiveBytes of
                        (written, Inl e) \<Rightarrow> (Inl e, fs(dest \<mapsto> written))
                      | (written, Inr n) \<Rightarrow>
                          if declaredSize > 0 \<and> int n \<noteq> declaredSize
                          then (Inl (UpdErr ''size mismatch''), fs(dest \<mapsto> written))
                          else (ok, fs(dest \<mapsto> written)))))"

definition fetchChecksumFile :: "upd_lib \<Rightarrow> string \<Rightarrow> upd_error + string" where
  "fetchChecksumFile lib url =
     (case lib_get lib url of
        None \<Rightarrow> Inl (UpdErr ''download checksum file'')
      | Some resp \<Rightarrow>
          if hr_status resp \<noteq> 200 then Inl (UpdErr ''checksum file status'')
          else if length (hr_body resp) < 64 * 2 ^ 10 \<and> hr_broken resp then Inl (UpdErr ''read checksum file'')
          else Inr (take (64 * 2 ^ 10) (hr_body resp)))"

definition PublicKeyB64 :: string where
  "PublicKeyB64 = ''sI0C6bdE7SGWEL5zJ1ZkdwSdTIGcJsFlSvBwIbVjFPY=''"

text \<open>\<open>None\<close> is the panic of a malformed constant.\<close>

definition PublicKey :: "string option" where
  "PublicKey = (case b64_decode PublicKeyB64 of Some raw \<Rightarrow> if length raw = 32 then Some raw else None | None \<Rightarrow> None)"

definition Verify :: "upd_lib \<Rightarrow> string \<Rightarrow> string \<Rightarrow> string \<Rightarrow> upd_error check" where
  "Verify lib pub sums sigB64 =
     (case b64_decode (TrimSpace sigB64) of
        None \<Rightarrow> Inl (UpdErr ''malformed signature'')
      | Some sig \<Rightarrow>
          if length sig \<noteq> 64 then Inl (UpdErr ''malformed signature'')
          else if \<not> lib_verify lib pub sums sig then Inl (UpdErr ''bad signature'')
          else ok)"

definition verifyChecksumSignature :: "upd_lib \<Rightarrow> string \<Rightarrow> string \<Rightarrow> upd_error check" where
  "verifyChecksumSignature lib sigURL sums =
     (if sigURL = [] then Inl (UpdErr ''no signature'')
      else bindr (fetchChecksumFile lib sigURL) (\<lambda>raw. Verify lib (the PublicKey) sums raw))"

text \<open>Letters outside ASCII are left alone: no case mapping of theirs yields a hex digit.\<close>

definition to_lower :: "string \<Rightarrow> string" where
  "to_lower s = map (\<lambda>c. if byte_in 0x41 0x5A c then char_of ((of_char c :: nat) + 32) else c) s"

definition expectedChecksum :: "string \<Rightarrow> string \<Rightarrow> string" where
  "expectedChecksum body archiveName =
     (case find (\<lambda>fl. length fl \<ge> 2 \<and> Contains (fl ! 1) archiveName)
             (map Fields (split_on (CHR 0x0A) body)) of
        None \<Rightarrow> []
      | Some fl \<Rightarrow> to_lower (fl ! 0))"

definition fileSHA256 :: "upd_lib \<Rightarrow> files \<Rightarrow> string \<Rightarrow> upd_error + string" where
  "fileSHA256 lib fs path =
     (case fs path of None \<Rightarrow> Inl (UpdErr ''open archive for checksum'') | Some c \<Rightarrow> Inr (hex_encode (lib_sha256 lib c)))"

definition verifyChecksum :: "upd_lib \<Rightarrow> UpdateInfo \<Rightarrow> string \<Rightarrow> files \<Rightarrow> upd_error check" where
  "verifyChecksum lib info archivePath fs =
     (if ui_ChecksumURL info = [] then Inl (UpdErr ''no SHA256SUMS asset'')
      else if \<not> Contains (ui_AssetName info) (''-'' @ ui_LatestVersion info @ ''-linux-'')
      then Inl (UpdErr ''asset is not built for release'')
      else bindr (fetchChecksumFile lib (ui_ChecksumURL info)) (\<lambda>body.
           bindr (verifyChecksumSignature lib (ui_SignatureURL info) body) (\<lambda>_.
             let expectedHash = expectedChecksum body (Base archivePath) in
             if expectedHash = [] then Inl (UpdErr ''no checksum found'')
             else bindr (fileSHA256 lib fs archivePath) (\<lambda>actualHash.
               if actualHash \<noteq> expectedHash then Inl (UpdErr ''SHA-256 mismatch'') else ok))))"

definition writeUpdateBinary :: "upd_env \<Rightarrow> tar_entry \<Rightarrow> string \<Rightarrow> files \<Rightarrow> upd_error check \<times> files" where
  "writeUpdateBinary env entry destPath fs =
     (if te_Size entry > int maxUpdateBinaryBytes then (Inl TooLarge, fs)
      else if \<not> en_create_binary env then (Inl (UpdErr ''create''), fs)
      else (case copyCapped (te_data entry) (te_broken entry) maxUpdateBinaryBytes of
              (written, Inl e) \<Rightarrow> (Inl e, fs(destPath := None))
            | (written, Inr n) \<Rightarrow>
                if \<not> en_close_binary env then (Inl (UpdErr ''close binary''), fs(destPath \<mapsto> written))
                else if \<not> en_chmod_binary env then (Inl (UpdErr ''chmod binary''), fs(destPath \<mapsto> written))
                else (ok, fs(destPath \<mapsto> written))))"

fun extract_from ::
    "upd_env \<Rightarrow> tar_entry list \<Rightarrow> bool \<Rightarrow> string \<Rightarrow> files \<Rightarrow> upd_error check \<times> files" where
  "extract_from env [] eof destPath fs =
     (if eof then (Inl (UpdErr ''binary not found in archive''), fs) else (Inl (UpdErr ''tar read''), fs))"
| "extract_from env (e # es) eof destPath fs =
     (if Base (te_Name e) = ''lankeeper'' \<and> te_regular e then writeUpdateBinary env e destPath fs
      else extract_from env es eof destPath fs)"

definition extractBinary :: "upd_lib \<Rightarrow> upd_env \<Rightarrow> string \<Rightarrow> string \<Rightarrow> files \<Rightarrow> upd_error check \<times> files" where
  "extractBinary lib env archivePath destPath fs =
     (case fs archivePath of
        None \<Rightarrow> (Inl (UpdErr ''open''), fs)
      | Some data \<Rightarrow>
          (case lib_untar lib data of
             None \<Rightarrow> (Inl (UpdErr ''gzip open''), fs)
           | Some (entries, eof) \<Rightarrow> extract_from env entries eof destPath fs))"

definition stagedPath :: "UpdateService \<Rightarrow> string" where
  "stagedPath s = Join [Join [Dir (us_statePath s), ''update''], ''lankeeper-new'']"

definition stageBinary :: "upd_lib \<Rightarrow> upd_env \<Rightarrow> UpdateService \<Rightarrow> string \<Rightarrow> files \<Rightarrow> upd_error check \<times> files" where
  "stageBinary lib env s archivePath fs =
     (if \<not> en_stage env then (Inl (UpdErr ''create staging directory''), fs)
      else extractBinary lib env archivePath (stagedPath s) fs)"

section \<open>Installing\<close>

definition restoreBinary :: "upd_env \<Rightarrow> UpdateService \<Rightarrow> string \<Rightarrow> files \<Rightarrow> files" where
  "restoreBinary env s backupBinary fs = snd (cp_f (en_cp_restore env) backupBinary (us_binaryPath s) fs)"

definition runBinaryVersion :: "upd_lib \<Rightarrow> UpdateService \<Rightarrow> files \<Rightarrow> string \<times> bool" where
  "runBinaryVersion lib s fs = (case fs (us_binaryPath s) of None \<Rightarrow> ([], False) | Some b \<Rightarrow> lib_version lib b)"

definition installBinary ::
    "upd_lib \<Rightarrow> upd_env \<Rightarrow> UpdateService \<Rightarrow> string \<Rightarrow> string \<Rightarrow> string \<Rightarrow> files \<Rightarrow> upd_error check \<times> files" where
  "installBinary lib env s newBinary backupBinary version fs =
     (case cp_f (en_cp_backup env) (us_binaryPath s) backupBinary fs of
        (False, fs1) \<Rightarrow> (Inl (UpdErr ''backup binary''), fs1)
      | (True, fs1) \<Rightarrow>
          (case cp_f (en_cp_install env) newBinary (us_binaryPath s) fs1 of
             (False, fs2) \<Rightarrow> (Inl (UpdErr ''install binary''), restoreBinary env s backupBinary fs2)
           | (True, fs2) \<Rightarrow>
               if \<not> en_chmod env then (Inl (UpdErr ''chmod''), restoreBinary env s backupBinary fs2)
               else (case runBinaryVersion lib s fs2 of
                       (out, good) \<Rightarrow>
                         if \<not> good \<or> \<not> Contains out (TrimPrefix version ''v'')
                         then (Inl (UpdErr ''version verification failed''), restoreBinary env s backupBinary fs2)
                         else (ok, fs2))))"

text \<open>The export leaves \<open>en_snapshot\<close> at its path whether it succeeds or not.\<close>

definition snapshotConfig :: "upd_env \<Rightarrow> UpdateService \<Rightarrow> string \<Rightarrow> files \<Rightarrow> string \<times> files" where
  "snapshotConfig env s version fs =
     (if \<not> us_backup s then ([], fs)
      else (if en_export env then preUpdateSnapshotPath version else [],
            fs(preUpdateSnapshotPath version := en_snapshot env)))"

definition saveUpdateState :: "upd_env \<Rightarrow> UpdateService \<Rightarrow> updateState \<Rightarrow> upd_world \<Rightarrow> upd_error check \<times> upd_world" where
  "saveUpdateState env s st w =
     (if en_save_state env then (ok, w\<lparr>uw_state := (uw_state w)(us_statePath s \<mapsto> Some st)\<rparr>)
      else (Inl (UpdErr ''save update state''),
            (case en_save_left env of
               None \<Rightarrow> w
             | Some left \<Rightarrow> w\<lparr>uw_state := (uw_state w)(us_statePath s \<mapsto> left)\<rparr>)))"

definition clearUpdateState :: "upd_env \<Rightarrow> UpdateService \<Rightarrow> upd_world \<Rightarrow> upd_world" where
  "clearUpdateState env s w =
     (if en_clear_state env then w\<lparr>uw_state := (uw_state w)(us_statePath s := None)\<rparr> else w)"

definition armUpdateGuard :: "upd_env \<Rightarrow> upd_world \<Rightarrow> upd_error check \<times> upd_world" where
  "armUpdateGuard env w =
     (if en_systemd_run env (uw_guard w) then (ok, w\<lparr>uw_guard := True\<rparr>) else (Inl (UpdErr ''arm update guard''), w))"

definition stopUpdateGuard :: "upd_env \<Rightarrow> upd_world \<Rightarrow> upd_world" where
  "stopUpdateGuard env w = (if en_stop_guard env then w\<lparr>uw_guard := False\<rparr> else w)"

definition resetPendingUpdate :: "UpdateService \<Rightarrow> UpdateService" where
  "resetPendingUpdate s =
     s\<lparr>us_pendingVersion := [], us_previousVersion := [], us_backupBinary := [], us_configSnapshot := []\<rparr>"

definition updateBootBranding :: "upd_env \<Rightarrow> string \<Rightarrow> upd_world \<Rightarrow> upd_world" where
  "updateBootBranding env version0 w =
     (let version = TrimSpace version0 in
      if version = [] \<or> \<not> en_grub_write env then w
      else w\<lparr>uw_grub := Some (''GRUB_DISTRIBUTOR='' @ [CHR 0x22] @ ''LANKeeper '' @ version @ [CHR 0x22, CHR 0x0A])\<rparr>)"

definition rm_f :: "upd_env \<Rightarrow> string \<Rightarrow> upd_world \<Rightarrow> upd_world" where
  "rm_f env path w = (if en_rm env then w\<lparr>uw_fs := (uw_fs w)(path := None)\<rparr> else w)"

definition removeConfigSnapshot :: "upd_env \<Rightarrow> UpdateService \<Rightarrow> upd_world \<Rightarrow> upd_world" where
  "removeConfigSnapshot env s w = (if us_configSnapshot s = [] then w else rm_f env (us_configSnapshot s) w)"

definition restart_target :: "upd_world \<Rightarrow> upd_world" where
  "restart_target w = w\<lparr>uw_restarts := Suc (uw_restarts w)\<rparr>"

text \<open>From a staged binary on: install it, record the update, arm the guard, restart.\<close>

definition commitUpdate ::
    "upd_lib \<Rightarrow> upd_env \<Rightarrow> UpdateInfo \<Rightarrow> string \<Rightarrow> UpdateService \<Rightarrow> upd_world \<Rightarrow> upd_error check \<times> UpdateService \<times> upd_world" where
  "commitUpdate lib env info configSnapshot s w =
     (let backupBinary = us_binaryPath s @ ''.bak'' in
      case installBinary lib env s (stagedPath s) backupBinary (ui_LatestVersion info) (uw_fs w) of
        (Inl e, fs) \<Rightarrow> (Inl e, s, w\<lparr>uw_fs := fs\<rparr>)
      | (Inr _, fs) \<Rightarrow>
          (let state = \<lparr>st_PendingVersion = ui_LatestVersion info, st_PreviousVersion = us_currentVersion s,
                        st_BackupBinary = backupBinary, st_ConfigSnapshot = configSnapshot\<rparr> in
           case saveUpdateState env s state (w\<lparr>uw_fs := fs\<rparr>) of
             (Inl e, w1) \<Rightarrow> (Inl e, s, w1\<lparr>uw_fs := restoreBinary env s backupBinary (uw_fs w1)\<rparr>)
           | (Inr _, w1) \<Rightarrow>
               (let s1 = s\<lparr>us_pendingVersion := ui_LatestVersion info, us_previousVersion := us_currentVersion s,
                           us_backupBinary := backupBinary, us_configSnapshot := configSnapshot\<rparr> in
                case armUpdateGuard env w1 of
                  (Inl e, w2) \<Rightarrow>
                    (Inl e, resetPendingUpdate s1,
                     clearUpdateState env s (w2\<lparr>uw_fs := restoreBinary env s backupBinary (uw_fs w2)\<rparr>))
                | (Inr _, w2) \<Rightarrow> (ok, s1, restart_target (updateBootBranding env (ui_LatestVersion info) w2)))))"

definition ApplyUpdate ::
    "upd_lib \<Rightarrow> upd_env \<Rightarrow> UpdateInfo \<Rightarrow> UpdateService \<Rightarrow> upd_world \<Rightarrow> upd_error check \<times> UpdateService \<times> upd_world" where
  "ApplyUpdate lib env info s w =
     (if ui_DownloadURL info = [] then (Inl (UpdErr ''no download URL''), s, w)
      else
        (let (configSnapshot, fs0) = snapshotConfig env s (ui_LatestVersion info) (uw_fs w);
             tmpArchive = Join [''/tmp'', safeUpdateFileName (ui_AssetName info)] in
         case downloadFile lib env (ui_DownloadURL info) tmpArchive (ui_AssetSize info) fs0 of
           (Inl e, fs1) \<Rightarrow> (Inl e, s, w\<lparr>uw_fs := fs1\<rparr>)
         | (Inr _, fs1) \<Rightarrow>
             (case verifyChecksum lib info tmpArchive fs1 of
                Inl e \<Rightarrow> (Inl e, s, w\<lparr>uw_fs := fs1(tmpArchive := None)\<rparr>)
              | Inr _ \<Rightarrow>
                  (case stageBinary lib env s tmpArchive fs1 of
                     (Inl e, fs2) \<Rightarrow> (Inl e, s, w\<lparr>uw_fs := fs2(tmpArchive := None)\<rparr>)
                   | (Inr _, fs2) \<Rightarrow>
                       (case commitUpdate lib env info configSnapshot s (w\<lparr>uw_fs := fs2\<rparr>) of
                          (r, s1, w1) \<Rightarrow>
                            (r, s1, w1\<lparr>uw_fs := (uw_fs w1)(stagedPath s := None, tmpArchive := None)\<rparr>))))))"

definition ConfirmUpdate :: "upd_env \<Rightarrow> UpdateService \<Rightarrow> upd_world \<Rightarrow> upd_error check \<times> UpdateService \<times> upd_world" where
  "ConfirmUpdate env s w =
     (let w1 = stopUpdateGuard env w;
          w2 = (if us_backupBinary s \<noteq> [] then rm_f env (us_backupBinary s) w1 else w1);
          w3 = clearUpdateState env s (removeConfigSnapshot env s w2) in
      (ok, resetPendingUpdate s, w3))"

definition Rollback_update :: "upd_env \<Rightarrow> UpdateService \<Rightarrow> upd_world \<Rightarrow> upd_error check \<times> UpdateService \<times> upd_world" where
  "Rollback_update env s w =
     (if us_pendingVersion s = [] \<or> us_backupBinary s = [] then (Inl ErrNoPendingUpdate, s, w)
      else
        (let w1 = stopUpdateGuard env w in
         case cp_f (en_cp_restore env) (us_backupBinary s) (us_binaryPath s) (uw_fs w1) of
           (False, fs) \<Rightarrow> (Inl (UpdErr ''rollback''), s, w1\<lparr>uw_fs := fs\<rparr>)
         | (True, fs) \<Rightarrow>
             (let w2 = removeConfigSnapshot env s (rm_f env (us_backupBinary s) (w1\<lparr>uw_fs := fs\<rparr>));
                  w3 = (if us_previousVersion s \<noteq> [] then updateBootBranding env (us_previousVersion s) w2 else w2) in
              (ok, resetPendingUpdate s, restart_target (clearUpdateState env s w3)))))"

definition restorePendingUpdate :: "UpdateService \<Rightarrow> upd_world \<Rightarrow> UpdateService" where
  "restorePendingUpdate s w =
     (case uw_state w (us_statePath s) of
        Some (Some st) \<Rightarrow>
          if st_PendingVersion st = [] \<or> st_BackupBinary st = [] then s
          else s\<lparr>us_pendingVersion := st_PendingVersion st, us_previousVersion := st_PreviousVersion st,
                 us_backupBinary := st_BackupBinary st, us_configSnapshot := st_ConfigSnapshot st\<rparr>
      | _ \<Rightarrow> s)"

definition NewUpdateService :: "string \<Rightarrow> string \<Rightarrow> string \<Rightarrow> bool \<Rightarrow> upd_world \<Rightarrow> UpdateService" where
  "NewUpdateService version arch statePathEnv backup w =
     restorePendingUpdate
       \<lparr>us_currentVersion = version, us_architecture = arch, us_binaryPath = ''/usr/local/bin/lankeeper'',
        us_statePath = (if statePathEnv = [] then ''/var/lib/lankeeper/update-state.json'' else statePathEnv),
        us_backup = backup, us_pendingVersion = [], us_previousVersion = [], us_backupBinary = [],
        us_configSnapshot = []\<rparr> w"

definition HasPendingUpdate :: "UpdateService \<Rightarrow> bool" where
  "HasPendingUpdate s = (us_pendingVersion s \<noteq> [])"

section \<open>The guard\<close>

definition guardStatePath :: string where
  "guardStatePath = ''/var/lib/lankeeper/update-state.json''"

definition guardBinaryPath :: string where
  "guardBinaryPath = ''/usr/local/bin/lankeeper''"

definition guardBackupPath :: string where
  "guardBackupPath = ''/usr/local/bin/lankeeper.bak''"

text \<open>The guard runs by itself: what its steps meet.\<close>

record guard_env =
  ge_stat :: bool
  ge_replace :: bool
  ge_rm_backup :: bool
  ge_rm_state :: bool
  ge_restart :: bool

text \<open>The copy goes to a temporary file that is renamed over the target: all or nothing.\<close>

definition replaceFile :: "guard_env \<Rightarrow> string \<Rightarrow> string \<Rightarrow> files \<Rightarrow> bool \<times> files" where
  "replaceFile ge src dst fs =
     (case fs src of
        None \<Rightarrow> (False, fs)
      | Some c \<Rightarrow> if ge_replace ge then (True, fs(dst \<mapsto> c)) else (False, fs))"

definition rollbackUnconfirmedUpdate ::
    "guard_env \<Rightarrow> string \<Rightarrow> string \<Rightarrow> string \<Rightarrow> upd_world \<Rightarrow> upd_error check \<times> upd_world" where
  "rollbackUnconfirmedUpdate ge statePath binary backup w =
     (if \<not> ge_stat ge then (Inl (UpdErr ''stat update state''), w)
      else if uw_state w statePath = None then (ok, w)
      else (case replaceFile ge backup binary (uw_fs w) of
              (False, fs) \<Rightarrow> (Inl (UpdErr ''restore previous binary''), w\<lparr>uw_fs := fs\<rparr>)
            | (True, fs) \<Rightarrow>
                (let fs1 = (if ge_rm_backup ge then fs(backup := None) else fs);
                     st1 = (if ge_rm_state ge then (uw_state w)(statePath := None) else uw_state w);
                     w1 = restart_target (w\<lparr>uw_fs := fs1, uw_state := st1\<rparr>) in
                 if ge_restart ge then (ok, w1) else (Inl (UpdErr ''systemctl restart''), w1))))"

text \<open>The timer elapses: the unit is gone and the guard runs once.\<close>

definition runUpdateGuard :: "guard_env \<Rightarrow> upd_world \<Rightarrow> upd_error check \<times> upd_world" where
  "runUpdateGuard ge w =
     rollbackUnconfirmedUpdate ge guardStatePath guardBinaryPath guardBackupPath (w\<lparr>uw_guard := False\<rparr>)"

section \<open>Versions and names\<close>

lemma CompareSemver_lex:
  "CompareSemver a b = (if parseSemver b < parseSemver a then 1 else if parseSemver a < parseSemver b then -1 else 0)"
  by (auto simp: CompareSemver_def less_prod_def split: prod.split)

definition tag_char :: "char \<Rightarrow> bool" where
  "tag_char c = (is_alnum c \<or> c = CHR ''.'' \<or> c = CHR ''-'')"

lemma digits_rest_split: "digits_rest s = Some r \<Longrightarrow> \<exists>t. s = t @ r \<and> list_all tag_char t"
  by (rule exI [of _ "takeWhile is_digit s"])
    (auto simp: digits_rest_def list_all_iff tag_char_def is_alnum_def dest: set_takeWhileD split: if_splits)

lemma dotted_rest_split: "\<exists>t. s = t @ dotted_rest n s \<and> list_all tag_char t"
proof (induction n s rule: dotted_rest.induct)
  case (1 s)
  then show ?case by simp
next
  case (2 n s)
  show ?case
  proof (cases "s \<noteq> [] \<and> hd s = CHR ''.'' \<and> digits_rest (tl s) \<noteq> None")
    case True
    then obtain r where r: "digits_rest (tl s) = Some r" "s = CHR ''.'' # tl s" by (cases s) auto
    obtain t where t: "tl s = t @ r" "list_all tag_char t" using digits_rest_split [OF r(1)] by blast
    obtain u where u: "r = u @ dotted_rest n r" "list_all tag_char u" using "2.IH" True r by blast
    have "s = (CHR ''.'' # t @ u) @ dotted_rest (Suc n) s" using True r t u by simp
    moreover have "list_all tag_char (CHR ''.'' # t @ u)" using t u by (simp add: tag_char_def)
    ultimately show ?thesis by blast
  next
    case False
    then have "dotted_rest (Suc n) s = s" by (auto split: option.split)
    then show ?thesis by simp
  qed
qed

lemma suffix_ok_chars: "suffix_ok s \<Longrightarrow> list_all tag_char s"
  by (cases s) (auto simp: suffix_ok_def tag_char_def list_all_iff)

lemma tag_chars:
  assumes "validateReleaseTag tag = ok"
  shows "list_all tag_char tag" "length tag \<le> 64"
proof -
  have p: "releaseTagPattern tag" and "length tag \<le> 64"
    using assms by (auto simp: validateReleaseTag_def maxReleaseTagLength_def split: if_splits)
  then show "length tag \<le> 64" by simp
  from p obtain r where r: "digits_rest (TrimPrefix tag ''v'') = Some r" "suffix_ok (dotted_rest 3 r)"
    by (auto simp: releaseTagPattern_def split: option.splits)
  from digits_rest_split [OF r(1)] dotted_rest_split [of r 3] suffix_ok_chars [OF r(2)]
  have "list_all tag_char (TrimPrefix tag ''v'')" by (metis list_all_append)
  moreover have "tag_char (CHR ''v'')" by (simp add: tag_char_def is_alnum_def byte_in_def)
  moreover have "tag = TrimPrefix tag ''v'' \<or> tag = CHR ''v'' # TrimPrefix tag ''v''"
    by (cases tag) (auto simp: TrimPrefix_def)
  ultimately show "list_all tag_char tag" by (metis list.pred_inject(2))
qed

lemma tag_char_not_slash: "list_all tag_char t \<Longrightarrow> CHR ''/'' \<notin> set t"
  by (auto simp: list_all_iff tag_char_def is_alnum_def byte_in_def is_digit_def)

lemma snapshot_path:
  assumes "validateReleaseTag tag = ok"
  shows "preUpdateSnapshotPath tag = abs_path [''var'', ''backups'', ''lankeeper-pre-update-'' @ tag @ ''.tar.gz'']"
proof -
  have "list_all comp_ok [''lankeeper-pre-update-'' @ tag @ ''.tar.gz'']"
    using tag_char_not_slash [OF tag_chars(1) [OF assms]] by (simp add: comp_ok_def)
  moreover have "list_all comp_ok [''var'', ''backups'']" by (simp add: comp_ok_def)
  ultimately show ?thesis using Join_abs [of "[''var'', ''backups'']" "[''lankeeper-pre-update-'' @ tag @ ''.tar.gz'']"]
    by (simp add: preUpdateSnapshotPath_def abs_path_def)
qed

lemma Base_no_slash: "Base p = ''/'' \<or> CHR ''/'' \<notin> set (Base p)"
  by (auto simp: Base_def Let_def dest: set_takeWhileD)

lemma safeUpdateFileName_no_slash: "CHR ''/'' \<notin> set (safeUpdateFileName name)"
  using Base_no_slash [of "TrimSpace name"] by (auto simp: safeUpdateFileName_def Let_def)

lemma tmp_path:
  assumes "CHR ''/'' \<notin> set n"
  shows "\<exists>t. Join [''/tmp'', n] = CHR ''/'' # t \<and> (t = [] \<or> hd t = CHR ''t'')"
proof -
  have "path_comps (''/tmp/'' @ n) = ''tmp'' # path_comps n"
    using path_comps_append_slash [of "''/tmp''" n] by (simp add: path_comps_def)
  moreover have "path_comps n = [] \<or> path_comps n = [n]" using assms by (simp add: path_comps_def)
  ultimately have "\<exists>t. Clean (''/tmp/'' @ n) = CHR ''/'' # t \<and> (t = [] \<or> hd t = CHR ''t'')"
    by (cases "n = ''..''") (auto simp: Clean_def clean_step_def Let_def)
  then show ?thesis by (simp add: Join_def)
qed

section \<open>What an update leaves behind\<close>

text \<open>The paths of an installed service are those the guard knows.\<close>

definition installed :: "UpdateService \<Rightarrow> bool" where
  "installed s = (us_binaryPath s = guardBinaryPath \<and> us_statePath s = guardStatePath)"

definition archivePath_of :: "UpdateInfo \<Rightarrow> string" where
  "archivePath_of info = Join [''/tmp'', safeUpdateFileName (ui_AssetName info)]"

lemma scratch_paths:
  assumes "installed s"
  shows "stagedPath s = ''/var/lib/lankeeper/update/lankeeper-new''"
    and "stagedPath s \<noteq> guardBinaryPath" "stagedPath s \<noteq> guardBackupPath"
    and "archivePath_of info \<noteq> guardBinaryPath" "archivePath_of info \<noteq> guardBackupPath" "archivePath_of info \<noteq> stagedPath s"
proof -
  have "Join [Join [Dir guardStatePath, ''update''], ''lankeeper-new''] = ''/var/lib/lankeeper/update/lankeeper-new''"
    by code_simp
  then show st: "stagedPath s = ''/var/lib/lankeeper/update/lankeeper-new''"
    using assms by (simp add: stagedPath_def installed_def)
  then show "stagedPath s \<noteq> guardBinaryPath" "stagedPath s \<noteq> guardBackupPath"
    by (simp_all add: guardBinaryPath_def guardBackupPath_def)
  from tmp_path [OF safeUpdateFileName_no_slash] obtain t
    where "archivePath_of info = CHR ''/'' # t" "t = [] \<or> hd t = CHR ''t''" by (auto simp: archivePath_of_def)
  then show "archivePath_of info \<noteq> guardBinaryPath" "archivePath_of info \<noteq> guardBackupPath" "archivePath_of info \<noteq> stagedPath s"
    unfolding st by (auto simp: guardBinaryPath_def guardBackupPath_def)
qed

lemma snapshot_scratch:
  assumes "validateReleaseTag tag = ok"
  shows "preUpdateSnapshotPath tag \<noteq> guardBinaryPath" "preUpdateSnapshotPath tag \<noteq> guardBackupPath"
  unfolding snapshot_path [OF assms] by (simp_all add: abs_path_def guardBinaryPath_def guardBackupPath_def)

lemma backup_path: "installed s \<Longrightarrow> us_binaryPath s @ ''.bak'' = guardBackupPath"
  by (simp add: installed_def guardBinaryPath_def guardBackupPath_def)

lemma bin_not_bak: "guardBackupPath \<noteq> guardBinaryPath" "guardBinaryPath \<noteq> guardBackupPath"
  by (simp_all add: guardBinaryPath_def guardBackupPath_def)

lemma installBinary_outcome:
  assumes "installed s" "fs guardBinaryPath = Some old"
    and r: "installBinary lib env s (stagedPath s) guardBackupPath v fs = (r, fs')"
  shows "(is_ok r \<and> fs' guardBackupPath = Some old \<and> fs' guardBinaryPath = fs (stagedPath s) \<and> fs (stagedPath s) \<noteq> None) \<or>
         (\<not> is_ok r \<and> (en_cp_restore env = None \<longrightarrow> fs' guardBinaryPath = Some old))"
  using assms scratch_paths(2,3) [OF assms(1)] bin_not_bak
  by (auto simp: installBinary_def restoreBinary_def cp_f_def installed_def split: option.splits prod.splits if_splits)

text \<open>Staging writes the staged file only, from an archive entry that is the binary.\<close>

definition binary_entry :: "upd_lib \<Rightarrow> string \<Rightarrow> tar_entry \<Rightarrow> bool" where
  "binary_entry lib archive e =
     (\<exists>entries eof. lib_untar lib archive = Some (entries, eof) \<and> e \<in> set entries \<and>
        Base (te_Name e) = ''lankeeper'' \<and> te_regular e)"

lemma copyCapped_ok: "copyCapped src broken limit = (out, Inr n) \<Longrightarrow> out = src \<and> n = length src \<and> n \<le> limit"
  by (auto simp: copyCapped_def Let_def split: if_splits)

lemma copyCapped_total: "length src \<le> limit \<Longrightarrow> copyCapped src False limit = (src, Inr (length src))"
  by (simp add: copyCapped_def Let_def)

lemma copyCapped_bound: "length (fst (copyCapped src broken limit)) \<le> limit + 1"
  by (simp add: copyCapped_def Let_def)

lemma extract_from_outcome:
  "extract_from env es eof dest fs = (r, fs') \<Longrightarrow>
     (\<forall>p. p \<noteq> dest \<longrightarrow> fs' p = fs p) \<and>
     (is_ok r \<longrightarrow> (\<exists>e \<in> set es. Base (te_Name e) = ''lankeeper'' \<and> te_regular e \<and> fs' dest = Some (te_data e)))"
proof (induction es)
  case Nil
  then show ?case by (auto split: if_splits)
next
  case (Cons e es)
  show ?case
  proof (cases "Base (te_Name e) = ''lankeeper'' \<and> te_regular e")
    case True
    with Cons.prems have "writeUpdateBinary env e dest fs = (r, fs')" by simp
    then have "(\<forall>p. p \<noteq> dest \<longrightarrow> fs' p = fs p) \<and> (is_ok r \<longrightarrow> fs' dest = Some (te_data e))"
      by (auto simp: writeUpdateBinary_def dest: copyCapped_ok split: prod.splits sum.splits if_splits)
    with True show ?thesis by auto
  next
    case False
    with Cons show ?thesis by auto
  qed
qed

lemma stageBinary_outcome:
  assumes "stageBinary lib env s a fs = (r, fs')"
  shows "\<forall>p. p \<noteq> stagedPath s \<longrightarrow> fs' p = fs p"
    and "is_ok r \<Longrightarrow> \<exists>archive e. fs a = Some archive \<and> binary_entry lib archive e \<and> fs' (stagedPath s) = Some (te_data e)"
  using assms extract_from_outcome [of env _ _ "stagedPath s" fs]
  by (auto simp: stageBinary_def extractBinary_def binary_entry_def split: if_splits option.splits prod.splits) metis+

lemma downloadFile_outcome:
  assumes "downloadFile lib env url dest n fs = (r, fs')"
  shows "p \<noteq> dest \<Longrightarrow> fs' p = fs p"
  using assms by (auto simp: downloadFile_def split: if_splits option.splits prod.splits sum.splits)

lemma snapshotConfig_outcome:
  assumes "snapshotConfig env s v fs = (c, fs')"
  shows "p \<noteq> preUpdateSnapshotPath v \<Longrightarrow> fs' p = fs p"
  using assms by (auto simp: snapshotConfig_def split: if_splits)

text \<open>An update that waits for its confirmation: the previous binary is kept, the state file names
  it, and the guard is armed.\<close>

definition awaits_confirmation :: "string \<Rightarrow> UpdateInfo \<Rightarrow> UpdateService \<Rightarrow> upd_world \<Rightarrow> bool" where
  "awaits_confirmation old info s w =
     (installed s \<and> us_pendingVersion s = ui_LatestVersion info \<and> us_backupBinary s = guardBackupPath \<and>
      uw_fs w guardBackupPath = Some old \<and> uw_guard w \<and>
      (case uw_state w guardStatePath of
         Some (Some st) \<Rightarrow> st_PendingVersion st = ui_LatestVersion info \<and> st_BackupBinary st = guardBackupPath \<and>
                            st_ConfigSnapshot st = us_configSnapshot s
       | _ \<Rightarrow> False))"

lemma commitUpdate_outcome:
  assumes i: "installed s" and old: "uw_fs w guardBinaryPath = Some old"
    and c: "commitUpdate lib env info c s w = (r, s', w')"
  shows "(is_ok r \<and> awaits_confirmation old info s' w' \<and> en_systemd_run env (uw_guard w) \<and>
           uw_fs w' guardBinaryPath = uw_fs w (stagedPath s) \<and> us_configSnapshot s' = c) \<or>
         (\<not> is_ok r \<and> (en_cp_restore env = None \<longrightarrow> uw_fs w' guardBinaryPath = Some old))"
proof -
  obtain r1 fs where f: "installBinary lib env s (stagedPath s) guardBackupPath (ui_LatestVersion info) (uw_fs w) = (r1, fs)"
    by (cases "installBinary lib env s (stagedPath s) guardBackupPath (ui_LatestVersion info) (uw_fs w)")
  note o = installBinary_outcome [OF i old f]
  have b: "us_binaryPath s @ ''.bak'' = guardBackupPath" by (rule backup_path [OF i])
  have i': "us_binaryPath s = guardBinaryPath" "us_statePath s = guardStatePath" using i by (simp_all add: installed_def)
  show ?thesis
  proof (cases r1)
    case (Inl e)
    with c f o show ?thesis by (auto simp: commitUpdate_def b)
  next
    case (Inr u)
    with o have fs: "fs guardBackupPath = Some old" "fs guardBinaryPath = uw_fs w (stagedPath s)" by simp_all
    have rest: "en_cp_restore env = None \<Longrightarrow> restoreBinary env s guardBackupPath fs guardBinaryPath = Some old"
      using fs by (simp add: restoreBinary_def cp_f_def i')
    show ?thesis using c f Inr fs rest unfolding commitUpdate_def b
      by (auto simp: saveUpdateState_def armUpdateGuard_def clearUpdateState_def restart_target_def
          updateBootBranding_def awaits_confirmation_def installed_def i' Let_def split: if_splits option.splits)
  qed
qed

text \<open>The answer of \<open>systemd-run\<close> is met only when the guard is armed.\<close>

lemma systemd_run_unread [simp]:
  "snapshotConfig (env\<lparr>en_systemd_run := f\<rparr>) s v fs = snapshotConfig env s v fs"
  "downloadFile lib (env\<lparr>en_systemd_run := f\<rparr>) u p n fs = downloadFile lib env u p n fs"
  "installBinary lib (env\<lparr>en_systemd_run := f\<rparr>) s nb b v fs = installBinary lib env s nb b v fs"
  "saveUpdateState (env\<lparr>en_systemd_run := f\<rparr>) s st w = saveUpdateState env s st w"
  by (auto simp: snapshotConfig_def downloadFile_def installBinary_def restoreBinary_def saveUpdateState_def
      split: option.split prod.split sum.split bool.split)

lemma extract_systemd_run [simp]:
  "extract_from (env\<lparr>en_systemd_run := f\<rparr>) es eof d fs = extract_from env es eof d fs"
  by (induction es) (simp_all add: writeUpdateBinary_def split: prod.split sum.split)

lemma stage_systemd_run [simp]:
  "stageBinary lib (env\<lparr>en_systemd_run := f\<rparr>) s a fs = stageBinary lib env s a fs"
  by (simp add: stageBinary_def extractBinary_def cong: option.case_cong prod.case_cong)

text \<open>An update that fails only because the guard cannot be armed: the binary it replaced is put
  back from the backup that was just taken of it, and the state file is removed.\<close>

lemma commit_arm_fails:
  assumes i: "installed s" and cur: "uw_fs w guardBinaryPath = Some cur"
    and would: "is_ok (fst (commitUpdate lib (env\<lparr>en_systemd_run := \<lambda>_. True\<rparr>) info c s w))"
    and "\<not> en_systemd_run env (uw_guard w)" "en_cp_restore env = None" "en_clear_state env"
  shows "\<exists>s' w'. commitUpdate lib env info c s w = (Inl (UpdErr ''arm update guard''), s', w') \<and>
    uw_state w' guardStatePath = None \<and> \<not> HasPendingUpdate s' \<and>
    uw_fs w' guardBinaryPath = Some cur \<and> uw_fs w' guardBackupPath = Some cur"
proof -
  obtain r1 fs where f: "installBinary lib env s (stagedPath s) guardBackupPath (ui_LatestVersion info) (uw_fs w) = (r1, fs)"
    by (cases "installBinary lib env s (stagedPath s) guardBackupPath (ui_LatestVersion info) (uw_fs w)")
  have b: "us_binaryPath s @ ''.bak'' = guardBackupPath" by (rule backup_path [OF i])
  have i': "us_binaryPath s = guardBinaryPath" "us_statePath s = guardStatePath" using i by (simp_all add: installed_def)
  from would f obtain u where r1: "r1 = Inr u" and sv: "en_save_state env"
    by (cases r1) (auto simp: commitUpdate_def b saveUpdateState_def Let_def split: if_splits)
  with installBinary_outcome [OF i cur f] have "fs guardBackupPath = Some cur" by simp
  then have "restoreBinary env s guardBackupPath fs = fs(guardBinaryPath \<mapsto> cur)"
    using assms(5) by (simp add: restoreBinary_def cp_f_def i')
  with f r1 sv assms(4,6) \<open>fs guardBackupPath = Some cur\<close> bin_not_bak show ?thesis
    unfolding commitUpdate_def b
    by (simp add: saveUpdateState_def armUpdateGuard_def clearUpdateState_def resetPendingUpdate_def
        HasPendingUpdate_def i' Let_def)
qed

text \<open>The archive is the one the signed checksum file lists under its name, for this version.\<close>

definition signed_archive :: "upd_lib \<Rightarrow> UpdateInfo \<Rightarrow> string \<Rightarrow> bool" where
  "signed_archive lib info archive =
     (Contains (ui_AssetName info) (''-'' @ ui_LatestVersion info @ ''-linux-'') \<and>
      (\<exists>sums raw sig pub. fetchChecksumFile lib (ui_ChecksumURL info) = Inr sums \<and>
         fetchChecksumFile lib (ui_SignatureURL info) = Inr raw \<and>
         b64_decode (TrimSpace raw) = Some sig \<and> PublicKey = Some pub \<and> lib_verify lib pub sums sig \<and>
         hex_encode (lib_sha256 lib archive) = expectedChecksum sums (Base (archivePath_of info))))"

definition release_key :: string where
  "release_key =
      [CHR 0xB0, CHR 0x8D, CHR 0x02, CHR 0xE9, CHR 0xB7, CHR 0x44, CHR 0xED, CHR 0x21, CHR 0x96, CHR 0x10,
       CHR 0xBE, CHR 0x73, CHR 0x27, CHR 0x56, CHR 0x64, CHR 0x77, CHR 0x04, CHR 0x9D, CHR 0x4C, CHR 0x81, CHR 0x9C,
       CHR 0x26, CHR 0xC1, CHR 0x65, CHR 0x4A, CHR 0xF0, CHR 0x70, CHR 0x21, CHR 0xB5, CHR 0x63, CHR 0x14, CHR 0xF6]"

lemma PublicKey_decodes: "PublicKey = Some (the PublicKey)"
proof -
  have "b64_encode release_key = PublicKeyB64"
    by (simp add: release_key_def PublicKeyB64_def b64_char_def b64_alphabet_def)
  then have "b64_decode PublicKeyB64 = Some release_key" using b64_decode_encode [of release_key] by simp
  moreover have "length release_key = 32" by (simp add: release_key_def)
  ultimately show ?thesis by (simp add: PublicKey_def)
qed

lemma verifyChecksum_signed:
  assumes "verifyChecksum lib info (archivePath_of info) fs = ok" "fs (archivePath_of info) = Some archive"
  shows "signed_archive lib info archive"
  using assms PublicKey_decodes
  by (auto simp: verifyChecksum_def verifyChecksumSignature_def Verify_def fileSHA256_def signed_archive_def
      bindr_eq_Inr_iff Let_def split: if_splits option.splits)

lemma ApplyUpdate_outcome:
  assumes i: "installed s" and v: "validateReleaseTag (ui_LatestVersion info) = ok"
    and old: "uw_fs w guardBinaryPath = Some old" and a: "ApplyUpdate lib env info s w = (r, s', w')"
  shows "(is_ok r \<and> awaits_confirmation old info s' w' \<and> en_systemd_run env (uw_guard w) \<and>
           us_configSnapshot s' \<in> {[], preUpdateSnapshotPath (ui_LatestVersion info)} \<and>
           (\<exists>archive e. signed_archive lib info archive \<and> binary_entry lib archive e \<and>
                        uw_fs w' guardBinaryPath = Some (te_data e))) \<or>
         (\<not> is_ok r \<and> (en_cp_restore env = None \<longrightarrow> uw_fs w' guardBinaryPath = Some old))"
proof (cases "ui_DownloadURL info = []")
  case True
  with a old show ?thesis by (auto simp: ApplyUpdate_def)
next
  case False
  let ?t = "archivePath_of info"
  note sp = scratch_paths(2-6) [OF i] and ss = snapshot_scratch [OF v]
  obtain c fs0 where snap: "snapshotConfig env s (ui_LatestVersion info) (uw_fs w) = (c, fs0)" by (metis surj_pair)
  obtain r1 fs1 where dl: "downloadFile lib env (ui_DownloadURL info) ?t (ui_AssetSize info) fs0 = (r1, fs1)" by (metis surj_pair)
  have fs1: "fs1 guardBinaryPath = Some old"
    using snapshotConfig_outcome [OF snap] downloadFile_outcome [OF dl] sp ss old by metis
  note a' = a [unfolded ApplyUpdate_def archivePath_of_def [symmetric], simplified False snap if_False Let_def split dl]
  show ?thesis
  proof (cases r1)
    case (Inl e)
    with a' fs1 False snap dl show ?thesis by (auto simp: Let_def)
  next
    case r1: (Inr u)
    show ?thesis
    proof (cases "verifyChecksum lib info ?t fs1")
      case (Inl e)
      with a' r1 have "r = Inl e" "w' = w\<lparr>uw_fs := fs1(?t := None)\<rparr>" by simp_all
      with fs1 sp(3) [of info] show ?thesis by simp
    next
      case ver: (Inr u2)
      obtain r2 fs2 where st: "stageBinary lib env s ?t fs1 = (r2, fs2)" by (metis surj_pair)
      have fs2: "fs2 guardBinaryPath = Some old" using stageBinary_outcome(1) [OF st] sp fs1 by metis
      show ?thesis
      proof (cases r2)
        case (Inl e)
        with a' r1 ver st have "r = Inl e" "w' = w\<lparr>uw_fs := fs2(?t := None)\<rparr>" by simp_all
        with fs2 sp(3) [of info] show ?thesis by simp
      next
        case r2: (Inr u3)
        then obtain archive e where e: "fs1 ?t = Some archive" "binary_entry lib archive e" "fs2 (stagedPath s) = Some (te_data e)"
          using stageBinary_outcome(2) [OF st] by auto
        have signed: "signed_archive lib info archive" using verifyChecksum_signed ver e(1) by simp
        obtain r3 s3 w3 where cm: "commitUpdate lib env info c s (w\<lparr>uw_fs := fs2\<rparr>) = (r3, s3, w3)" by (metis surj_pair)
        have w': "r = r3" "s' = s3" "w' = w3\<lparr>uw_fs := (uw_fs w3)(stagedPath s := None, ?t := None)\<rparr>"
          using a' r1 ver st r2 cm by (simp_all add: Let_def)
        have keep: "uw_fs w' guardBinaryPath = uw_fs w3 guardBinaryPath" "uw_fs w' guardBackupPath = uw_fs w3 guardBackupPath"
          using sp(1,2) sp(3,4) [of info, symmetric] by (auto simp: w')
        have "c \<in> {[], preUpdateSnapshotPath (ui_LatestVersion info)}"
          using snap by (auto simp: snapshotConfig_def split: if_splits)
        with commitUpdate_outcome [OF i _ cm, of old] fs2 e signed keep show ?thesis
          by (auto simp: w' awaits_confirmation_def)
      qed
    qed
  qed
qed

lemma Apply_arm_fails:
  assumes i: "installed s" and v: "validateReleaseTag (ui_LatestVersion info) = ok"
    and cur: "uw_fs w guardBinaryPath = Some cur"
    and would: "fst (ApplyUpdate lib (env\<lparr>en_systemd_run := \<lambda>_. True\<rparr>) info s w) = ok"
    and env: "\<not> en_systemd_run env (uw_guard w)" "en_cp_restore env = None" "en_clear_state env"
  shows "\<exists>s' w'. ApplyUpdate lib env info s w = (Inl (UpdErr ''arm update guard''), s', w') \<and>
    uw_state w' guardStatePath = None \<and> \<not> HasPendingUpdate s' \<and>
    uw_fs w' guardBinaryPath = Some cur \<and> uw_fs w' guardBackupPath = Some cur"
proof -
  let ?t = "archivePath_of info" and ?env = "env\<lparr>en_systemd_run := \<lambda>_. True\<rparr>"
  note sp = scratch_paths(2-6) [OF i] and ss = snapshot_scratch [OF v]
  obtain c fs0 where snap: "snapshotConfig env s (ui_LatestVersion info) (uw_fs w) = (c, fs0)" by (metis surj_pair)
  obtain r1 fs1 where dl: "downloadFile lib env (ui_DownloadURL info) ?t (ui_AssetSize info) fs0 = (r1, fs1)" by (metis surj_pair)
  obtain r2 fs2 where st: "stageBinary lib env s ?t fs1 = (r2, fs2)" by (metis surj_pair)
  obtain r3 s3 w3 where cm: "commitUpdate lib ?env info c s (w\<lparr>uw_fs := fs2\<rparr>) = (r3, s3, w3)" by (metis surj_pair)
  have url: "ui_DownloadURL info \<noteq> []" using would by (auto simp: ApplyUpdate_def)
  note red = ApplyUpdate_def archivePath_of_def [symmetric] Let_def
  from would obtain u1 where r1: "r1 = Inr u1"
    using url snap dl by (cases r1) (auto simp: red)
  from would obtain u2 where ver: "verifyChecksum lib info ?t fs1 = Inr u2"
    using url snap dl r1 by (cases "verifyChecksum lib info ?t fs1") (auto simp: red)
  from would obtain u3 where r2: "r2 = Inr u3"
    using url snap dl r1 ver st by (cases r2) (auto simp: red)
  from would have r3: "is_ok r3"
    using url snap dl r1 ver st r2 cm by (simp add: red)
  have fs2: "fs2 guardBinaryPath = Some cur"
    using snapshotConfig_outcome [OF snap] downloadFile_outcome [OF dl] stageBinary_outcome(1) [OF st] sp ss cur by metis
  from commit_arm_fails [of s "w\<lparr>uw_fs := fs2\<rparr>" cur lib env info c] i fs2 cm r3 env obtain s4 w4
    where c4: "commitUpdate lib env info c s (w\<lparr>uw_fs := fs2\<rparr>) = (Inl (UpdErr ''arm update guard''), s4, w4)"
      "uw_state w4 guardStatePath = None" "\<not> HasPendingUpdate s4"
      "uw_fs w4 guardBinaryPath = Some cur" "uw_fs w4 guardBackupPath = Some cur"
    by auto
  have "ApplyUpdate lib env info s w = (Inl (UpdErr ''arm update guard''), s4,
      w4\<lparr>uw_fs := (uw_fs w4)(stagedPath s := None, ?t := None)\<rparr>)"
    using url snap dl r1 ver st r2 c4(1) by (simp add: red)
  with c4(2-5) sp(1,2) sp(3,4) [of info] show ?thesis by auto
qed

lemma guard_restores:
  assumes "awaits_confirmation old info s w" "ge_stat ge" "ge_replace ge"
  shows "uw_fs (snd (runUpdateGuard ge w)) guardBinaryPath = Some old"
  using assms bin_not_bak
  by (auto simp: awaits_confirmation_def runUpdateGuard_def rollbackUnconfirmedUpdate_def replaceFile_def
      restart_target_def Let_def split: option.splits)

lemma guard_idle:
  assumes "uw_state w guardStatePath = None"
  shows "uw_fs (snd (runUpdateGuard ge w)) = uw_fs w"
  using assms by (simp add: runUpdateGuard_def rollbackUnconfirmedUpdate_def)

lemma confirm_settles:
  assumes "awaits_confirmation old info s w" "us_configSnapshot s \<noteq> guardBinaryPath" "en_clear_state env"
    and "ConfirmUpdate env s w = (r, s', w')"
  shows "uw_state w' guardStatePath = None \<and> uw_fs w' guardBinaryPath = uw_fs w guardBinaryPath \<and> \<not> HasPendingUpdate s'"
  using assms bin_not_bak
  by (auto simp: awaits_confirmation_def ConfirmUpdate_def stopUpdateGuard_def rm_f_def removeConfigSnapshot_def
      clearUpdateState_def installed_def resetPendingUpdate_def HasPendingUpdate_def Let_def)

lemma stop_keeps [simp]: "uw_fs (stopUpdateGuard env w) = uw_fs w"
  by (simp add: stopUpdateGuard_def)

lemma rollback_restores:
  assumes "awaits_confirmation old info s w" "us_configSnapshot s \<noteq> guardBinaryPath" "en_cp_restore env = None"
    and "ui_LatestVersion info \<noteq> []" "Rollback_update env s w = (r, s', w')"
  shows "is_ok r \<and> uw_fs w' guardBinaryPath = Some old \<and> \<not> HasPendingUpdate s'"
proof -
  have "us_backupBinary s \<noteq> []" using assms(1) by (simp add: awaits_confirmation_def guardBackupPath_def)
  with assms bin_not_bak show ?thesis
    by (auto simp: awaits_confirmation_def Rollback_update_def rm_f_def removeConfigSnapshot_def cp_f_def
        clearUpdateState_def installed_def resetPendingUpdate_def HasPendingUpdate_def updateBootBranding_def restart_target_def Let_def)
qed

text \<open>A service started after the update has everything it needs to settle it.\<close>

lemma restart_awaits:
  assumes "awaits_confirmation old info s w" "ui_LatestVersion info \<noteq> []"
  shows "awaits_confirmation old info (NewUpdateService v arch [] b w) w"
    and "us_configSnapshot (NewUpdateService v arch [] b w) = us_configSnapshot s"
proof -
  have "guardBackupPath \<noteq> []" by (simp add: guardBackupPath_def)
  with assms show "awaits_confirmation old info (NewUpdateService v arch [] b w) w"
    "us_configSnapshot (NewUpdateService v arch [] b w) = us_configSnapshot s"
    by (auto simp: awaits_confirmation_def NewUpdateService_def restorePendingUpdate_def installed_def
        guardStatePath_def guardBinaryPath_def split: option.splits)
qed

lemma awaits_pending: "awaits_confirmation old info s w \<Longrightarrow> ui_LatestVersion info \<noteq> [] \<Longrightarrow> HasPendingUpdate s"
  by (simp add: awaits_confirmation_def HasPendingUpdate_def)

lemma tag_nonempty: "validateReleaseTag tag = ok \<Longrightarrow> tag \<noteq> []"
  by (auto simp: validateReleaseTag_def releaseTagPattern_def digits_rest_def TrimPrefix_def split: if_splits)

section \<open>A sample release\<close>

definition sample_info :: UpdateInfo where
  "sample_info = \<lparr>ui_Available = True, ui_CurrentVersion = ''v0'', ui_LatestVersion = ''v1'', ui_Architecture = ''x'',
     ui_ReleaseNotes = [], ui_DownloadURL = ''d'', ui_ChecksumURL = ''c'', ui_SignatureURL = ''s'',
     ui_AssetName = ''k-v1-linux-x.tar.gz'', ui_AssetSize = 0\<rparr>"

definition sample_sig :: string where
  "sample_sig = replicate 64 (CHR 0x00)"

definition sample_sig_text :: string where
  "sample_sig_text = replicate 86 (CHR ''A'') @ ''==''"

definition sample_lib :: upd_lib where
  "sample_lib = \<lparr>lib_get = (\<lambda>u. Some \<lparr>hr_status = 200, hr_body =
       (if u = ''d'' then ''tgz'' else if u = ''c'' then ''ab  k-v1-linux-x.tar.gz'' else sample_sig_text), hr_broken = False\<rparr>),
     lib_json = (\<lambda>_. None), lib_sha256 = (\<lambda>_. [CHR 0xAB]), lib_verify = (\<lambda>_ _ _. True),
     lib_untar = (\<lambda>_. Some ([\<lparr>te_Name = ''lankeeper'', te_regular = True, te_Size = 3, te_data = ''new'', te_broken = False\<rparr>], True)),
     lib_version = (\<lambda>b. (''lankeeper 1'', True))\<rparr>"

definition sample_env :: upd_env where
  "sample_env = \<lparr>en_export = True, en_snapshot = Some ''config'', en_create_archive = True, en_stage = True, en_create_binary = True,
     en_close_binary = True, en_chmod_binary = True, en_cp_backup = None, en_cp_install = None, en_chmod = True,
     en_cp_restore = None, en_save_state = True, en_save_left = None, en_clear_state = True, en_systemd_run = Not, en_stop_guard = True,
     en_rm = True, en_grub_write = True\<rparr>"

definition sample_world :: upd_world where
  "sample_world = \<lparr>uw_fs = Map.empty(guardBinaryPath \<mapsto> ''old''), uw_state = Map.empty, uw_guard = False, uw_grub = None, uw_restarts = 0\<rparr>"

definition sample_service :: UpdateService where
  "sample_service = NewUpdateService ''v0'' ''x'' [] True sample_world"

lemma sample_info_fields:
  "ui_DownloadURL sample_info = ''d''" "ui_LatestVersion sample_info = ''v1''" "ui_AssetSize sample_info = 0"
  by (simp_all add: sample_info_def)

lemma sample_installed: "installed sample_service"
  by (simp add: installed_def sample_service_def NewUpdateService_def restorePendingUpdate_def sample_world_def
      guardBinaryPath_def guardStatePath_def)

lemma sample_tag: "validateReleaseTag (ui_LatestVersion sample_info) = ok"
  by code_simp

lemma sample_old: "uw_fs sample_world guardBinaryPath = Some ''old''"
  by (simp add: sample_world_def)

lemma b64_encode_zeros: "b64_encode (replicate (3 * n) (CHR 0x00) @ s) = replicate (4 * n) (CHR ''A'') @ b64_encode s"
proof (induction n)
  case (Suc n)
  have "replicate (3 * Suc n) (CHR 0x00) = CHR 0x00 # CHR 0x00 # CHR 0x00 # replicate (3 * n) (CHR 0x00)"
    "replicate (4 * Suc n) (CHR ''A'') = CHR ''A'' # CHR ''A'' # CHR ''A'' # CHR ''A'' # replicate (4 * n) (CHR ''A'')"
    by (simp_all add: eval_nat_numeral)
  with Suc show ?case by (simp add: b64_char_def b64_alphabet_def)
qed simp

lemma TrimSpace_id:
  assumes "seq_len space_seqs s = 0" "seq_len (map rev space_seqs) (rev s) = 0"
  shows "TrimSpace s = s"
proof -
  have "trim_head space_seqs s = s" using assms(1) by (subst trim_head.simps) simp
  moreover have "trim_head (map rev space_seqs) (rev s) = rev s" using assms(2) by (subst trim_head.simps) simp
  ultimately show ?thesis by (simp add: TrimSpace_def)
qed

lemma sample_sig_decodes: "b64_decode (TrimSpace sample_sig_text) = Some sample_sig"
proof -
  have h: "sample_sig_text = CHR ''A'' # replicate 85 (CHR ''A'') @ ''==''"
    by (simp add: sample_sig_text_def replicate_Suc [of 85 "CHR ''A''", simplified])
  have "seq_len space_seqs sample_sig_text = 0" unfolding h by (simp add: seq_len_def space_seqs_def)
  moreover have t: "rev sample_sig_text = CHR ''='' # CHR ''='' # replicate 86 (CHR ''A'')"
    by (simp add: sample_sig_text_def)
  have "seq_len (map rev space_seqs) (rev sample_sig_text) = 0" unfolding t by (simp add: seq_len_def space_seqs_def)
  ultimately have "TrimSpace sample_sig_text = sample_sig_text" by (rule TrimSpace_id)
  moreover have z: "sample_sig = replicate (3 * 21) (CHR 0x00) @ [CHR 0x00]"
    using replicate_add [of 63 1 "CHR 0x00"] by (simp add: sample_sig_def)
  have "b64_encode sample_sig = replicate (4 * 21) (CHR ''A'') @ ''AA==''"
    unfolding z b64_encode_zeros by (simp add: b64_char_def b64_alphabet_def)
  then have "b64_encode sample_sig = sample_sig_text"
    using replicate_add [of 84 2 "CHR ''A''"] by (simp add: sample_sig_text_def numeral_2_eq_2)
  ultimately show ?thesis using b64_decode_encode [of sample_sig] by simp
qed

lemma sample_verified:
  assumes "fs (archivePath_of sample_info) = Some a"
  shows "verifyChecksum sample_lib sample_info (archivePath_of sample_info) fs = ok"
proof -
  have "Base (archivePath_of sample_info) = ''k-v1-linux-x.tar.gz''" by code_simp
  moreover have "expectedChecksum ''ab  k-v1-linux-x.tar.gz'' ''k-v1-linux-x.tar.gz'' = ''ab''" by code_simp
  moreover have "hex_encode [CHR 0xAB] = ''ab''" by code_simp
  moreover have "Contains ''k-v1-linux-x.tar.gz'' ''-v1-linux-''" by code_simp
  moreover have "length sample_sig_text = 88" "length sample_sig = 64" by (simp_all add: sample_sig_text_def sample_sig_def)
  ultimately show ?thesis using assms sample_sig_decodes
    by (simp add: verifyChecksum_def sample_info_def sample_lib_def fetchChecksumFile_def verifyChecksumSignature_def
        Verify_def fileSHA256_def Let_def)
qed

text \<open>The sample release installs on any installed service whose binary is there.\<close>

lemma sample_apply:
  assumes inst: "installed s" and cur: "uw_fs w guardBinaryPath = Some x"
  shows "\<exists>s' w'. ApplyUpdate sample_lib (sample_env\<lparr>en_systemd_run := f\<rparr>) sample_info s w =
     (if f (uw_guard w) then ok else Inl (UpdErr ''arm update guard''), s', w')"
proof -
  let ?t = "archivePath_of sample_info" and ?env = "sample_env\<lparr>en_systemd_run := f\<rparr>"
  let ?r = "if f (uw_guard w) then ok else Inl (UpdErr ''arm update guard'')"
  have i: "us_binaryPath s = guardBinaryPath" "us_statePath s = guardStatePath" using inst by (simp_all add: installed_def)
  note sp = scratch_paths(2-3) [OF inst] scratch_paths(4-6) [OF inst, of sample_info]
  obtain c fs0 where snap: "snapshotConfig sample_env s ''v1'' (uw_fs w) = (c, fs0)" by (metis surj_pair)
  have old: "fs0 guardBinaryPath = Some x"
    using snapshotConfig_outcome [OF snap] snapshot_scratch [OF sample_tag] cur by (simp add: sample_info_def)
  have dl: "downloadFile sample_lib sample_env ''d'' ?t 0 fs0 = (ok, fs0(?t \<mapsto> ''tgz''))"
    by (simp add: downloadFile_def sample_lib_def sample_env_def copyCapped_total maxUpdateArchiveBytes_def)
  have ver: "verifyChecksum sample_lib sample_info ?t (fs0(?t \<mapsto> ''tgz'')) = ok" by (rule sample_verified) simp
  have base: "Base ''lankeeper'' = ''lankeeper''" by code_simp
  have st: "stageBinary sample_lib sample_env s ?t (fs0(?t \<mapsto> ''tgz'')) = (ok, fs0(?t \<mapsto> ''tgz'', stagedPath s \<mapsto> ''new''))"
    by (simp add: stageBinary_def extractBinary_def sample_lib_def sample_env_def base writeUpdateBinary_def
        copyCapped_total maxUpdateBinaryBytes_def)
  have inst_ok: "installBinary sample_lib sample_env s (stagedPath s) guardBackupPath ''v1'' (fs0(?t \<mapsto> ''tgz'', stagedPath s \<mapsto> ''new'')) =
     (ok, fs0(?t \<mapsto> ''tgz'', stagedPath s \<mapsto> ''new'', guardBackupPath \<mapsto> x, guardBinaryPath \<mapsto> ''new''))"
    using old sp sp [symmetric] bin_not_bak
    by (simp add: installBinary_def cp_f_def sample_env_def i runBinaryVersion_def sample_lib_def TrimPrefix_def)
  have "en_save_state sample_env" by (simp add: sample_env_def)
  with inst_ok have "\<exists>s' w'. commitUpdate sample_lib ?env sample_info c s (w\<lparr>uw_fs := fs0(?t \<mapsto> ''tgz'', stagedPath s \<mapsto> ''new'')\<rparr>) = (?r, s', w')"
    by (simp add: commitUpdate_def backup_path [OF inst] sample_info_fields saveUpdateState_def armUpdateGuard_def Let_def)
  then show ?thesis using snap dl ver st
    by (auto simp: ApplyUpdate_def archivePath_of_def [symmetric] sample_info_fields Let_def)
qed

lemma sample_first:
  obtains s' w' where "ApplyUpdate sample_lib sample_env sample_info sample_service sample_world = (ok, s', w')"
proof -
  have "sample_env\<lparr>en_systemd_run := Not\<rparr> = sample_env" by (simp add: sample_env_def)
  with sample_apply [OF sample_installed sample_old, of Not] that show ?thesis
    by (auto simp: sample_world_def)
qed

section \<open>Properties\<close>

text \<open>(C4) An update that reports success has installed the content of a regular archive entry named
  \<open>lankeeper\<close>, from an archive built for the announced version whose SHA-256 is the one listed
  under its name in a checksum file that the release key's signature covers.\<close>

theorem installed_binary_is_signed:
  assumes "installed s" "validateReleaseTag (ui_LatestVersion info) = ok" "uw_fs w guardBinaryPath = Some old"
    and "ApplyUpdate lib env info s w = (ok, s', w')"
  shows "\<exists>archive e. signed_archive lib info archive \<and> binary_entry lib archive e \<and>
           uw_fs w' guardBinaryPath = Some (te_data e)"
  using ApplyUpdate_outcome [OF assms] by auto

theorem installed_binary_is_signed_witness:
  "\<exists>s' w' archive e. ApplyUpdate sample_lib sample_env sample_info sample_service sample_world = (ok, s', w') \<and>
     signed_archive sample_lib sample_info archive \<and> binary_entry sample_lib archive e \<and>
     uw_fs w' guardBinaryPath = Some (te_data e)"
proof -
  obtain s' w' where a: "ApplyUpdate sample_lib sample_env sample_info sample_service sample_world = (ok, s', w')"
    by (rule sample_first)
  from installed_binary_is_signed [OF sample_installed sample_tag sample_old a] a show ?thesis by blast
qed

text \<open>(C6) An update is undone unless it is confirmed. When it fails and copying the backup back works,
  the previous binary is installed. When it succeeds, the service that applied it and every service
  started after it know that it is pending and can settle it: the rollback an operator asks of
  either puts the previous binary back, provided the copy works, and nothing is pending then; and
  after a confirmation by either, with the state file removed, the guard leaves the new binary
  alone. Without either, the guard puts the previous binary back when its own copy works.\<close>

theorem update_is_transactional:
  assumes "installed s" "validateReleaseTag (ui_LatestVersion info) = ok" "uw_fs w guardBinaryPath = Some old"
    and "ApplyUpdate lib env info s w = (r, s', w')" "en_cp_restore env = None"
  shows "case r of
           Inl e \<Rightarrow> uw_fs w' guardBinaryPath = Some old
         | Inr _ \<Rightarrow>
             (\<forall>ge. ge_stat ge \<and> ge_replace ge \<longrightarrow> uw_fs (snd (runUpdateGuard ge w')) guardBinaryPath = Some old) \<and>
             (\<forall>t \<in> {s', NewUpdateService v arch [] b w'}.
                HasPendingUpdate t \<and>
                (\<forall>env2. en_cp_restore env2 = None \<longrightarrow>
                   (case Rollback_update env2 t w' of
                      (r2, t2, w2) \<Rightarrow> is_ok r2 \<and> \<not> HasPendingUpdate t2 \<and> uw_fs w2 guardBinaryPath = Some old)) \<and>
                (\<forall>env2 ge. en_clear_state env2 \<longrightarrow>
                   uw_fs (snd (runUpdateGuard ge (snd (snd (ConfirmUpdate env2 t w'))))) guardBinaryPath =
                   uw_fs w' guardBinaryPath))"
proof (cases r)
  case (Inl e)
  with ApplyUpdate_outcome [OF assms(1-4)] assms(5) show ?thesis by auto
next
  case (Inr u)
  with ApplyUpdate_outcome [OF assms(1-4)]
  have p: "awaits_confirmation old info s' w'" and c: "us_configSnapshot s' \<in> {[], preUpdateSnapshotPath (ui_LatestVersion info)}"
    by auto
  have ne: "ui_LatestVersion info \<noteq> []" by (rule tag_nonempty [OF assms(2)])
  have c': "us_configSnapshot s' \<noteq> guardBinaryPath"
    using c snapshot_scratch(1) [OF assms(2)] by (auto simp: guardBinaryPath_def)
  have "HasPendingUpdate t \<and>
      (\<forall>env2. en_cp_restore env2 = None \<longrightarrow>
         (case Rollback_update env2 t w' of
            (r2, t2, w2) \<Rightarrow> is_ok r2 \<and> \<not> HasPendingUpdate t2 \<and> uw_fs w2 guardBinaryPath = Some old)) \<and>
      (\<forall>env2 ge. en_clear_state env2 \<longrightarrow>
         uw_fs (snd (runUpdateGuard ge (snd (snd (ConfirmUpdate env2 t w'))))) guardBinaryPath = uw_fs w' guardBinaryPath)"
    if t: "t \<in> {s', NewUpdateService v arch [] b w'}" for t
  proof -
    have pt: "awaits_confirmation old info t w'" "us_configSnapshot t \<noteq> guardBinaryPath"
      using t p c' restart_awaits [OF p ne, of v arch b] by auto
    have "uw_fs (snd (runUpdateGuard ge (snd (snd (ConfirmUpdate env2 t w'))))) guardBinaryPath = uw_fs w' guardBinaryPath"
      if "en_clear_state env2" for env2 ge
      using confirm_settles [OF pt that] guard_idle by (metis prod.collapse)
    moreover have "case Rollback_update env2 t w' of
        (r2, t2, w2) \<Rightarrow> is_ok r2 \<and> \<not> HasPendingUpdate t2 \<and> uw_fs w2 guardBinaryPath = Some old"
      if "en_cp_restore env2 = None" for env2
      using rollback_restores [OF pt that ne] by (auto split: prod.split)
    ultimately show ?thesis using awaits_pending [OF pt(1) ne] by blast
  qed
  with Inr guard_restores [OF p] show ?thesis by simp
qed

definition sample_guard :: guard_env where
  "sample_guard = \<lparr>ge_stat = True, ge_replace = True, ge_rm_backup = True, ge_rm_state = True, ge_restart = True\<rparr>"

theorem update_is_transactional_witness:
  "\<exists>s' w'. ApplyUpdate sample_lib sample_env sample_info sample_service sample_world = (ok, s', w') \<and>
     uw_fs (snd (runUpdateGuard sample_guard w')) guardBinaryPath = Some ''old'' \<and>
     uw_fs (snd (snd (Rollback_update sample_env (NewUpdateService ''v1'' ''x'' [] True w') w'))) guardBinaryPath = Some ''old''"
proof -
  obtain s' w' where a: "ApplyUpdate sample_lib sample_env sample_info sample_service sample_world = (ok, s', w')"
    by (rule sample_first)
  have r: "en_cp_restore sample_env = None" by (simp add: sample_env_def)
  from update_is_transactional [OF sample_installed sample_tag sample_old a this, of "''v1''" "''x''" True]
  have "uw_fs (snd (runUpdateGuard sample_guard w')) guardBinaryPath = Some ''old''"
    "uw_fs (snd (snd (Rollback_update sample_env (NewUpdateService ''v1'' ''x'' [] True w') w'))) guardBinaryPath = Some ''old''"
    using r by (auto simp: sample_guard_def case_prod_unfold)
  with a show ?thesis by blast
qed

text \<open>(C40) Nothing stops a second update while one waits for its confirmation, and it takes the first
  one's rollback away. After a successful update, let the service that applied it or one started
  since apply another that would succeed if the guard could be armed. \<open>systemd-run\<close> refuses a unit
  name that is loaded, which the hypothesis on it says, so the second update fails; its clean-up
  puts back the binary it found and removes the state file. The guard of the first update then
  finds nothing to undo and leaves the unconfirmed binary installed, no update is pending that an
  operator could roll back, and the backup holds the unconfirmed binary instead of the previous
  one.\<close>

theorem second_apply_drops_guard:
  assumes first: "installed s" "validateReleaseTag (ui_LatestVersion info) = ok" "uw_fs w guardBinaryPath = Some old"
      "ApplyUpdate lib env info s w = (ok, s1, w1)"
    and second: "t \<in> {s1, NewUpdateService v arch [] b w1}" "validateReleaseTag (ui_LatestVersion info2) = ok"
      "fst (ApplyUpdate lib2 (env2\<lparr>en_systemd_run := \<lambda>_. True\<rparr>) info2 t w1) = ok"
    and systemd: "\<not> en_systemd_run env2 True"
    and works: "en_cp_restore env2 = None" "en_clear_state env2"
  shows "\<exists>s2 w2. ApplyUpdate lib2 env2 info2 t w1 = (Inl (UpdErr ''arm update guard''), s2, w2) \<and>
           uw_state w2 guardStatePath = None \<and> \<not> HasPendingUpdate s2 \<and>
           (\<forall>ge. uw_fs (snd (runUpdateGuard ge w2)) guardBinaryPath = uw_fs w1 guardBinaryPath) \<and>
           uw_fs w2 guardBackupPath = uw_fs w1 guardBinaryPath"
proof -
  from ApplyUpdate_outcome [OF first] obtain cur where p: "awaits_confirmation old info s1 w1"
      and cur: "uw_fs w1 guardBinaryPath = Some cur"
    by auto
  have t: "awaits_confirmation old info t w1"
    using second(1) p restart_awaits(1) [OF p tag_nonempty [OF first(2)]] by auto
  then have "installed t" "uw_guard w1" by (auto simp: awaits_confirmation_def)
  from Apply_arm_fails [OF this(1) second(2) cur second(3) _ works] this(2) systemd cur
  show ?thesis using guard_idle by fastforce
qed

theorem second_apply_drops_guard_witness:
  "\<exists>s1 w1 s2 w2. ApplyUpdate sample_lib sample_env sample_info sample_service sample_world = (ok, s1, w1) \<and>
     ApplyUpdate sample_lib sample_env sample_info (NewUpdateService ''v1'' ''x'' [] True w1) w1 =
       (Inl (UpdErr ''arm update guard''), s2, w2) \<and>
     uw_fs (snd (runUpdateGuard sample_guard w2)) guardBinaryPath = uw_fs w1 guardBinaryPath"
proof -
  obtain s1 w1 where a: "ApplyUpdate sample_lib sample_env sample_info sample_service sample_world = (ok, s1, w1)"
    by (rule sample_first)
  let ?t = "NewUpdateService ''v1'' ''x'' [] True w1"
  from ApplyUpdate_outcome [OF sample_installed sample_tag sample_old a] obtain cur
    where p: "awaits_confirmation ''old'' sample_info s1 w1" and cur: "uw_fs w1 guardBinaryPath = Some cur"
    by auto
  have "installed ?t"
    using restart_awaits(1) [OF p tag_nonempty [OF sample_tag]] by (simp add: awaits_confirmation_def)
  from sample_apply [OF this cur, of "\<lambda>_. True"]
  have would: "fst (ApplyUpdate sample_lib (sample_env\<lparr>en_systemd_run := \<lambda>_. True\<rparr>) sample_info ?t w1) = ok" by auto
  have e: "\<not> en_systemd_run sample_env True" "en_cp_restore sample_env = None" "en_clear_state sample_env"
    by (simp_all add: sample_env_def)
  from second_apply_drops_guard [OF sample_installed sample_tag sample_old a _ sample_tag would e] a
  show ?thesis by fastforce
qed

end
