(* ===== verification/Spec2Isabelle.thy ===== *)
theory Spec2Isabelle
  imports AgentSafety AgentClient ConfigStore WebGate WebSSE FirewallRules FirewallWatch BackupSchedule Update
begin

text \<open>
  Lankeeper is a router appliance written in Go. Two processes run on it: an unprivileged web
  process (\<open>lankeeper serve\<close>) and a root agent (\<open>lankeeper agent\<close>) that performs whitelisted
  operations for it over a Unix socket. The web process keeps the configuration, renders it into
  the files of the system services and asks the agent to install them; a release update replaces
  the binary of both, watched by a third invocation of the old binary, the update guard. Paths
  below are relative to \<open>src/\<close>.

  \<^bold>\<open>Shared theories.\<close> \<open>Prelude\<close> has the result type of fallible functions, 64-bit wrap-around and the
  list lemmas. \<open>GoStrings\<close>, \<open>GoPath\<close>, \<open>GoEncoding\<close>, \<open>GoNet\<close> and \<open>GoTime\<close> define what the program calls
  of the packages \<open>strings\<close>, \<open>strconv\<close>, \<open>path/filepath\<close>, \<open>encoding\<close>, \<open>net\<close> and \<open>time\<close> as executable
  functions on byte strings, integers and words, with their algebra (parse and print round trips,
  path normal forms, the calendar). \<open>Pool\<close> is a locale for a resource of fixed capacity that refuses
  instead of queueing; the agent's connection slots and the event broker's subscribers interpret it.

  \<^bold>\<open>The agent\<close> (\<open>internal/agent\<close>). \<open>AgentRules\<close>: the path rules of \<open>operations.go\<close>, with symlink resolution
  of the longest existing prefix. \<open>AgentOps\<close>: the argument rules of \<open>argrules.go\<close>, the command table and
  the four operations, each returning the requests it makes to the kernel; also the packing of file
  bodies in \<open>netutil/exec.go\<close>. \<open>AgentSafety\<close>: for every request and every state of the symlinks,
  operations stay beneath the directory of a rule, modes are safe, only whitelisted programs from
  trusted directories start with checked arguments, and bodies cross the socket unaltered; one theorem
  shows the argument rule of \<open>tar\<close> lets an option through. \<open>AgentServer\<close>: the start of
  \<open>Serve\<close>, admission, peer authorisation, framing and dispatch of \<open>server.go\<close>: who can open the socket
  and who is answered, which connections are refused, the bounds on slots and frames, exactly which
  requests are answered, and the overflow of a requested timeout. A handler is a parameter that also
  sees the state of the machine when it runs. \<open>AgentClient\<close>: \<open>client.go\<close>, over histories of calls and
  of connections refused or closed by the agent: a call never gets another call's reply, at most two
  calls are lost to a dead connection, and what budget a caller's deadline becomes.

  \<^bold>\<open>Configuration\<close> (\<open>internal/config\<close>, \<open>internal/netutil\<close>). \<open>ConfigTypes\<close>: a record per struct of
  \<open>config.go\<close> and its validation. \<open>Validate\<close>: the input validators of \<open>validate.go\<close> and the notion of
  inert text. \<open>ConfigStore\<close>: encryption of secrets, key creation, atomic replacement, \<open>Load\<close> and \<open>Save\<close>;
  a successful save loads back to the same configuration or to its validation errors, and a secret
  that begins with the ciphertext marker is shown to be the exception. Replacing a file is a sequence
  of disk operations; after a crash some first part of it holds and a file not synced by then can hold
  anything, and still the target is the old or the new one.

  \<^bold>\<open>The web process\<close> (\<open>internal/web\<close>). \<open>WebAuth\<close>: sessions (\<open>auth.go\<close>), refined by the history of
  logins. \<open>LoginGuard\<close>: lockout and global budget of failed logins. \<open>RateLimit\<close>: the token bucket;
  floating-point operations are exact ones followed by a rounding parameter. \<open>WebGate\<close>: the middleware
  of \<open>middleware.go\<close> in the order of \<open>NewServer\<close>, the route table and the login handlers of \<open>server.go\<close>;
  the locales \<open>gate\<close> and \<open>gate_pair\<close> state what a middleware promises and that promises compose, and
  the chain interprets them. \<open>WebSSE\<close>: the event broker of \<open>sse.go\<close> as a bounded lossy queue per stream.

  \<^bold>\<open>Services\<close> (\<open>internal/services\<close>). \<open>FirewallRules\<close>: edits and rendering of \<open>firewall.go\<close>; no
  configuration can inject a statement into a rendered line. \<open>FirewallWatch\<close>: apply, confirm, roll back
  and restart with \<open>AtomicChange\<close> of \<open>netutil/atomic.go\<close>, as a step relation with an invariant; an
  unconfirmed change is reverted across restarts, and what a record that could not be removed does. \<open>BackupSchedule\<close>: the cron dialect and the scheduler
  of \<open>backup_schedule.go\<close>. \<open>Update\<close>: the updater of \<open>update.go\<close>, the signature check of \<open>release_signing.go\<close>
  and \<open>internal/releasekey\<close>, and the guard of \<open>cmd/lankeeper/update_guard.go\<close>; what is installed is
  signed, an update is undone unless it is confirmed, by the service that applied it or one started
  since, and a second update while one is pending takes the rollback away.

  \<^bold>\<open>Modelling conventions.\<close> A fallible function returns \<open>'e + 'a\<close>. State is passed explicitly. A mutex
  makes each method one step, so interleavings are sequences of method calls. Instants and durations
  are integers in nanoseconds, kept at 64 bits with \<open>wrap64\<close> where the code can overflow. Outcomes the
  program does not control (system calls, commands, the network, randomness, timers) are arguments,
  usually the fields of an environment record, and the theorems hold for all of them unless a
  hypothesis says otherwise. No function uses fuel: loops are structural, have a measure, or, for the
  field loop of the schedule, are a partial function proved to return.

  \<^bold>\<open>Not modelled.\<close> AES-GCM, bcrypt, SHA-256, ed25519, YAML, JSON, tar and gzip are parameters with the
  laws the code relies on as hypotheses. The nftables template, pages, static files and translations
  are presentation. The services that mostly issue sequences of commands (network, PPPoE, QoS, storage,
  VPN, DNS, DHCP, IPv6, certificates, metrics), the backup archive and its upload targets, the health
  checks and the form decoding of the page handlers are not modelled; the gate model takes a handler as
  a parameter. Start-up wiring and the release signing tool are left out as well.
\<close>

end
